(* ===== verification/Prelude.thy ===== *)
theory Prelude
  imports Main "HOL-Library.Word"
begin

text \<open>
  Shared vocabulary of the development: the machine types of the firmware (\<open>uint8_t\<close>,
  \<open>uint16_t\<close>, \<open>uint32_t\<close>, \<open>uint64_t\<close> as words of that width), little-endian byte
  strings, block writes into fixed arrays, and the collections of rewrite rules that the
  component theories extend: \<open>frame_simps\<close> (what an operation leaves alone),
  \<open>wf_intros\<close> (preservation of well-formedness) and \<open>eval_simps\<close> (definitions that
  unfold when a closed instance is evaluated).
\<close>

unbundle bit_operations_syntax

named_theorems frame_simps \<open>fields an operation does not touch\<close>
named_theorems wf_intros \<open>well-formedness is preserved\<close>
named_theorems eval_simps \<open>definitions unfolded on closed terms\<close>

section \<open>Machine types\<close>

type_synonym byte = "8 word"
type_synonym u16 = "16 word"
type_synonym u32 = "32 word"
type_synonym u64 = "64 word"

lemma ucast_u8_u16_inverse [simp]: "(ucast (ucast (b :: byte) :: u16) :: byte) = b"
  by (rule bit_word_eqI) (simp add: bit_simps)

lemma ucast_u8_u32_inverse [simp]: "(ucast (ucast (b :: byte) :: u32) :: byte) = b"
  by (rule bit_word_eqI) (simp add: bit_simps)

lemma unat_byte_less: "unat (b :: byte) < 256"
  using unsigned_less [of b] by simp

lemma unat_ucast_u8_u16 [simp]: "unat (ucast (b :: byte) :: u16) = unat b"
  using unat_byte_less [of b] by (simp add: unsigned_ucast_eq take_bit_nat_eq_self_iff)

lemma unat_ucast_u8_u32 [simp]: "unat (ucast (b :: byte) :: u32) = unat b"
  using unat_byte_less [of b] by (simp add: unsigned_ucast_eq take_bit_nat_eq_self_iff)

lemma word_xor_right_cancel [simp]: "x XOR z = y XOR z \<longleftrightarrow> x = (y :: 'a::len word)"
  by (metis xor.assoc xor_self_eq xor.right_neutral)

lemma word_xor_left_cancel [simp]: "z XOR x = z XOR y \<longleftrightarrow> x = (y :: 'a::len word)"
  by (metis xor.commute word_xor_right_cancel)

section \<open>Little-endian byte strings\<close>

text \<open>
  \<open>le_bytes n w\<close> is the \<open>n\<close> low bytes of \<open>w\<close>, least significant first, as the
  firmware stores integers byte by byte; \<open>le_word\<close> reads such a string back with the
  same \<open>|=\<close> and shift the code uses.
\<close>

fun le_bytes :: "nat \<Rightarrow> 'a::len word \<Rightarrow> byte list" where
  "le_bytes 0 w = []"
| "le_bytes (Suc n) w = ucast w # le_bytes n (drop_bit 8 w)"

fun le_word :: "byte list \<Rightarrow> 'a::len word" where
  "le_word [] = 0"
| "le_word (b # bs) = ucast b OR push_bit 8 (le_word bs)"

lemma length_le_bytes [simp]: "length (le_bytes n w) = n"
  by (induction n arbitrary: w) simp_all

lemma ucast_or_push_drop:
  "(ucast (ucast (w :: 'a::len word) :: byte) :: 'a word) OR push_bit 8 (drop_bit 8 w) = w"
  by (rule bit_word_eqI) (auto simp: bit_simps not_less, metis le_add_diff_inverse not_less)

lemma le_word_le_bytes_take: "le_word (le_bytes n (w :: 'a::len word)) = take_bit (8 * n) w"
proof (induction n arbitrary: w)
  case 0
  show ?case by simp
next
  case (Suc n)
  have "ucast (ucast w :: byte) OR push_bit 8 (take_bit (8 * n) (drop_bit 8 w))
      = take_bit (8 * Suc n) w"
    by (rule bit_word_eqI) (auto simp: bit_simps)
  then show ?case by (simp add: Suc.IH)
qed

lemma le_word_le_bytes: "LENGTH('a) \<le> 8 * n \<Longrightarrow> le_word (le_bytes n (w :: 'a::len word)) = w"
  by (simp add: le_word_le_bytes_take take_bit_word_eq_self)

lemma le_bytes_u16: "le_bytes 2 (w :: u16) = [ucast w, ucast (drop_bit 8 w)]"
  by (simp add: numeral_2_eq_2)

lemma le_bytes_u32:
  "le_bytes 4 (w :: u32)
     = [ucast w, ucast (drop_bit 8 w), ucast (drop_bit 16 w), ucast (drop_bit 24 w)]"
  by (simp add: numeral_eq_Suc drop_bit_drop_bit)

lemma le_word_u16_roundtrip [simp]: "le_word (le_bytes 2 w) = (w :: u16)"
  by (rule le_word_le_bytes) simp

lemma le_word_u32_roundtrip [simp]: "le_word (le_bytes 4 w) = (w :: u32)"
  by (rule le_word_le_bytes) simp

lemma le_word_le_bytes_append:
  "LENGTH('a) \<le> 8 * n \<Longrightarrow> le_word (take n (le_bytes n w @ xs)) = (w :: 'a::len word)"
  by (simp add: le_word_le_bytes)

section \<open>Block writes\<close>

text \<open>
  \<open>write_list a xs m\<close> is the loop \<open>for (i...) write(a + i, xs[i])\<close> over a memory
  given by its single-cell write \<open>wr\<close>; the EEPROM operations are all of this form.
\<close>

fun write_list :: "(nat \<Rightarrow> 'v \<Rightarrow> 'm \<Rightarrow> 'm) \<Rightarrow> nat \<Rightarrow> 'v list \<Rightarrow> 'm \<Rightarrow> 'm" where
  "write_list wr a [] m = m"
| "write_list wr a (x # xs) m = write_list wr (Suc a) xs (wr a x m)"

definition read_list :: "(nat \<Rightarrow> 'm \<Rightarrow> 'v) \<Rightarrow> nat \<Rightarrow> nat \<Rightarrow> 'm \<Rightarrow> 'v list" where
  "read_list rd a n m = map (\<lambda>i. rd i m) [a..<a + n]"

lemma length_read_list [simp]: "length (read_list rd a n m) = n"
  by (simp add: read_list_def)

lemma nth_read_list [simp]: "i < n \<Longrightarrow> read_list rd a n m ! i = rd (a + i) m"
  by (simp add: read_list_def)

section \<open>Lists as fixed arrays\<close>

lemma take_update_append:
  "n < length xs \<Longrightarrow> take (Suc n) (xs[n := x]) = take n xs @ [x]"
  by (simp add: take_Suc_conv_app_nth)

lemma take_list_update_last:
  "i < n \<Longrightarrow> n \<le> length xs \<Longrightarrow> take n (xs[i := x]) = (take n xs)[i := x]"
  by (simp add: take_update_swap)

lemma find_SomeD: "find P xs = Some x \<Longrightarrow> P x \<and> x \<in> set xs"
  by (induction xs) (auto split: if_splits)

lemma find_None_iff_all: "find P xs = None \<longleftrightarrow> (\<forall>x \<in> set xs. \<not> P x)"
  by (auto simp: find_None_iff)

lemma fold_invariant:
  assumes "\<And>x s. I s \<Longrightarrow> x \<in> set xs \<Longrightarrow> I (f x s)" and "I s"
  shows "I (fold f xs s)"
  using assms by (induction xs arbitrary: s) auto

lemma fold_frame:
  assumes "\<And>x s. g (f x s) = g s"
  shows "g (fold f xs s) = g s"
  using assms by (induction xs arbitrary: s) auto

end
