(* ===== verification/Platform.thy ===== *)
theory Platform
  imports Prelude
begin

text \<open>
  The part of the ESP32/Arduino world the firmware sees: a millisecond clock, a trace of the
  effects it causes (frames handed to the radio, bytes written to the serial port, pin writes),
  and whether the program still runs. Hardware results the firmware branches on (does
  \<open>esp_now_send\<close> succeed, what does \<open>esp_random\<close> return, which MAC has the radio, what do
  the crypto library and the opcode header of the git submodule say) are the fields of
  \<open>env\<close>, an argument of every operation that uses them.
\<close>

section \<open>MAC addresses (network/MacAddress.h)\<close>

text \<open>
  \<open>uint8_t[6]\<close> is a datatype of six bytes: \<open>memcmp(a, b, 6) == 0\<close> is equality.
\<close>

datatype mac = MAC (mac0: byte) (mac1: byte) (mac2: byte) (mac3: byte) (mac4: byte) (mac5: byte)

definition mac_bytes :: "mac \<Rightarrow> byte list" where
  "mac_bytes m = [mac0 m, mac1 m, mac2 m, mac3 m, mac4 m, mac5 m]"

definition mac_of_bytes :: "byte list \<Rightarrow> mac" where
  "mac_of_bytes bs = MAC (bs ! 0) (bs ! 1) (bs ! 2) (bs ! 3) (bs ! 4) (bs ! 5)"

definition zero_mac :: mac where
  "zero_mac = MAC 0 0 0 0 0 0"

definition broadcast_mac :: mac where
  "broadcast_mac = MAC 0xFF 0xFF 0xFF 0xFF 0xFF 0xFF"

definition isZero :: "mac \<Rightarrow> bool" where
  "isZero m \<longleftrightarrow> list_all (\<lambda>b. b = 0) (mac_bytes m)"

definition isBroadcast :: "mac \<Rightarrow> bool" where
  "isBroadcast m \<longleftrightarrow> list_all (\<lambda>b. b = 0xFF) (mac_bytes m)"

lemma length_mac_bytes [simp]: "length (mac_bytes m) = 6"
  by (simp add: mac_bytes_def)

lemma mac_of_mac_bytes [simp]: "mac_of_bytes (mac_bytes m) = m"
  by (cases m) (simp add: mac_of_bytes_def mac_bytes_def)

lemma mac_bytes_of_bytes [simp]: "length bs = 6 \<Longrightarrow> mac_bytes (mac_of_bytes bs) = bs"
  by (auto simp: mac_bytes_def mac_of_bytes_def length_Suc_conv numeral_eq_Suc)

lemma mac_bytes_inject [simp]: "mac_bytes a = mac_bytes b \<longleftrightarrow> a = b"
  by (metis mac_of_mac_bytes)

lemma isZero_iff [simp]: "isZero m \<longleftrightarrow> m = zero_mac"
  by (cases m) (simp add: isZero_def zero_mac_def mac_bytes_def)

lemma isBroadcast_iff [simp]: "isBroadcast m \<longleftrightarrow> m = broadcast_mac"
  by (cases m) (simp add: isBroadcast_def broadcast_mac_def mac_bytes_def)

section \<open>Effects, clock and termination\<close>

datatype effect =
    RadioSend mac "byte list"
  | RadioPmk "byte list"
  | RadioPower byte
  | SerialWrite "byte list"
  | PinWrite nat bool
  | PinMode nat nat
  | AttachIrq nat
  | DetachIrq nat
  | Segments "byte list"
  | FailCode u16

text \<open>
  \<open>Restarted\<close> is \<open>ESP.restart()\<close>, \<open>Hung\<close> is an endless loop (\<open>while (true)\<close> of
  \<open>fatal\<close> or of a halted boot), \<open>Faulted\<close> is a read outside an array, which C leaves
  undefined.
\<close>

datatype run_status = Running | Restarted | Hung | Faulted

record platform =
  now :: u32
  status :: run_status
  out :: "effect list"

definition emit :: "effect \<Rightarrow> 'a platform_scheme \<Rightarrow> 'a platform_scheme" where
  "emit e s = s\<lparr>out := out s @ [e]\<rparr>"

definition delay_ms :: "u32 \<Rightarrow> 'a platform_scheme \<Rightarrow> 'a platform_scheme" where
  "delay_ms d s = s\<lparr>now := now s + d\<rparr>"

definition restart :: "'a platform_scheme \<Rightarrow> 'a platform_scheme" where
  "restart s = s\<lparr>status := Restarted\<rparr>"

definition hang :: "'a platform_scheme \<Rightarrow> 'a platform_scheme" where
  "hang s = s\<lparr>status := Hung\<rparr>"

definition fault :: "'a platform_scheme \<Rightarrow> 'a platform_scheme" where
  "fault s = s\<lparr>status := Faulted\<rparr>"

text \<open>
  Statement sequencing: what follows a call runs only if the call returned.
\<close>

definition andthen ::
  "('a platform_scheme \<Rightarrow> 'a platform_scheme) \<Rightarrow> ('a platform_scheme \<Rightarrow> 'a platform_scheme)
     \<Rightarrow> 'a platform_scheme \<Rightarrow> 'a platform_scheme" where
  "andthen f g s = (let s' = f s in if status s' = Running then g s' else s')"

lemma emit_simps [simp]:
  "now (emit e s) = now s" "status (emit e s) = status s" "out (emit e s) = out s @ [e]"
  "platform.more (emit e s) = platform.more s"
  by (simp_all add: emit_def)

lemma delay_ms_simps [simp]:
  "now (delay_ms d s) = now s + d" "status (delay_ms d s) = status s"
  "out (delay_ms d s) = out s" "platform.more (delay_ms d s) = platform.more s"
  by (simp_all add: delay_ms_def)

lemma halt_simps [simp]:
  "status (restart s) = Restarted" "status (hang s) = Hung" "status (fault s) = Faulted"
  "now (restart s) = now s" "now (hang s) = now s" "now (fault s) = now s"
  "out (restart s) = out s" "out (hang s) = out s" "out (fault s) = out s"
  "platform.more (restart s) = platform.more s" "platform.more (hang s) = platform.more s"
  "platform.more (fault s) = platform.more s"
  by (simp_all add: restart_def hang_def fault_def)

lemma andthen_running [simp]: "status (f s) = Running \<Longrightarrow> andthen f g s = g (f s)"
  by (simp add: andthen_def Let_def)

lemma andthen_stopped [simp]: "status (f s) \<noteq> Running \<Longrightarrow> andthen f g s = f s"
  by (simp add: andthen_def Let_def)

lemma andthen_invariant:
  assumes "P (f s)" and "\<And>t. P t \<Longrightarrow> P (g t)"
  shows "P (andthen f g s)"
  using assms by (simp add: andthen_def Let_def)

lemma andthen_frame: "h (f s) = h s \<Longrightarrow> (\<And>t. h (g t) = h t) \<Longrightarrow> h (andthen f g s) = h s"
  by (simp add: andthen_def Let_def)

section \<open>The environment\<close>

text \<open>
  Opcodes of \<open>lib/lattice-protocol/c/opcodes.h\<close>, a git submodule whose directory is empty:
  parameters. \<open>documented_opcodes\<close> holds the values that the comment block of
  \<open>Serial_Adapter.h\<close> lists for them and is the instance used by witnesses.
\<close>

record opcodes =
  OP_HEALTH_REQ :: byte
  OP_HEALTH_REPORT :: byte
  OP_NODE_HEALTH :: byte
  OP_NODE_ID_SET :: byte
  OP_CONFIG_SET :: byte
  OP_TX_POWER_SET :: byte
  OP_LED_SOLID :: byte
  OP_LED_OFF :: byte
  OP_LED_BLINK :: byte
  OP_RELAY_SET :: byte
  OP_COMMAND_ACK :: byte

definition documented_opcodes :: opcodes where
  "documented_opcodes = \<lparr>OP_HEALTH_REQ = 0xB0, OP_HEALTH_REPORT = 0xB1, OP_NODE_HEALTH = 0xB2,
     OP_NODE_ID_SET = 0xC0, OP_CONFIG_SET = 0xC1, OP_TX_POWER_SET = 0xC2, OP_LED_SOLID = 0xD0,
     OP_LED_OFF = 0xD1, OP_LED_BLINK = 0xD2, OP_RELAY_SET = 0xD8, OP_COMMAND_ACK = 0xE0\<rparr>"

text \<open>
  \<open>send_ok\<close>, \<open>add_peer_ok\<close>, \<open>del_peer_ok\<close>: does the ESP-NOW call return
  \<open>ESP_OK\<close>; \<open>channel_ok\<close>, \<open>mac_ok\<close>, \<open>espnow_init_ok\<close>, \<open>txpower_ok\<close>: the same for
  the Wi-Fi and ESP-NOW set-up calls; \<open>rand\<close>: the \<open>esp_random\<close> value drawn at a clock
  reading; \<open>hw_mac\<close>: the station MAC; \<open>ecdh\<close>, \<open>sha256\<close>, \<open>keygen\<close>: mbedtls, where
  \<open>Inl c\<close> is a failing step and \<open>c\<close> the sub-code the code reports for that step.
\<close>

record env =
  ops :: opcodes
  send_ok :: "mac \<Rightarrow> byte list \<Rightarrow> bool"
  add_peer_ok :: "mac \<Rightarrow> bool"
  del_peer_ok :: "mac \<Rightarrow> bool"
  channel_ok :: bool
  mac_ok :: bool
  espnow_init_ok :: bool
  txpower_ok :: bool
  rand :: "u32 \<Rightarrow> u32"
  hw_mac :: mac
  ecdh :: "byte list \<Rightarrow> byte list \<Rightarrow> byte + byte list"
  sha256 :: "byte list \<Rightarrow> byte + byte list"
  keygen :: "byte + (byte list \<times> byte list)"

text \<open>A concrete environment for witnesses: every call succeeds.\<close>

definition quiet_env :: "mac \<Rightarrow> env" where
  "quiet_env m = \<lparr>ops = documented_opcodes, send_ok = (\<lambda>_ _. True), add_peer_ok = (\<lambda>_. True),
     del_peer_ok = (\<lambda>_. True), channel_ok = True, mac_ok = True, espnow_init_ok = True,
     txpower_ok = True, rand = (\<lambda>t. t), hw_mac = m,
     ecdh = (\<lambda>a b. Inr (replicate 32 1)), sha256 = (\<lambda>x. Inr (replicate 32 2)),
     keygen = Inr (replicate 32 3, replicate 32 4)\<rparr>"

lemma quiet_env_simps [simp]:
  "ops (quiet_env m) = documented_opcodes" "send_ok (quiet_env m) = (\<lambda>_ _. True)"
  "add_peer_ok (quiet_env m) = (\<lambda>_. True)" "del_peer_ok (quiet_env m) = (\<lambda>_. True)"
  "channel_ok (quiet_env m)" "mac_ok (quiet_env m)" "espnow_init_ok (quiet_env m)"
  "txpower_ok (quiet_env m)" "rand (quiet_env m) = (\<lambda>t. t)" "hw_mac (quiet_env m) = m"
  "ecdh (quiet_env m) = (\<lambda>a b. Inr (replicate 32 1))"
  "sha256 (quiet_env m) = (\<lambda>x. Inr (replicate 32 2))"
  "keygen (quiet_env m) = Inr (replicate 32 3, replicate 32 4)"
  by (simp_all add: quiet_env_def)

end
