(* ===== verification/Mesh_Message.thy ===== *)
theory Mesh_Message
  imports Platform
begin

text \<open>
  The wire message of the mesh (\<open>mesh_message\<close> of Mesh/Mesh.h): a packed 127-byte struct that
  is handed to the radio as its memory image and copied back from the received bytes. ESP32 is
  little-endian.
\<close>

section \<open>Constants (Mesh.h, Adapter.h, project_config.h)\<close>

abbreviation (input) "MESH_TYPE_ADAPTER_DATA \<equiv> (0::byte)"
abbreviation (input) "MESH_TYPE_MASTER_BEACON \<equiv> (1::byte)"
abbreviation (input) "MESH_TYPE_ENROLLMENT \<equiv> (2::byte)"
abbreviation (input) "MESH_TYPE_SERIAL_CMD_BROADCAST \<equiv> (3::byte)"
abbreviation (input) "MESH_TYPE_JOIN_ACK \<equiv> (4::byte)"
abbreviation (input) "PROTO_VERSION \<equiv> (2::byte)"

abbreviation (input) "UNKNOWN_ADAPTER \<equiv> (0::u32)"
abbreviation (input) "SERIAL_ADAPTER \<equiv> (1::u32)"
abbreviation (input) "PIR_ADAPTER \<equiv> (2::u32)"
abbreviation (input) "LED_ADAPTER \<equiv> (3::u32)"
abbreviation (input) "RELAY_ADAPTER \<equiv> (4::u32)"

abbreviation (input) "MAX_HOPS \<equiv> (10::byte)"
abbreviation (input) "MASTER_BEACON_INTERVAL_MS \<equiv> (3000::u32)"
abbreviation (input) "STALE_MASTER_THRESHOLD_MS \<equiv> (9000::u32)"
abbreviation (input) "STALE_PEER_THRESHOLD_MS \<equiv> (8000::u32)"
abbreviation (input) "HEALTH_REPORT_INTERVAL_MS \<equiv> (30000::u32)"
abbreviation (input) "RELAY_JITTER_MAX_MS \<equiv> (64::u32)"

section \<open>The message\<close>

record mesh_message =
  protoVersion :: byte
  messageType :: byte
  dataType :: u32
  originMac :: mac
  targetMac :: mac
  lastHopMac :: mac
  msgData :: "byte list"
  hopCount :: byte
  epochNum :: u32
  seqNum :: u16
  enrollmentPublicKey :: "byte list"

text \<open>\<open>mesh_message msg = {}\<close>: every byte zero.\<close>

definition zero_message :: mesh_message where
  "zero_message = \<lparr>protoVersion = 0, messageType = 0, dataType = 0, originMac = zero_mac,
     targetMac = zero_mac, lastHopMac = zero_mac, msgData = replicate 64 0, hopCount = 0,
     epochNum = 0, seqNum = 0, enrollmentPublicKey = replicate 32 0\<rparr>"

definition message_wf :: "mesh_message \<Rightarrow> bool" where
  "message_wf m \<longleftrightarrow> length (msgData m) = 64 \<and> length (enrollmentPublicKey m) = 32"

definition sizeof_message :: nat where
  "sizeof_message = 127"

definition message_bytes :: "mesh_message \<Rightarrow> byte list" where
  "message_bytes m =
     [protoVersion m, messageType m] @ le_bytes 4 (dataType m) @ mac_bytes (originMac m)
     @ mac_bytes (targetMac m) @ mac_bytes (lastHopMac m) @ msgData m @ [hopCount m]
     @ le_bytes 4 (epochNum m) @ le_bytes 2 (seqNum m) @ enrollmentPublicKey m"

definition message_of_bytes :: "byte list \<Rightarrow> mesh_message" where
  "message_of_bytes bs =
     \<lparr>protoVersion = bs ! 0, messageType = bs ! 1, dataType = le_word (take 4 (drop 2 bs)),
      originMac = mac_of_bytes (take 6 (drop 6 bs)), targetMac = mac_of_bytes (take 6 (drop 12 bs)),
      lastHopMac = mac_of_bytes (take 6 (drop 18 bs)), msgData = take 64 (drop 24 bs),
      hopCount = bs ! 88, epochNum = le_word (take 4 (drop 89 bs)),
      seqNum = le_word (take 2 (drop 93 bs)), enrollmentPublicKey = take 32 (drop 95 bs)\<rparr>"

lemma zero_message_simps [simp]:
  "protoVersion zero_message = 0" "messageType zero_message = 0" "dataType zero_message = 0"
  "originMac zero_message = zero_mac" "targetMac zero_message = zero_mac"
  "lastHopMac zero_message = zero_mac" "msgData zero_message = replicate 64 0"
  "hopCount zero_message = 0" "epochNum zero_message = 0" "seqNum zero_message = 0"
  "enrollmentPublicKey zero_message = replicate 32 0"
  by (simp_all add: zero_message_def)

lemma message_wf_zero [simp]: "message_wf zero_message"
  by (simp add: message_wf_def)

lemma length_message_bytes [simp]: "message_wf m \<Longrightarrow> length (message_bytes m) = sizeof_message"
  by (simp add: message_bytes_def message_wf_def sizeof_message_def)

lemma message_of_message_bytes [simp]:
  assumes "message_wf m"
  shows "message_of_bytes (message_bytes m @ rest) = m"
  using assms
  by (cases m) (simp add: message_of_bytes_def message_bytes_def message_wf_def nth_append)

lemma message_of_message_bytes' [simp]: "message_wf m \<Longrightarrow> message_of_bytes (message_bytes m) = m"
  using message_of_message_bytes [of m "[]"] by simp

lemma message_of_bytes_wf: "sizeof_message \<le> length bs \<Longrightarrow> message_wf (message_of_bytes bs)"
  by (simp add: message_wf_def message_of_bytes_def sizeof_message_def)

lemma message_bytes_inject:
  "message_wf a \<Longrightarrow> message_wf b \<Longrightarrow> message_bytes a = message_bytes b \<longleftrightarrow> a = b"
  by (metis message_of_message_bytes')

end
