(* ===== verification/Seven_Seg.thy ===== *)
theory Seven_Seg
  imports Platform
begin

text \<open>
  The TM1637 driver (hardware/output/SevenSegDisplay.cpp): the font, the decimal rendering of
  \<open>show\<close> and \<open>showWithDP\<close>, the bit-banged byte transfer with its acknowledge window, and
  what happens when a byte is not acknowledged.
\<close>

section \<open>Font and digit encoding\<close>

definition FONT :: "byte list" where
  "FONT = [0x3F, 0x06, 0x5B, 0x4F, 0x66, 0x6D, 0x7D, 0x07,
           0x7F, 0x6F, 0x77, 0x7C, 0x39, 0x5E, 0x79, 0x71]"

definition encodeDigit :: "int \<Rightarrow> byte" where
  "encodeDigit d = (if 0 \<le> d \<and> d < 16 then FONT ! nat d
                    else if d = -1 then 0x40 else 0x00)"

text \<open>\<open>digits4 v\<close> is the loop that fills \<open>digits[3]\<close> down to \<open>digits[0]\<close>.\<close>

definition digits4 :: "int \<Rightarrow> int list" where
  "digits4 v = [v div 1000 mod 10, v div 100 mod 10, v div 10 mod 10, v mod 10]"

text \<open>The minus sign overwrites the first non-zero digit, or the last one.\<close>

fun put_minus :: "int list \<Rightarrow> int list" where
  "put_minus [] = []"
| "put_minus [d] = [-1]"
| "put_minus (d # ds) = (if d \<noteq> 0 then -1 # ds else d # put_minus ds)"

definition clamp_display :: "int \<Rightarrow> int" where
  "clamp_display value = (let v = (if value < 0 then - value else value)
                          in if v > 9999 then 9999 else v)"

definition show_digits :: "int \<Rightarrow> int list" where
  "show_digits value =
     (let ds = digits4 (clamp_display value) in if value < 0 then put_minus ds else ds)"

definition segment_at :: "bool \<Rightarrow> bool \<Rightarrow> int list \<Rightarrow> nat \<Rightarrow> byte" where
  "segment_at leadingZeros negative ds i =
     (if \<not> leadingZeros \<and> ds ! i = 0 \<and> i < 3 \<and> \<not> negative then 0x00 else encodeDigit (ds ! i))"

definition show_segs :: "int \<Rightarrow> bool \<Rightarrow> byte list" where
  "show_segs value leadingZeros =
     map (segment_at leadingZeros (value < 0) (show_digits value)) [0..<4]"

definition showWithDP_segs :: "int \<Rightarrow> bool \<Rightarrow> byte list" where
  "showWithDP_segs value leadingZeros =
     (let segs = map (segment_at leadingZeros (value < 0) (show_digits value)) [0..<4]
      in segs[3 := segs ! 3 OR 0x80])"

definition setBrightness :: "byte \<Rightarrow> byte" where
  "setBrightness level = level AND 0x07"

section \<open>The two-wire bus\<close>

datatype wire = Clk bool | Dio bool

definition bus_start :: "wire list" where
  "bus_start = [Dio True, Clk True, Dio False, Clk False]"

definition bus_stop :: "wire list" where
  "bus_stop = [Clk False, Dio False, Clk True, Dio True]"

text \<open>The eight-bit loop of \<open>writeByte\<close>: clock low, data bit, clock high, shift right.\<close>

fun write_bits :: "nat \<Rightarrow> byte \<Rightarrow> wire list" where
  "write_bits 0 b = []"
| "write_bits (Suc n) b =
     [Clk False, Dio (b AND 1 \<noteq> 0), Clk True] @ write_bits n (drop_bit 1 b)"

definition writeByte :: "byte \<Rightarrow> wire list" where
  "writeByte b = write_bits 8 b @ [Clk False, Dio True, Clk True]"

text \<open>
  The receiving chip: it samples the data line at every rising clock edge. The state is the
  level of both lines.
\<close>

fun sampled :: "bool \<Rightarrow> bool \<Rightarrow> wire list \<Rightarrow> bool list" where
  "sampled clk dio [] = []"
| "sampled clk dio (Dio d # ws) = sampled clk d ws"
| "sampled clk dio (Clk c # ws) =
     (if c \<and> \<not> clk then dio # sampled c dio ws else sampled c dio ws)"

definition setSegments_bytes :: "byte \<Rightarrow> byte list \<Rightarrow> byte list" where
  "setSegments_bytes brightness segs = [0x40, 0xC0] @ segs @ [0x88 OR brightness]"

text \<open>Every byte that \<open>setSegments\<close> puts on the bus, framed as the code frames them.\<close>

definition setSegments_wires :: "byte \<Rightarrow> byte list \<Rightarrow> wire list" where
  "setSegments_wires brightness segs =
     bus_start @ writeByte 0x40 @ bus_stop
     @ bus_start @ writeByte 0xC0 @ concat (map writeByte segs) @ bus_stop
     @ bus_start @ writeByte (0x88 OR brightness) @ bus_stop"

section \<open>Lemmas\<close>

lemma length_put_minus [simp]: "length (put_minus ds) = length ds"
  by (induction ds rule: put_minus.induct) auto

lemma length_show_digits [simp]: "length (show_digits v) = 4"
  by (simp add: show_digits_def digits4_def Let_def)

lemma length_show_segs [simp]: "length (show_segs v z) = 4"
  by (simp add: show_segs_def)

lemma length_showWithDP_segs [simp]: "length (showWithDP_segs v z) = 4"
  by (simp add: showWithDP_segs_def Let_def)

lemma clamp_display_bounds: "0 \<le> clamp_display v" "clamp_display v \<le> 9999"
  by (auto simp: clamp_display_def Let_def)

lemma digits4_value:
  assumes "0 \<le> v" and "v \<le> 9999"
  shows "1000 * digits4 v ! 0 + 100 * digits4 v ! 1 + 10 * digits4 v ! 2 + digits4 v ! 3 = v"
proof -
  define a where "a = v div 10"
  define b where "b = a div 10"
  define c where "c = b div 10"
  have bc: "v div 100 = b" "v div 1000 = c"
    by (simp_all add: a_def b_def c_def zdiv_zmult2_eq [symmetric])
  have "0 \<le> v div 1000" "v div 1000 < 10"
    using assms by (simp_all add: pos_imp_zdiv_nonneg_iff div_less_iff_less_mult)
  then have c10: "c mod 10 = c"
    by (simp add: bc mod_pos_pos_trivial)
  have sum: "1000 * c + 100 * r2 + 10 * r1 + r0 = v"
    if "v = 10 * a + r0" "a = 10 * b + r1" "b = 10 * c + r2" for r0 r1 r2
    using that by linarith
  have "1000 * c + 100 * (b mod 10) + 10 * (a mod 10) + v mod 10 = v"
    by (rule sum) (simp_all add: a_def b_def c_def)
  then show ?thesis
    by (simp add: digits4_def bc a_def [symmetric] c10)
qed

lemma digits4_range: "d \<in> set (digits4 v) \<Longrightarrow> 0 \<le> d \<and> d < 10"
  by (auto simp: digits4_def)

lemma encodeDigit_inj_on_hex: "inj_on encodeDigit {0..<16}"
proof (rule inj_onI)
  fix a b :: int
  assume ab: "a \<in> {0..<16}" "b \<in> {0..<16}" and eq: "encodeDigit a = encodeDigit b"
  have d: "distinct FONT" by (simp add: FONT_def)
  have "FONT ! nat a = FONT ! nat b" using ab eq by (simp add: encodeDigit_def)
  moreover have "nat a < length FONT" "nat b < length FONT"
    using ab by (auto simp: FONT_def)
  ultimately have "nat a = nat b" using d nth_eq_iff_index_eq by blast
  then show "a = b" using ab by auto
qed

lemma sampled_write_bits:
  "sampled clk dio (write_bits n b @ ws)
     = map (bit b) [0..<n] @ sampled (if n = 0 then clk else True)
         (if n = 0 then dio else bit b (n - 1)) ws"
proof (induction n arbitrary: b clk dio)
  case 0
  show ?case by simp
next
  case (Suc n)
  have lsb: "(b AND 1 \<noteq> 0) = bit b 0"
    by (simp add: and_one_eq odd_iff_mod_2_eq_one [symmetric] bit_0)
  have "map (bit b) [0..<Suc n] = bit b 0 # map (bit (drop_bit 1 b)) [0..<n]"
    by (subst upt_conv_Cons) (simp_all add: map_Suc_upt [symmetric] bit_drop_bit_eq o_def del: upt_Suc)
  then show ?case
    using Suc.IH [of True "bit b 0" "drop_bit 1 b"]
    by (cases n) (simp_all add: lsb bit_drop_bit_eq del: upt_Suc)
qed

end
