(* ===== verification/Error_Core.thy ===== *)
theory Error_Core
  imports Seven_Seg
begin

text \<open>
  Central error handling (error/ErrorCodes.h, Error.h, ErrorCore.cpp) together with the LED it
  blinks (hardware/output/Led.cpp, GpioOutput.cpp) and the log filter (core/Logger.cpp). Every
  \<open>lattice::err::fail\<close> of the firmware ends here; a \<open>MEMORY\<close> or \<open>HARDWARE\<close> error restarts
  the device, so that what follows the call is never reached.
\<close>

section \<open>Log filter (core/Logger.cpp)\<close>

datatype LogLevel = LOG_DEBUG | LOG_INFO | LOG_WARN | LOG_ERROR | LOG_NONE

fun level_num :: "LogLevel \<Rightarrow> nat" where
  "level_num LOG_DEBUG = 0"
| "level_num LOG_INFO = 1"
| "level_num LOG_WARN = 2"
| "level_num LOG_ERROR = 3"
| "level_num LOG_NONE = 4"

definition DEFAULT_LOG_LEVEL :: LogLevel where
  "DEFAULT_LOG_LEVEL = LOG_NONE"

text \<open>The bytes \<open>Logger::logln\<close> writes: none if \<open>currentLevel > level\<close>.\<close>

definition logln :: "LogLevel \<Rightarrow> byte list \<Rightarrow> byte list \<Rightarrow> LogLevel
    \<Rightarrow> 'a platform_scheme \<Rightarrow> 'a platform_scheme" where
  "logln currentLevel tag message level s =
     (if level_num currentLevel > level_num level then s
      else emit (SerialWrite ([0x5B] @ tag @ [0x5D, 0x20] @ message @ [0x0D, 0x0A])) s)"

section \<open>Error codes (error/ErrorCodes.h, Error.h)\<close>

datatype ErrorTypeDigit = GENERIC | SENSOR | COMM | MEMORY | HARDWARE | CONFIG
datatype ModuleDigit = M_CORE | M_ADAPTER | M_MESH | M_EEPROM | M_HW

datatype ErrorType = E_GENERIC | E_SENSOR_FAIL | E_COMMUNICATION_FAIL | E_MEMORY_ERROR
  | E_CONFIG_ERROR | E_HARDWARE_FAILURE | E_USER_ERROR | E_TIMEOUT_ERROR

fun type_digit :: "ErrorTypeDigit \<Rightarrow> u16" where
  "type_digit GENERIC = 1"
| "type_digit SENSOR = 2"
| "type_digit COMM = 3"
| "type_digit MEMORY = 4"
| "type_digit HARDWARE = 5"
| "type_digit CONFIG = 6"

fun module_digit :: "ModuleDigit \<Rightarrow> u16" where
  "module_digit M_CORE = 1"
| "module_digit M_ADAPTER = 2"
| "module_digit M_MESH = 3"
| "module_digit M_EEPROM = 4"
| "module_digit M_HW = 5"

definition makeErrorCode :: "ErrorTypeDigit \<Rightarrow> ModuleDigit \<Rightarrow> byte \<Rightarrow> u16" where
  "makeErrorCode t m sub = type_digit t * 100 + module_digit m * 10 + ucast (sub mod 10)"

fun toDigit :: "ErrorType \<Rightarrow> ErrorTypeDigit" where
  "toDigit E_GENERIC = GENERIC"
| "toDigit E_SENSOR_FAIL = SENSOR"
| "toDigit E_COMMUNICATION_FAIL = COMM"
| "toDigit E_MEMORY_ERROR = MEMORY"
| "toDigit E_CONFIG_ERROR = CONFIG"
| "toDigit E_HARDWARE_FAILURE = HARDWARE"
| "toDigit _ = GENERIC"

section \<open>LED (hardware/output/GpioOutput.cpp, Led.cpp)\<close>

definition isValidOutputPin :: "nat \<Rightarrow> bool" where
  "isValidOutputPin pin \<longleftrightarrow>
     pin \<in> set [2, 4, 5, 12, 13, 14, 15, 16, 17, 18, 19, 21, 22, 23, 25, 26, 27, 32, 33]"

record led =
  led_pin :: nat
  led_initialized :: bool
  led_isOn :: bool

definition Led :: "nat \<Rightarrow> led" where
  "Led pin = \<lparr>led_pin = pin, led_initialized = False, led_isOn = False\<rparr>"

definition setState :: "bool \<Rightarrow> led \<times> 'a platform_scheme \<Rightarrow> led \<times> 'a platform_scheme" where
  "setState state = (\<lambda>(l, s).
     if led_isOn l = state then (l, s)
     else (l\<lparr>led_isOn := state\<rparr>, emit (PinWrite (led_pin l) state) s))"

text \<open>
  One round of \<open>Led::blink\<close> and its loop with \<open>n\<close> rounds left; the pause follows all but the
  last round.
\<close>

definition blink_once :: "u32 \<Rightarrow> led \<times> 'a platform_scheme \<Rightarrow> led \<times> 'a platform_scheme" where
  "blink_once on ls = (let (l, s) = setState True ls in setState False (l, delay_ms on s))"

fun blink_loop :: "nat \<Rightarrow> u32 \<Rightarrow> u32 \<Rightarrow> led \<times> 'a platform_scheme \<Rightarrow> led \<times> 'a platform_scheme" where
  "blink_loop 0 on off ls = ls"
| "blink_loop (Suc n) on off ls =
     (let (l, s) = blink_once on ls
      in blink_loop n on off (l, if n > 0 then delay_ms off s else s))"

section \<open>ErrorCore\<close>

record node = platform +
  redLed :: led
  greenLed :: led
  errorLedSet :: bool
  displaySet :: bool
  ecInitialized :: bool
  pendingBlink :: bool
  pendingBlinkType :: ErrorType
  inCallbackContext :: bool

fun blink_count :: "ErrorType \<Rightarrow> nat" where
  "blink_count E_GENERIC = 1"
| "blink_count E_SENSOR_FAIL = 2"
| "blink_count E_COMMUNICATION_FAIL = 3"
| "blink_count E_MEMORY_ERROR = 4"
| "blink_count E_CONFIG_ERROR = 5"
| "blink_count E_HARDWARE_FAILURE = 6"
| "blink_count E_USER_ERROR = 7"
| "blink_count E_TIMEOUT_ERROR = 8"

definition blink_red :: "nat \<Rightarrow> u32 \<Rightarrow> u32 \<Rightarrow> 'a node_scheme \<Rightarrow> 'a node_scheme" where
  "blink_red n on off s = (let (l, s') = blink_loop n on off (redLed s, s) in s'\<lparr>redLed := l\<rparr>)"

definition blinkPattern :: "ErrorType \<Rightarrow> 'a node_scheme \<Rightarrow> 'a node_scheme" where
  "blinkPattern t s =
     (if errorLedSet s \<and> led_initialized (redLed s) then blink_red (blink_count t) 200 200 s else s)"

definition shouldRestart :: "ErrorType \<Rightarrow> bool" where
  "shouldRestart t \<longleftrightarrow> t = E_MEMORY_ERROR \<or> t = E_HARDWARE_FAILURE"

definition signalErrorType :: "ErrorType \<Rightarrow> 'a node_scheme \<Rightarrow> 'a node_scheme" where
  "signalErrorType t s =
     (let s1 = (if ecInitialized s \<and> errorLedSet s
                then (if inCallbackContext s then s\<lparr>pendingBlink := True, pendingBlinkType := t\<rparr>
                      else blinkPattern t s)
                else s)
      in if shouldRestart t then restart s1 else s1)"

text \<open>
  The digit overload: \<open>SENSOR\<close> falls through to the generic type, as the \<open>else if\<close> chain has
  no case for it.
\<close>

fun legacy_type :: "ErrorTypeDigit \<Rightarrow> ErrorType" where
  "legacy_type HARDWARE = E_HARDWARE_FAILURE"
| "legacy_type COMM = E_COMMUNICATION_FAIL"
| "legacy_type MEMORY = E_MEMORY_ERROR"
| "legacy_type CONFIG = E_CONFIG_ERROR"
| "legacy_type _ = E_GENERIC"

text \<open>
  \<open>_display->show(code)\<close> is the four segment bytes it puts on the bus; what the bus does when
  the display does not acknowledge is \<open>signal_on_bus\<close> below.
\<close>

definition signalError ::
  "ErrorTypeDigit \<Rightarrow> ModuleDigit \<Rightarrow> byte \<Rightarrow> 'a node_scheme \<Rightarrow> 'a node_scheme" where
  "signalError t m sub s =
     (let code = makeErrorCode t m sub;
          s1 = (if displaySet s then emit (Segments (show_segs (uint code) True)) s else s)
      in signalErrorType (legacy_type t) s1)"

text \<open>\<open>lattice::err::fail\<close>; the trace keeps the code, whether or not a display shows it.\<close>

definition fail ::
  "ErrorTypeDigit \<Rightarrow> ModuleDigit \<Rightarrow> byte \<Rightarrow> 'a node_scheme \<Rightarrow> 'a node_scheme" where
  "fail t m sub s = signalError t m sub (emit (FailCode (makeErrorCode t m sub)) s)"

definition fail_type :: "ErrorType \<Rightarrow> 'a node_scheme \<Rightarrow> 'a node_scheme" where
  "fail_type t = fail (toDigit t) M_CORE 0"

definition fatal ::
  "ErrorTypeDigit \<Rightarrow> ModuleDigit \<Rightarrow> byte \<Rightarrow> 'a node_scheme \<Rightarrow> 'a node_scheme" where
  "fatal t m sub s = andthen (signalError t m sub) hang s"

definition check_esp :: "bool \<Rightarrow> ErrorType \<Rightarrow> 'a node_scheme \<Rightarrow> 'a node_scheme" where
  "check_esp ok t s = (if ok then s else fail_type t s)"

definition drainPendingBlink :: "'a node_scheme \<Rightarrow> 'a node_scheme" where
  "drainPendingBlink s =
     (if pendingBlink s then blinkPattern (pendingBlinkType s) (s\<lparr>pendingBlink := False\<rparr>) else s)"

definition errorcore_init :: "bool \<Rightarrow> bool \<Rightarrow> 'a node_scheme \<Rightarrow> 'a node_scheme" where
  "errorcore_init display unexpectedReset s =
     (let s1 = s\<lparr>errorLedSet := True, displaySet := display, ecInitialized := True\<rparr>
      in if unexpectedReset then signalError HARDWARE M_CORE 1 s1 else s1)"

section \<open>LED operations that report errors\<close>

text \<open>
  The public operations of one LED: \<open>get\<close>/\<open>put\<close> say which global it is, \<open>isSys\<close> whether it
  is the system error LED, whose own failures are not reported.
\<close>

definition led_guard :: "bool \<Rightarrow> byte \<Rightarrow> 'a node_scheme \<Rightarrow> 'a node_scheme" where
  "led_guard isSys sub s = (if isSys then s else fail HARDWARE M_HW sub s)"

definition greenLed_blink :: "nat \<Rightarrow> u32 \<Rightarrow> u32 \<Rightarrow> 'a node_scheme \<Rightarrow> 'a node_scheme" where
  "greenLed_blink n on off s =
     (if \<not> led_initialized (greenLed s) then led_guard False 5 s
      else let (l, s') = blink_loop n on off (greenLed s, s) in s'\<lparr>greenLed := l\<rparr>)"

definition redLed_blink :: "nat \<Rightarrow> u32 \<Rightarrow> u32 \<Rightarrow> 'a node_scheme \<Rightarrow> 'a node_scheme" where
  "redLed_blink n on off s =
     (if \<not> led_initialized (redLed s) then led_guard True 5 s else blink_red n on off s)"

section \<open>What the bus does when the display is silent\<close>

text \<open>
  \<open>SevenSegDisplay::writeByte\<close> reports a missing acknowledge with
  \<open>fail(HARDWARE, HW, 2)\<close>, whose \<open>signalError\<close> shows the code on the same display. Nested
  calls use stack: \<open>depth\<close> is the number of nested \<open>signalError\<close> calls the stack holds. The
  \<open>k\<close>-th byte ever written is acknowledged iff \<open>ack k\<close>.
\<close>

datatype bus_result = Shown nat | BusRestart | StackOverflow

fun signal_on_bus :: "nat \<Rightarrow> (nat \<Rightarrow> bool) \<Rightarrow> ErrorType \<Rightarrow> nat \<Rightarrow> bus_result"
  and write_on_bus :: "nat \<Rightarrow> (nat \<Rightarrow> bool) \<Rightarrow> nat \<Rightarrow> nat \<Rightarrow> bus_result" where
  "signal_on_bus 0 ack t k = StackOverflow"
| "signal_on_bus (Suc depth) ack t k =
     (case write_on_bus depth ack 7 k of
        Shown k' \<Rightarrow> (if shouldRestart t then BusRestart else Shown k')
      | r \<Rightarrow> r)"
| "write_on_bus depth ack 0 k = Shown k"
| "write_on_bus depth ack (Suc n) k =
     (if ack k then write_on_bus depth ack n (Suc k)
      else case signal_on_bus depth ack E_HARDWARE_FAILURE (Suc k) of
             Shown k' \<Rightarrow> write_on_bus depth ack n k'
           | r \<Rightarrow> r)"


section \<open>Lemmas\<close>

subsection \<open>Error codes\<close>

fun type_nat :: "ErrorTypeDigit \<Rightarrow> nat" where
  "type_nat GENERIC = 1"
| "type_nat SENSOR = 2"
| "type_nat COMM = 3"
| "type_nat MEMORY = 4"
| "type_nat HARDWARE = 5"
| "type_nat CONFIG = 6"

fun module_nat :: "ModuleDigit \<Rightarrow> nat" where
  "module_nat M_CORE = 1"
| "module_nat M_ADAPTER = 2"
| "module_nat M_MESH = 3"
| "module_nat M_EEPROM = 4"
| "module_nat M_HW = 5"

lemma type_nat_range: "1 \<le> type_nat t \<and> type_nat t \<le> 6"
  by (cases t) simp_all

lemma module_nat_range: "1 \<le> module_nat m \<and> module_nat m \<le> 5"
  by (cases m) simp_all

lemma type_nat_inject [simp]: "type_nat t = type_nat t' \<longleftrightarrow> t = t'"
  by (cases t; cases t') simp_all

lemma module_nat_inject [simp]: "module_nat m = module_nat m' \<longleftrightarrow> m = m'"
  by (cases m; cases m') simp_all

lemma unat_sub_mod: "unat (sub mod 10 :: byte) = unat sub mod 10"
  by (simp add: unat_mod)

lemma unat_type_module:
  "unat (type_digit t * 100 + module_digit m * 10) = 100 * type_nat t + 10 * module_nat m"
  by (cases t; cases m) simp_all

lemma unat_makeErrorCode:
  "unat (makeErrorCode t m sub) = 100 * type_nat t + 10 * module_nat m + unat sub mod 10"
proof -
  have le: "100 * type_nat t + 10 * module_nat m \<le> 650"
    using type_nat_range [of t] module_nat_range [of m] by simp
  have "unat sub mod 10 < 10" by simp
  with le have "100 * type_nat t + 10 * module_nat m + unat sub mod 10 < 2 ^ LENGTH(16)"
    by simp
  then show ?thesis
    unfolding makeErrorCode_def
    by (subst unat_add_lem [THEN iffD1]) (simp_all add: unat_type_module unat_sub_mod)
qed

subsection \<open>Blinking\<close>

lemma setState_simps [simp]:
  "fst (setState b (l, s)) = l\<lparr>led_isOn := b\<rparr>"
  "now (snd (setState b (l, s))) = now s"
  "status (snd (setState b (l, s))) = status s"
  "platform.more (snd (setState b (l, s))) = platform.more s"
  by (auto simp: setState_def)

lemma blink_once_simps:
  assumes "blink_once on (l, s) = (l', s')"
  shows "l' = l\<lparr>led_isOn := False\<rparr>" "now s' = now s + on" "status s' = status s"
    "platform.more s' = platform.more s"
  using assms by (auto simp: blink_once_def setState_def split: prod.splits if_splits)

lemma blink_loop_result_all:
  "blink_loop n on off (l, s) = (l', s') \<Longrightarrow>
     status s' = status s \<and> platform.more s' = platform.more s
     \<and> l' = (if n = 0 then l else l\<lparr>led_isOn := False\<rparr>)
     \<and> now s' = now s + of_nat n * on + of_nat (n - 1) * off"
proof (induction n arbitrary: l s)
  case 0
  then show ?case by simp
next
  case (Suc n)
  obtain l1 s1 where once: "blink_once on (l, s) = (l1, s1)" by (cases "blink_once on (l, s)")
  define s2 where "s2 = (if n > 0 then delay_ms off s1 else s1)"
  have "blink_loop n on off (l1, s2) = (l', s')"
    using Suc.prems by (simp add: once s2_def)
  from Suc.IH [OF this] blink_once_simps [OF once] show ?case
    by (cases n) (simp_all add: s2_def algebra_simps)
qed

lemma blink_loop_result:
  assumes "blink_loop n on off (l, s) = (l', s')"
  shows "status s' = status s" "platform.more s' = platform.more s"
    "l' = (if n = 0 then l else l\<lparr>led_isOn := False\<rparr>)"
    "now s' = now s + of_nat n * on + of_nat (n - 1) * off"
  using blink_loop_result_all [OF assms] by simp_all

subsection \<open>What \<open>fail\<close> leaves alone and when it restarts\<close>

lemma node_more_cong: "platform.more s' = platform.more s \<Longrightarrow> node.more s' = node.more s"
  by (cases s; cases s') simp

lemma blink_red_frame [simp]:
  "status (blink_red n on off s) = status s" "node.more (blink_red n on off s) = node.more s"
proof -
  obtain l s' where b: "blink_loop n on off (redLed s, s) = (l, s')"
    by (cases "blink_loop n on off (redLed s, s)")
  note r = blink_loop_result(1,2) [OF b]
  show "status (blink_red n on off s) = status s"
    "node.more (blink_red n on off s) = node.more s"
    using r node_more_cong [OF r(2)] by (simp_all add: blink_red_def b)
qed

lemma greenLed_blink_status:
  "led_initialized (greenLed s) \<Longrightarrow> status (greenLed_blink n on off s) = status s"
  by (auto simp: greenLed_blink_def dest: blink_loop_result(1) split: prod.splits)

lemma node_more_emit [simp]: "node.more (emit e s) = node.more s"
  by (cases s) (simp add: emit_def)

lemma node_more_halt [simp]:
  "node.more (restart s) = node.more s" "node.more (hang s) = node.more s"
  "node.more (fault s) = node.more s" "node.more (delay_ms d s) = node.more s"
  by (cases s; simp add: restart_def hang_def fault_def delay_ms_def)+

lemma blinkPattern_frame [simp]:
  "status (blinkPattern t s) = status s" "node.more (blinkPattern t s) = node.more s"
  by (simp_all add: blinkPattern_def)

lemma signalErrorType_more [simp]: "node.more (signalErrorType t s) = node.more s"
  by (simp add: signalErrorType_def Let_def)

lemma signalErrorType_status:
  "status (signalErrorType t s) = (if shouldRestart t then Restarted else status s)"
  by (simp add: signalErrorType_def Let_def)

lemma signalError_more [simp]: "node.more (signalError t m sub s) = node.more s"
  by (simp add: signalError_def Let_def)

lemma fail_more [simp]: "node.more (fail t m sub s) = node.more s"
  by (simp add: fail_def)

lemma fail_status:
  "status (fail t m sub s) = (if t = MEMORY \<or> t = HARDWARE then Restarted else status s)"
  by (cases t)
    (simp_all add: fail_def signalError_def signalErrorType_status shouldRestart_def Let_def)

lemma fail_soft_status [simp]:
  "status (fail COMM m sub s) = status s" "status (fail CONFIG m sub s) = status s"
  by (simp_all add: fail_status)

lemma fail_hard_status [simp]:
  "status (fail MEMORY m sub s) = Restarted" "status (fail HARDWARE m sub s) = Restarted"
  by (simp_all add: fail_status)

lemma greenLed_blink_more [simp]: "node.more (greenLed_blink n on off s) = node.more s"
proof (cases "led_initialized (greenLed s)")
  case True
  obtain l s' where b: "blink_loop n on off (greenLed s, s) = (l, s')"
    by (cases "blink_loop n on off (greenLed s, s)")
  from node_more_cong [OF blink_loop_result(2) [OF b]] show ?thesis
    using True by (simp add: greenLed_blink_def b)
qed (simp add: greenLed_blink_def led_guard_def)

subsection \<open>Error reports send nothing over the radio\<close>

text \<open>The frames a run has handed to the radio, in order.\<close>

definition radio_log :: "'a platform_scheme \<Rightarrow> (mac \<times> byte list) list" where
  "radio_log s = concat (map (\<lambda>e. case e of RadioSend a bs \<Rightarrow> [(a, bs)] | _ \<Rightarrow> []) (out s))"

lemma radio_log_emit [simp]:
  "radio_log (emit e s) = radio_log s @ (case e of RadioSend a bs \<Rightarrow> [(a, bs)] | _ \<Rightarrow> [])"
  by (simp add: radio_log_def)

lemma radio_log_cong: "out s' = out s \<Longrightarrow> radio_log s' = radio_log s"
  by (simp add: radio_log_def)

lemma radio_log_halt [simp]:
  "radio_log (delay_ms d s) = radio_log s" "radio_log (restart s) = radio_log s"
  "radio_log (hang s) = radio_log s" "radio_log (fault s) = radio_log s"
  by (simp_all add: radio_log_def)

lemma radio_log_setState [simp]: "radio_log (snd (setState b (l, s))) = radio_log s"
  by (simp add: setState_def)

lemma radio_log_blink_loop:
  "blink_loop n on off (l, s) = (l', s') \<Longrightarrow> radio_log s' = radio_log s"
proof (induction n arbitrary: l s)
  case 0
  then show ?case by simp
next
  case (Suc n)
  obtain l1 s1 where once: "blink_once on (l, s) = (l1, s1)" by (cases "blink_once on (l, s)")
  have "radio_log s1 = radio_log s"
    using once by (auto simp: blink_once_def setState_def split: prod.splits if_splits)
  with Suc.IH [of l1 "if n > 0 then delay_ms off s1 else s1"] Suc.prems show ?case
    by (auto simp: once split: if_splits)
qed

lemma radio_log_signalError [simp]: "radio_log (signalError t m sub s) = radio_log s"
proof -
  have red: "radio_log (r\<lparr>redLed := l\<rparr>) = radio_log r" for l and r :: "'a node_scheme"
    by (rule radio_log_cong) simp
  have blink: "radio_log (blinkPattern k r) = radio_log r" for k and r :: "'a node_scheme"
    by (auto simp: blinkPattern_def blink_red_def red dest: radio_log_blink_loop split: prod.splits)
  have "radio_log (r\<lparr>pendingBlink := p, pendingBlinkType := k\<rparr>) = radio_log r"
    for p k and r :: "'a node_scheme"
    by (rule radio_log_cong) simp
  then have "radio_log (signalErrorType k r) = radio_log r" for k and r :: "'a node_scheme"
    by (simp add: signalErrorType_def Let_def blink)
  then show ?thesis by (simp add: signalError_def Let_def)
qed

lemma radio_log_fail [simp]: "radio_log (fail t m sub s) = radio_log s"
  by (simp add: fail_def)

lemma radio_log_fatal [simp]: "radio_log (fatal t m sub s) = radio_log s"
  by (simp add: fatal_def andthen_def Let_def)

subsection \<open>The bus with a silent and with a live display\<close>

lemma write_on_bus_live: "(\<And>i. ack i) \<Longrightarrow> write_on_bus depth ack n k = Shown (k + n)"
  by (induction n arbitrary: k) simp_all

lemma signal_on_bus_silent: "signal_on_bus depth (\<lambda>_. False) t k = StackOverflow"
proof (induction depth arbitrary: t k)
  case (Suc depth)
  have "write_on_bus depth (\<lambda>_. False) n k = StackOverflow" if "0 < n" for n
    using that by (cases n) (simp_all add: Suc.IH)
  then show ?case by simp
qed simp

end
