(* ===== verification/Eeprom.thy ===== *)
theory Eeprom
  imports Error_Core
begin

text \<open>
  Persistent storage (persistence/EEPROM_Manager.h and .cpp). \<open>ee_cells\<close> is the RAM buffer
  that \<open>EEPROM.read\<close> and \<open>EEPROM.write\<close> work on, \<open>ee_flash\<close> what \<open>EEPROM.commit\<close> last made
  durable: a restart loses the buffer and \<open>EEPROM.begin\<close> fills it from flash again. The
  operations of \<open>EEPROM_Manager\<close> are functions on this record, with \<open>millis()\<close> as an
  argument where they read the clock.
\<close>

section \<open>Address map (EEPROM_Manager.h)\<close>

abbreviation (input) "MASTER_FLAG \<equiv> (0::nat)"
abbreviation (input) "DEV_FLAG \<equiv> (1::nat)"
abbreviation (input) "ADAPTER_TYPE \<equiv> (8::nat)"
abbreviation (input) "MESH_KEY \<equiv> (16::nat)"
abbreviation (input) "PEER_LIST \<equiv> (32::nat)"
abbreviation (input) "REBOOT_REASON \<equiv> (412::nat)"
abbreviation (input) "REBOOT_COUNT \<equiv> (413::nat)"
abbreviation (input) "PRIVATE_KEY \<equiv> (417::nat)"
abbreviation (input) "PUBLIC_KEY \<equiv> (449::nat)"
abbreviation (input) "KEYPAIR_CRC \<equiv> (481::nat)"
abbreviation (input) "ENROLLED_FLAG \<equiv> (483::nat)"
abbreviation (input) "BOOT_EPOCH \<equiv> (484::nat)"
abbreviation (input) "KNOWN_MASTER_MAC \<equiv> (488::nat)"
abbreviation (input) "SCHEMA_VERSION \<equiv> (494::nat)"
abbreviation (input) "TX_POWER_PRESET \<equiv> (495::nat)"
abbreviation (input) "NODE_ID \<equiv> (496::nat)"
abbreviation (input) "KNOWN_MASTER_MAC_SECONDARY \<equiv> (497::nat)"

abbreviation (input) "V1_REBOOT_REASON \<equiv> (92::nat)"
abbreviation (input) "V1_REBOOT_COUNT \<equiv> (93::nat)"
abbreviation (input) "V1_PRIVATE_KEY \<equiv> (97::nat)"
abbreviation (input) "V1_PUBLIC_KEY \<equiv> (129::nat)"
abbreviation (input) "V1_KEYPAIR_CRC \<equiv> (161::nat)"
abbreviation (input) "V1_ENROLLED_FLAG \<equiv> (163::nat)"

abbreviation (input) "TOTAL_SIZE \<equiv> (512::nat)"
abbreviation (input) "MAX_PEERS \<equiv> (10::nat)"
abbreviation (input) "PEER_RECORD_SIZE \<equiv> (38::nat)"
abbreviation (input) "PEER_LIST_SIZE \<equiv> (380::nat)"
abbreviation (input) "CURRENT_SCHEMA_VERSION \<equiv> (3::byte)"
abbreviation (input) "EEPROM_FLUSH_INTERVAL_MS \<equiv> (5000::u32)"

text \<open>The regions of the layout comment: first address and length of every field.\<close>

definition ee_layout :: "(nat \<times> nat) list" where
  "ee_layout = [(MASTER_FLAG, 1), (DEV_FLAG, 1), (ADAPTER_TYPE, 1), (MESH_KEY, 16),
     (PEER_LIST, PEER_LIST_SIZE), (REBOOT_REASON, 1), (REBOOT_COUNT, 1), (PRIVATE_KEY, 32),
     (PUBLIC_KEY, 32), (KEYPAIR_CRC, 2), (ENROLLED_FLAG, 1), (BOOT_EPOCH, 4),
     (KNOWN_MASTER_MAC, 6), (SCHEMA_VERSION, 1), (TX_POWER_PRESET, 1), (NODE_ID, 1),
     (KNOWN_MASTER_MAC_SECONDARY, 6)]"

section \<open>The device\<close>

record eeprom =
  ee_cells :: "byte list"
  ee_flash :: "byte list"
  ee_commitOk :: bool
  ee_init :: bool
  ee_dev :: bool
  ee_dirty :: bool
  ee_lastFlush :: u32

definition ee_read :: "nat \<Rightarrow> eeprom \<Rightarrow> byte" where
  "ee_read a e = (if a < length (ee_cells e) then ee_cells e ! a else 0xFF)"

definition ee_write :: "nat \<Rightarrow> byte \<Rightarrow> eeprom \<Rightarrow> eeprom" where
  "ee_write a v e = (if a < length (ee_cells e) then e\<lparr>ee_cells := (ee_cells e)[a := v]\<rparr> else e)"

definition ee_commit :: "eeprom \<Rightarrow> eeprom" where
  "ee_commit e = (if ee_commitOk e then e\<lparr>ee_flash := ee_cells e\<rparr> else e)"

text \<open>\<open>EEPROM.begin\<close> after a restart: the manager object is new, the buffer comes from flash.\<close>

definition ee_power_cycle :: "eeprom \<Rightarrow> eeprom" where
  "ee_power_cycle e = e\<lparr>ee_cells := ee_flash e, ee_init := False, ee_dev := False,
     ee_dirty := False, ee_lastFlush := 0\<rparr>"

definition ee_wf :: "eeprom \<Rightarrow> bool" where
  "ee_wf e \<longleftrightarrow> length (ee_cells e) = TOTAL_SIZE \<and> length (ee_flash e) = TOTAL_SIZE"

definition ee_writes :: "nat \<Rightarrow> byte list \<Rightarrow> eeprom \<Rightarrow> eeprom" where
  "ee_writes = write_list ee_write"

definition ee_reads :: "nat \<Rightarrow> nat \<Rightarrow> eeprom \<Rightarrow> byte list" where
  "ee_reads = read_list ee_read"

definition ee_fill :: "nat \<Rightarrow> nat \<Rightarrow> eeprom \<Rightarrow> eeprom" where
  "ee_fill a n = ee_writes a (replicate n 0xFF)"

text \<open>A blank part: every cell erased.\<close>

definition ee_blank :: eeprom where
  "ee_blank = \<lparr>ee_cells = replicate TOTAL_SIZE 0xFF, ee_flash = replicate TOTAL_SIZE 0xFF,
     ee_commitOk = True, ee_init = False, ee_dev = False, ee_dirty = False, ee_lastFlush = 0\<rparr>"

section \<open>Manager state\<close>

definition setDevMode :: "bool \<Rightarrow> eeprom \<Rightarrow> eeprom" where
  "setDevMode d e = e\<lparr>ee_dev := d\<rparr>"

definition ensureInitialized :: "eeprom \<Rightarrow> bool" where
  "ensureInitialized e = ee_init e"

definition markDirty :: "eeprom \<Rightarrow> eeprom" where
  "markDirty e = e\<lparr>ee_dirty := True\<rparr>"

definition flushIfDirty :: "u32 \<Rightarrow> eeprom \<Rightarrow> eeprom" where
  "flushIfDirty millis e =
     (if \<not> ee_dirty e then e
      else if millis - ee_lastFlush e < EEPROM_FLUSH_INTERVAL_MS then e
      else (ee_commit e)\<lparr>ee_dirty := False, ee_lastFlush := millis\<rparr>)"

definition forceFlush :: "u32 \<Rightarrow> eeprom \<Rightarrow> eeprom" where
  "forceFlush millis e =
     (if \<not> ee_dirty e then e else (ee_commit e)\<lparr>ee_dirty := False, ee_lastFlush := millis\<rparr>)"

section \<open>Flags, mesh key, adapter type, reboot tracking, node id\<close>

definition loadMasterFlag :: "eeprom \<Rightarrow> bool" where
  "loadMasterFlag e \<longleftrightarrow> ensureInitialized e \<and> ee_read MASTER_FLAG e = 1"

definition saveMasterFlag :: "bool \<Rightarrow> eeprom \<Rightarrow> eeprom" where
  "saveMasterFlag isMaster e =
     (if \<not> ensureInitialized e then e else if ee_dev e then e
      else markDirty (ee_write MASTER_FLAG (if isMaster then 1 else 0) e))"

definition loadDevFlag :: "eeprom \<Rightarrow> bool" where
  "loadDevFlag e \<longleftrightarrow> ensureInitialized e \<and> ee_read DEV_FLAG e = 1"

definition saveDevFlag :: "bool \<Rightarrow> eeprom \<Rightarrow> eeprom" where
  "saveDevFlag isDev e =
     (if \<not> ensureInitialized e then e else if ee_dev e then e
      else markDirty (ee_write DEV_FLAG (if isDev then 1 else 0) e))"

definition loadMeshKey :: "nat \<Rightarrow> eeprom \<Rightarrow> byte list option" where
  "loadMeshKey keySize e =
     (if \<not> ensureInitialized e then None else if keySize \<noteq> 16 then None
      else Some (ee_reads MESH_KEY 16 e))"

definition saveMeshKey :: "byte list \<Rightarrow> nat \<Rightarrow> eeprom \<Rightarrow> eeprom" where
  "saveMeshKey key keySize e =
     (if \<not> ensureInitialized e then e else if keySize \<noteq> 16 then e else if ee_dev e then e
      else markDirty (ee_writes MESH_KEY (take 16 key) e))"

definition loadAdapterType :: "eeprom \<Rightarrow> byte" where
  "loadAdapterType e =
     (if \<not> ensureInitialized e then 0xFF
      else let t = ee_read ADAPTER_TYPE e in if t = 0xFF then 0 else t)"

definition saveAdapterType :: "byte \<Rightarrow> eeprom \<Rightarrow> eeprom" where
  "saveAdapterType t e =
     (if \<not> ensureInitialized e then e else if ee_dev e then e
      else markDirty (ee_write ADAPTER_TYPE t e))"

definition loadRebootCount :: "eeprom \<Rightarrow> byte" where
  "loadRebootCount e = (if \<not> ensureInitialized e then 0 else ee_read REBOOT_COUNT e)"

definition saveRebootCount :: "byte \<Rightarrow> eeprom \<Rightarrow> eeprom" where
  "saveRebootCount c e =
     (if \<not> ensureInitialized e \<or> ee_dev e then e else markDirty (ee_write REBOOT_COUNT c e))"

definition saveRebootReason :: "byte \<Rightarrow> eeprom \<Rightarrow> eeprom" where
  "saveRebootReason r e =
     (if \<not> ensureInitialized e \<or> ee_dev e then e else markDirty (ee_write REBOOT_REASON r e))"

definition loadRebootReason :: "eeprom \<Rightarrow> byte" where
  "loadRebootReason e = (if \<not> ensureInitialized e then 0xFF else ee_read REBOOT_REASON e)"

definition saveNodeId :: "byte \<Rightarrow> eeprom \<Rightarrow> eeprom" where
  "saveNodeId n e = (if \<not> ensureInitialized e then e else markDirty (ee_write NODE_ID n e))"

definition loadNodeId :: "eeprom \<Rightarrow> byte" where
  "loadNodeId e =
     (if \<not> ensureInitialized e then 0
      else let raw = ee_read NODE_ID e in if raw = 0xFF then 0 else raw)"

section \<open>Peer list\<close>

definition loadPeerList :: "nat \<Rightarrow> eeprom \<Rightarrow> byte list option" where
  "loadPeerList maxPeers e =
     (if \<not> ensureInitialized e then None else if maxPeers > MAX_PEERS then None
      else Some (ee_reads PEER_LIST (maxPeers * PEER_RECORD_SIZE) e))"

text \<open>
  \<open>savePeerList\<close> reads \<open>numPeers * 38\<close> bytes of its argument; \<open>None\<close> is the read past the
  end of a shorter array.
\<close>

definition savePeerList :: "byte list \<Rightarrow> nat \<Rightarrow> eeprom \<Rightarrow> eeprom option" where
  "savePeerList peerRecords numPeers e =
     (if \<not> ensureInitialized e then Some e else if numPeers > MAX_PEERS then Some e
      else if ee_dev e then Some e
      else if length peerRecords < numPeers * PEER_RECORD_SIZE then None
      else Some (markDirty (ee_writes PEER_LIST (take (numPeers * PEER_RECORD_SIZE) peerRecords)
                   (ee_fill PEER_LIST PEER_LIST_SIZE e))))"

definition hasPeers :: "eeprom \<Rightarrow> bool" where
  "hasPeers e \<longleftrightarrow> ensureInitialized e \<and> list_ex (\<lambda>b. b \<noteq> 0xFF) (ee_reads PEER_LIST PEER_LIST_SIZE e)"

definition clearPeerList :: "eeprom \<Rightarrow> eeprom" where
  "clearPeerList e =
     (if \<not> ensureInitialized e then e else markDirty (ee_fill PEER_LIST PEER_LIST_SIZE e))"

section \<open>Keypair with CRC16\<close>

definition crc_shift :: "u16 \<Rightarrow> u16" where
  "crc_shift crc = (if crc AND 0x8000 \<noteq> 0 then push_bit 1 crc XOR 0x1021 else push_bit 1 crc)"

definition crc_byte :: "u16 \<Rightarrow> byte \<Rightarrow> u16" where
  "crc_byte crc b = (crc_shift ^^ 8) (crc XOR push_bit 8 (ucast b))"

definition crc16 :: "byte list \<Rightarrow> u16" where
  "crc16 data = foldl crc_byte 0xFFFF data"

text \<open>The result is the returned flag and the two buffers, which are filled in any case.\<close>

definition loadKeypair :: "eeprom \<Rightarrow> (bool \<times> byte list \<times> byte list) option" where
  "loadKeypair e =
     (if \<not> ensureInitialized e then None
      else let priv = ee_reads PRIVATE_KEY 32 e;
               pub = ee_reads PUBLIC_KEY 32 e;
               stored = ucast (ee_read KEYPAIR_CRC e) OR push_bit 8 (ucast (ee_read (KEYPAIR_CRC + 1) e))
           in Some (stored = crc16 (priv @ pub), priv, pub))"

definition write_keys :: "byte list \<Rightarrow> byte list \<Rightarrow> eeprom \<Rightarrow> eeprom" where
  "write_keys priv pub =
     fold (\<lambda>i e. ee_write (PUBLIC_KEY + i) (pub ! i) (ee_write (PRIVATE_KEY + i) (priv ! i) e)) [0..<32]"

definition saveKeypair :: "byte list \<Rightarrow> byte list \<Rightarrow> eeprom \<Rightarrow> eeprom" where
  "saveKeypair priv pub e =
     (if \<not> ensureInitialized e \<or> ee_dev e then e
      else let crc = crc16 (priv @ pub);
               e1 = write_keys priv pub e;
               e2 = ee_write KEYPAIR_CRC (ucast (crc AND 0xFF)) e1;
               e3 = ee_write (KEYPAIR_CRC + 1) (ucast (drop_bit 8 crc AND 0xFF)) e2
           in ee_commit e3)"

section \<open>Enrolled flag, boot epoch, master MACs, TX power\<close>

definition loadEnrolledFlag :: "eeprom \<Rightarrow> bool" where
  "loadEnrolledFlag e \<longleftrightarrow> ensureInitialized e \<and> ee_read ENROLLED_FLAG e = 0x01"

definition saveEnrolledFlag :: "bool \<Rightarrow> eeprom \<Rightarrow> eeprom" where
  "saveEnrolledFlag enrolled e =
     (if \<not> ensureInitialized e \<or> ee_dev e then e
      else ee_commit (ee_write ENROLLED_FLAG (if enrolled then 0x01 else 0xFF) e))"

definition loadBootEpoch :: "eeprom \<Rightarrow> u32" where
  "loadBootEpoch e =
     (if \<not> ensureInitialized e then 0
      else let epoch = le_word (ee_reads BOOT_EPOCH 4 e) in if epoch = 0xFFFFFFFF then 0 else epoch)"

definition saveBootEpoch :: "u32 \<Rightarrow> eeprom \<Rightarrow> eeprom" where
  "saveBootEpoch epoch e =
     (if \<not> ensureInitialized e \<or> ee_dev e then e
      else ee_commit (ee_writes BOOT_EPOCH (le_bytes 4 epoch) e))"

definition load_mac_at :: "nat \<Rightarrow> eeprom \<Rightarrow> (bool \<times> mac) option" where
  "load_mac_at a e =
     (if \<not> ensureInitialized e then None
      else let m = mac_of_bytes (ee_reads a 6 e) in Some (m \<noteq> broadcast_mac, m))"

definition save_mac_at :: "nat \<Rightarrow> mac \<Rightarrow> eeprom \<Rightarrow> eeprom" where
  "save_mac_at a m e =
     (if \<not> ensureInitialized e \<or> ee_dev e then e else ee_commit (ee_writes a (mac_bytes m) e))"

definition loadKnownMasterMac :: "eeprom \<Rightarrow> (bool \<times> mac) option" where
  "loadKnownMasterMac = load_mac_at KNOWN_MASTER_MAC"

definition saveKnownMasterMac :: "mac \<Rightarrow> eeprom \<Rightarrow> eeprom" where
  "saveKnownMasterMac = save_mac_at KNOWN_MASTER_MAC"

definition clearKnownMasterMac :: "eeprom \<Rightarrow> eeprom" where
  "clearKnownMasterMac = save_mac_at KNOWN_MASTER_MAC broadcast_mac"

definition loadKnownMasterMacSecondary :: "eeprom \<Rightarrow> (bool \<times> mac) option" where
  "loadKnownMasterMacSecondary = load_mac_at KNOWN_MASTER_MAC_SECONDARY"

definition saveKnownMasterMacSecondary :: "mac \<Rightarrow> eeprom \<Rightarrow> eeprom" where
  "saveKnownMasterMacSecondary = save_mac_at KNOWN_MASTER_MAC_SECONDARY"

definition clearKnownMasterMacSecondary :: "eeprom \<Rightarrow> eeprom" where
  "clearKnownMasterMacSecondary = save_mac_at KNOWN_MASTER_MAC_SECONDARY broadcast_mac"

datatype TxPowerPreset = SHORT_RANGE | INDOOR | OUTDOOR

fun preset_byte :: "TxPowerPreset \<Rightarrow> byte" where
  "preset_byte SHORT_RANGE = 0"
| "preset_byte INDOOR = 1"
| "preset_byte OUTDOOR = 2"

definition preset_of_byte :: "byte \<Rightarrow> TxPowerPreset" where
  "preset_of_byte b = (if b = 0 then SHORT_RANGE else if b = 1 then INDOOR else OUTDOOR)"

definition TX_POWER_VALUES :: "byte list" where
  "TX_POWER_VALUES = [8, 56, 80]"

definition loadTxPowerPreset :: "eeprom \<Rightarrow> TxPowerPreset" where
  "loadTxPowerPreset e =
     (if \<not> ensureInitialized e then OUTDOOR
      else let v = ee_read TX_POWER_PRESET e
           in if v > 2 \<or> v = 0xFF then OUTDOOR else preset_of_byte v)"

definition saveTxPowerPreset :: "TxPowerPreset \<Rightarrow> eeprom \<Rightarrow> eeprom" where
  "saveTxPowerPreset p e =
     (if \<not> ensureInitialized e \<or> ee_dev e then e
      else ee_commit (ee_write TX_POWER_PRESET (preset_byte p) e))"

section \<open>Clearing and diagnostics\<close>

definition clearAll :: "eeprom \<Rightarrow> eeprom" where
  "clearAll e = (if \<not> ensureInitialized e then e else ee_commit (ee_fill 0 TOTAL_SIZE e))"

definition isAddressValid :: "u16 \<Rightarrow> bool" where
  "isAddressValid a \<longleftrightarrow> a < 512"

definition clearRange :: "u16 \<Rightarrow> u16 \<Rightarrow> eeprom \<Rightarrow> eeprom" where
  "clearRange startAddr endAddr e =
     (if \<not> ensureInitialized e then e
      else if \<not> isAddressValid startAddr \<or> \<not> isAddressValid endAddr \<or> startAddr > endAddr then e
      else ee_commit (ee_fill (unat startAddr) (unat endAddr - unat startAddr + 1) e))"

text \<open>What \<open>dumpEEPROM\<close> prints for each address: the byte, or \<open>XX\<close> (\<open>None\<close>).\<close>

definition dumpEEPROM :: "eeprom \<Rightarrow> byte option list" where
  "dumpEEPROM e =
     (if \<not> ensureInitialized e then []
      else map (\<lambda>a. if PRIVATE_KEY \<le> a \<and> a \<le> KEYPAIR_CRC + 1 then None else Some (ee_read a e))
             [0..<TOTAL_SIZE])"

text \<open>
  \<open>printAddress\<close>: the addresses it reads. \<open>address + length - 1\<close> is truncated to
  \<open>uint16_t\<close> by the parameter type of \<open>isAddressValid\<close>.
\<close>

definition printAddress :: "u16 \<Rightarrow> u16 \<Rightarrow> eeprom \<Rightarrow> u16 list" where
  "printAddress address len e =
     (if \<not> ensureInitialized e then []
      else if \<not> isAddressValid address \<or> \<not> isAddressValid (address + len - 1) then []
      else map (\<lambda>i. address + of_nat i) [0..<unat len])"

section \<open>Initialisation and schema migration\<close>

definition migrate_keys :: "eeprom \<Rightarrow> eeprom" where
  "migrate_keys =
     fold (\<lambda>i e. let e' = ee_write (PRIVATE_KEY + i) (ee_read (V1_PRIVATE_KEY + i) e) e
                  in ee_write (PUBLIC_KEY + i) (ee_read (V1_PUBLIC_KEY + i) e') e') [0..<32]"

definition migrate_v1 :: "eeprom \<Rightarrow> eeprom" where
  "migrate_v1 e0 =
     (let oldReason = ee_read V1_REBOOT_REASON e0;
          oldCount = ee_read V1_REBOOT_COUNT e0;
          e1 = ee_write REBOOT_REASON (if oldReason = 0 then 0xFF else oldReason) e0;
          e2 = ee_write REBOOT_COUNT (if oldCount > 10 then 0 else oldCount) e1;
          e3 = migrate_keys e2;
          e4 = ee_write KEYPAIR_CRC (ee_read V1_KEYPAIR_CRC e3) e3;
          e5 = ee_write (KEYPAIR_CRC + 1) (ee_read (V1_KEYPAIR_CRC + 1) e4) e4;
          e6 = ee_write ENROLLED_FLAG (ee_read V1_ENROLLED_FLAG e5) e5;
          e7 = ee_fill 92 72 e6
      in ee_fill PEER_LIST PEER_LIST_SIZE e7)"

definition migrate_v2 :: "eeprom \<Rightarrow> eeprom" where
  "migrate_v2 e = ee_fill KNOWN_MASTER_MAC_SECONDARY 6 e"

definition init_schema :: "eeprom \<Rightarrow> eeprom" where
  "init_schema e =
     (let storedVersion = ee_read SCHEMA_VERSION e
      in if storedVersion = 0xFF then ee_commit (ee_write SCHEMA_VERSION CURRENT_SCHEMA_VERSION e)
         else if storedVersion < CURRENT_SCHEMA_VERSION then
           (let e1 = (if storedVersion = 0 then migrate_v1 e else e);
                e2 = (if storedVersion \<le> 2 then migrate_v2 e1 else e1)
            in ee_commit (ee_write SCHEMA_VERSION CURRENT_SCHEMA_VERSION e2))
         else if storedVersion > CURRENT_SCHEMA_VERSION then
           ee_commit (ee_write SCHEMA_VERSION CURRENT_SCHEMA_VERSION (clearAll e))
         else e)"

definition init_wdt_bytes :: "eeprom \<Rightarrow> eeprom" where
  "init_wdt_bytes e =
     (let e1 = (if ee_read REBOOT_REASON e = 0 then ee_write REBOOT_REASON 0xFF e else e);
          e2 = (if ee_read REBOOT_COUNT e1 > 10 then ee_write REBOOT_COUNT 0 e1 else e1)
      in ee_commit e2)"

text \<open>\<open>init\<close> once \<open>EEPROM.begin\<close> has succeeded.\<close>

definition eeprom_init :: "eeprom \<Rightarrow> eeprom" where
  "eeprom_init e = (if ee_init e then e else init_wdt_bytes (init_schema (e\<lparr>ee_init := True\<rparr>)))"

end
