(* ===== verification/Mesh_State.thy ===== *)
theory Mesh_State
  imports Mesh_Message Eeprom
begin

text \<open>
  The state of the \<open>Mesh\<close> object (Mesh/Mesh.h) and its operations that touch nothing else: the
  peer table, the replay cache, the receive ring, message construction and the reachability tests.
  Fixed arrays keep their length; counts and indices are \<open>nat\<close>.
\<close>

section \<open>State\<close>

record PeerInfo =
  peerMac :: mac
  publicKey :: "byte list"
  lastSeenMillis :: u32

record MasterInfo =
  masterMac :: mac
  distance :: byte
  nextHop :: mac

record ReplayEntry =
  rmac :: mac
  repoch :: u32
  rseq :: u16

record RecvQueueEntry =
  srcMac :: mac
  qmsg :: mesh_message

abbreviation (input) "REPLAY_CACHE_SIZE \<equiv> (16::nat)"
abbreviation (input) "RECV_QUEUE_SIZE \<equiv> (8::nat)"
abbreviation (input) "MESH_KEY_SIZE \<equiv> (16::nat)"

record mesh_state =
  meshKey :: "byte list"
  deviceMac :: mac
  lastSeenMasterMac :: mac
  peerMacs :: "PeerInfo list"
  peerCount :: nat
  currentMaster :: MasterInfo
  isMaster :: bool
  lastBeaconMillis :: u32
  lastMasterBeaconReceivedMs :: u32
  devicePrivateKey :: "byte list"
  devicePublicKey :: "byte list"
  bootEpoch :: u32
  txSeqNum :: u16
  replayCache :: "ReplayEntry list"
  replayCacheIdx :: nat
  lastRelayedEpoch :: u32
  lastRelayedSeqNum :: u16
  relayPendingMsg :: mesh_message
  relayPendingAt :: u32
  relayPending :: bool
  knownMasterMac :: mac
  hasMasterMac :: bool
  knownMasterMacSecondary :: mac
  hasMasterMacSecondary :: bool
  dualMasterMode :: bool
  pendingEnrollmentRelay :: bool
  pendingEnrollmentMac :: mac
  pendingEnrollmentPubKey :: "byte list"
  recvQueue :: "RecvQueueEntry list"
  recvQueueHead :: nat
  recvQueueTail :: nat

definition zero_peer :: PeerInfo where
  "zero_peer = \<lparr>peerMac = zero_mac, publicKey = replicate 32 0, lastSeenMillis = 0\<rparr>"

definition zero_replay :: ReplayEntry where
  "zero_replay = \<lparr>rmac = zero_mac, repoch = 0, rseq = 0\<rparr>"

definition zero_entry :: RecvQueueEntry where
  "zero_entry = \<lparr>srcMac = zero_mac, qmsg = zero_message\<rparr>"

definition no_master :: MasterInfo where
  "no_master = \<lparr>masterMac = zero_mac, distance = 0xFF, nextHop = zero_mac\<rparr>"

definition Mesh :: mesh_state where
  "Mesh = \<lparr>meshKey = replicate 16 0, deviceMac = zero_mac, lastSeenMasterMac = zero_mac,
     peerMacs = replicate MAX_PEERS zero_peer, peerCount = 0, currentMaster = no_master,
     isMaster = False, lastBeaconMillis = 0, lastMasterBeaconReceivedMs = 0,
     devicePrivateKey = replicate 32 0, devicePublicKey = replicate 32 0, bootEpoch = 0,
     txSeqNum = 0, replayCache = replicate REPLAY_CACHE_SIZE zero_replay, replayCacheIdx = 0,
     lastRelayedEpoch = 0, lastRelayedSeqNum = 0, relayPendingMsg = zero_message,
     relayPendingAt = 0, relayPending = False, knownMasterMac = broadcast_mac,
     hasMasterMac = False, knownMasterMacSecondary = broadcast_mac, hasMasterMacSecondary = False,
     dualMasterMode = False, pendingEnrollmentRelay = False, pendingEnrollmentMac = zero_mac,
     pendingEnrollmentPubKey = replicate 32 0, recvQueue = replicate RECV_QUEUE_SIZE zero_entry,
     recvQueueHead = 0, recvQueueTail = 0\<rparr>"

section \<open>Peer table\<close>

text \<open>The valid entries: \<open>peerMacs[0 .. peerCount-1]\<close>.\<close>

definition peers :: "mesh_state \<Rightarrow> PeerInfo list" where
  "peers m = take (peerCount m) (peerMacs m)"

definition appendPeer :: "PeerInfo \<Rightarrow> mesh_state \<Rightarrow> bool \<times> mesh_state" where
  "appendPeer p m =
     (if peerCount m \<ge> MAX_PEERS then (False, m)
      else (True, m\<lparr>peerMacs := (peerMacs m)[peerCount m := p], peerCount := peerCount m + 1\<rparr>))"

text \<open>\<open>findPeer\<close> returns a pointer into the table: here the index of the first match.\<close>

fun find_index_from :: "nat \<Rightarrow> ('a \<Rightarrow> bool) \<Rightarrow> 'a list \<Rightarrow> nat option" where
  "find_index_from i P [] = None"
| "find_index_from i P (x # xs) = (if P x then Some i else find_index_from (Suc i) P xs)"

definition findPeer :: "mac \<Rightarrow> mesh_state \<Rightarrow> nat option" where
  "findPeer mac m = find_index_from 0 (\<lambda>p. peerMac p = mac) (peers m)"

definition isPeerInRange :: "u32 \<Rightarrow> mac \<Rightarrow> mesh_state \<Rightarrow> bool" where
  "isPeerInRange millis mac m =
     (case findPeer mac m of
        None \<Rightarrow> False
      | Some i \<Rightarrow> millis - lastSeenMillis (peerMacs m ! i) < STALE_PEER_THRESHOLD_MS)"

definition findNextHopToMaster :: "u32 \<Rightarrow> mesh_state \<Rightarrow> PeerInfo option" where
  "findNextHopToMaster millis m =
     (if distance (currentMaster m) = 0xFF then None
      else find (\<lambda>p. peerMac p = nextHop (currentMaster m) \<and> isPeerInRange millis (peerMac p) m
                     \<and> peerMac p \<noteq> deviceMac m) (peers m))"

text \<open>\<open>peerMacs[i] = peerMacs[--peerCount]\<close> at the first match.\<close>

definition dropPeer :: "mac \<Rightarrow> mesh_state \<Rightarrow> mesh_state" where
  "dropPeer mac m =
     (case findPeer mac m of
        None \<Rightarrow> m
      | Some i \<Rightarrow> m\<lparr>peerMacs := (peerMacs m)[i := peerMacs m ! (peerCount m - 1)],
                     peerCount := peerCount m - 1\<rparr>)"

definition updatePeerLastSeen :: "u32 \<Rightarrow> mac \<Rightarrow> mesh_state \<Rightarrow> mesh_state" where
  "updatePeerLastSeen millis mac m =
     (if mac = deviceMac m then m
      else case findPeer mac m of
             None \<Rightarrow> m
           | Some i \<Rightarrow> m\<lparr>peerMacs := (peerMacs m)[i := (peerMacs m ! i)\<lparr>lastSeenMillis := millis\<rparr>]\<rparr>)"

section \<open>Message construction\<close>

text \<open>
  \<open>memcpy(msg.data, data, 64)\<close> reads 64 bytes of its argument whatever its size: a shorter
  array is \<open>None\<close>.
\<close>

definition buildMessage :: "u32 \<Rightarrow> byte list option \<Rightarrow> byte \<Rightarrow> mesh_state
    \<Rightarrow> (mesh_message \<times> mesh_state) option" where
  "buildMessage type data msgType m =
     (let seq = txSeqNum m + 1;
          body = (case data of None \<Rightarrow> Some (replicate 64 0)
                  | Some d \<Rightarrow> if length d < 64 then None else Some (take 64 d))
      in case body of
           None \<Rightarrow> None
         | Some d \<Rightarrow> Some (\<lparr>protoVersion = PROTO_VERSION, messageType = msgType, dataType = type,
              originMac = deviceMac m,
              targetMac = (if msgType = MESH_TYPE_MASTER_BEACON then broadcast_mac
                           else masterMac (currentMaster m)),
              lastHopMac = deviceMac m, msgData = d, hopCount = 0, epochNum = bootEpoch m,
              seqNum = seq, enrollmentPublicKey = replicate 32 0\<rparr>, m\<lparr>txSeqNum := seq\<rparr>))"

section \<open>Replay cache\<close>

definition replay_match :: "mesh_message \<Rightarrow> ReplayEntry \<Rightarrow> bool" where
  "replay_match msg r \<longleftrightarrow> rmac r = originMac msg \<and> repoch r = epochNum msg \<and> rseq r = seqNum msg"

definition isReplay :: "mesh_message \<Rightarrow> mesh_state \<Rightarrow> bool \<times> mesh_state" where
  "isReplay msg m =
     (if list_ex (replay_match msg) (replayCache m) then (True, m)
      else (False, m\<lparr>replayCache := (replayCache m)[replayCacheIdx m :=
                        \<lparr>rmac = originMac msg, repoch = epochNum msg, rseq = seqNum msg\<rparr>],
                     replayCacheIdx := (replayCacheIdx m + 1) mod REPLAY_CACHE_SIZE\<rparr>))"

section \<open>Receive ring (lock-free, single producer and consumer)\<close>

text \<open>
  The producer is the Wi-Fi task's callback: a null argument is \<open>None\<close>, a short frame or a full
  ring is dropped.
\<close>

definition onDataRecvCallback :: "mac option \<Rightarrow> byte list option \<Rightarrow> mesh_state \<Rightarrow> mesh_state" where
  "onDataRecvCallback info incomingData m =
     (case (info, incomingData) of
        (Some src, Some bs) \<Rightarrow>
          if length bs < sizeof_message then m
          else let nextHead = (recvQueueHead m + 1) mod RECV_QUEUE_SIZE
               in if nextHead = recvQueueTail m then m
                  else m\<lparr>recvQueue := (recvQueue m)[recvQueueHead m :=
                            \<lparr>srcMac = src, qmsg = message_of_bytes bs\<rparr>],
                         recvQueueHead := nextHead\<rparr>
      | _ \<Rightarrow> m)"

text \<open>One head of the consumer loop: the slot's index is taken and the tail advanced.\<close>

definition takeEntry :: "mesh_state \<Rightarrow> (nat \<times> mesh_state) option" where
  "takeEntry m =
     (if recvQueueTail m = recvQueueHead m then None
      else Some (recvQueueTail m, m\<lparr>recvQueueTail := (recvQueueTail m + 1) mod RECV_QUEUE_SIZE\<rparr>))"

section \<open>Small accessors\<close>

definition getHopCount :: "mesh_state \<Rightarrow> byte" where
  "getHopCount m = (if isMaster m then 0 else distance (currentMaster m))"

definition meshKeyIsSet :: "mesh_state \<Rightarrow> bool" where
  "meshKeyIsSet m \<longleftrightarrow> list_ex (\<lambda>b. b \<noteq> 0xFF) (meshKey m)"

definition checkMasterTimeout :: "u32 \<Rightarrow> mesh_state \<Rightarrow> mesh_state" where
  "checkMasterTimeout millis m =
     (if isMaster m then m
      else if distance (currentMaster m) = 0xFF then m
      else if millis - lastMasterBeaconReceivedMs m > STALE_MASTER_THRESHOLD_MS
      then m\<lparr>currentMaster := no_master, lastSeenMasterMac := zero_mac,
             lastMasterBeaconReceivedMs := 0\<rparr>
      else m)"

section \<open>Well-formedness\<close>

definition mesh_wf :: "mesh_state \<Rightarrow> bool" where
  "mesh_wf m \<longleftrightarrow> length (peerMacs m) = MAX_PEERS \<and> peerCount m \<le> MAX_PEERS
     \<and> list_all (\<lambda>p. length (publicKey p) = 32) (peerMacs m)
     \<and> length (replayCache m) = REPLAY_CACHE_SIZE \<and> replayCacheIdx m < REPLAY_CACHE_SIZE
     \<and> length (recvQueue m) = RECV_QUEUE_SIZE \<and> recvQueueHead m < RECV_QUEUE_SIZE
     \<and> recvQueueTail m < RECV_QUEUE_SIZE \<and> list_all (\<lambda>e. message_wf (qmsg e)) (recvQueue m)
     \<and> message_wf (relayPendingMsg m) \<and> length (meshKey m) = MESH_KEY_SIZE
     \<and> length (devicePrivateKey m) = 32 \<and> length (devicePublicKey m) = 32
     \<and> length (pendingEnrollmentPubKey m) = 32"

lemma mesh_wf_Mesh: "mesh_wf Mesh"
  by (simp add: mesh_wf_def Mesh_def zero_peer_def zero_entry_def list_all_iff)

end
