(* ===== verification/Mesh_Ops.thy ===== *)
theory Mesh_Ops
  imports Mesh_State
begin

text \<open>
  The operations of \<open>Mesh\<close> that use the radio, the persistent store or the error core
  (Mesh/Mesh.cpp). The device state extends the one of the error core with the EEPROM manager, the
  \<open>Mesh\<close> object and the peer list of the ESP-NOW driver; each operation is a state function in
  the order of the source's statements. \<open>millis()\<close> is the clock field, so time spent in a
  blocking error blink is seen by the reads after it.
\<close>

section \<open>Device state\<close>

record meshnode = node +
  ee :: eeprom
  mesh :: mesh_state
  espPeers :: "(mac \<times> byte list option) list"

definition on_mesh :: "(mesh_state \<Rightarrow> mesh_state) \<Rightarrow> 'a meshnode_scheme \<Rightarrow> 'a meshnode_scheme" where
  "on_mesh f s = s\<lparr>mesh := f (mesh s)\<rparr>"

definition on_ee :: "(eeprom \<Rightarrow> eeprom) \<Rightarrow> 'a meshnode_scheme \<Rightarrow> 'a meshnode_scheme" where
  "on_ee f s = s\<lparr>ee := f (ee s)\<rparr>"

section \<open>ESP-NOW peers and link keys\<close>

definition lmk_label :: "byte list" where
  "lmk_label = [0x6C, 0x61, 0x74, 0x74, 0x69, 0x63, 0x65, 0x2D, 0x6C, 0x6D, 0x6B]"

text \<open>\<open>Inl c\<close>: a crypto step failed, and \<open>c\<close> is the sub-code the source gives to that step.\<close>

definition derivePeerLMK :: "env \<Rightarrow> byte list \<Rightarrow> byte list \<Rightarrow> byte + byte list" where
  "derivePeerLMK E priv pub =
     (case ecdh E priv pub of
        Inl c \<Rightarrow> Inl c
      | Inr secret \<Rightarrow>
          (case sha256 E (secret @ lmk_label) of
             Inl c \<Rightarrow> Inl c
           | Inr digest \<Rightarrow> Inr (take 16 digest)))"

definition esp_now_is_peer_exist :: "mac \<Rightarrow> 'a meshnode_scheme \<Rightarrow> bool" where
  "esp_now_is_peer_exist m s \<longleftrightarrow> list_ex (\<lambda>p. fst p = m) (espPeers s)"

definition esp_now_add_peer :: "env \<Rightarrow> mac \<Rightarrow> byte list option \<Rightarrow> 'a meshnode_scheme
    \<Rightarrow> 'a meshnode_scheme" where
  "esp_now_add_peer E m lmk s =
     (if add_peer_ok E m then s\<lparr>espPeers := espPeers s @ [(m, lmk)]\<rparr> else s)"

definition esp_now_del_peer :: "env \<Rightarrow> mac \<Rightarrow> 'a meshnode_scheme \<Rightarrow> 'a meshnode_scheme" where
  "esp_now_del_peer E m s =
     (if del_peer_ok E m then s\<lparr>espPeers := filter (\<lambda>p. fst p \<noteq> m) (espPeers s)\<rparr> else s)"

definition registerPeerWithEspNow :: "env \<Rightarrow> mac \<Rightarrow> byte list \<Rightarrow> byte list \<Rightarrow> 'a meshnode_scheme
    \<Rightarrow> 'a meshnode_scheme" where
  "registerPeerWithEspNow E m priv pub s =
     (if esp_now_is_peer_exist m s then s
      else if list_ex (\<lambda>b. b \<noteq> 0) pub then
        (case derivePeerLMK E priv pub of
           Inl c \<Rightarrow> fatal CONFIG M_MESH c s
         | Inr lmk \<Rightarrow> check_esp (add_peer_ok E m) E_COMMUNICATION_FAIL
                        (esp_now_add_peer E m (Some lmk) s))
      else check_esp (add_peer_ok E m) E_COMMUNICATION_FAIL (esp_now_add_peer E m None s))"

section \<open>Sending\<close>

definition esp_now_send :: "env \<Rightarrow> mac \<Rightarrow> mesh_message \<Rightarrow> 'a meshnode_scheme \<Rightarrow> 'a meshnode_scheme" where
  "esp_now_send E target msg s =
     (if send_ok E target (message_bytes msg) then emit (RadioSend target (message_bytes msg)) s
      else s)"

definition sendMessage :: "env \<Rightarrow> mac \<Rightarrow> mesh_message \<Rightarrow> 'a meshnode_scheme \<Rightarrow> 'a meshnode_scheme" where
  "sendMessage E target msg s =
     (if target = deviceMac (mesh s) then s
      else if send_ok E target (message_bytes msg) then esp_now_send E target msg s
      else fail COMM M_MESH 5 s)"

text \<open>The \<open>for\<close> loop over \<open>peerMacs[0 .. peerCount-1]\<close> that skips the node's own entry.\<close>

definition send_to_peers :: "env \<Rightarrow> mesh_message \<Rightarrow> 'a meshnode_scheme \<Rightarrow> 'a meshnode_scheme" where
  "send_to_peers E msg s =
     fold (\<lambda>p t. if peerMac p = deviceMac (mesh t) then t else sendMessage E (peerMac p) msg t)
       (peers (mesh s)) s"

definition broadcastToAllPeers :: "env \<Rightarrow> mesh_message \<Rightarrow> 'a meshnode_scheme
    \<Rightarrow> 'a meshnode_scheme" where
  "broadcastToAllPeers E msg s = (if peerCount (mesh s) = 0 then s else send_to_peers E msg s)"

definition route_message :: "env \<Rightarrow> byte \<Rightarrow> mesh_message \<Rightarrow> 'a meshnode_scheme
    \<Rightarrow> 'a meshnode_scheme" where
  "route_message E msgType msg s =
     (let msg' = (if msgType = MESH_TYPE_ADAPTER_DATA
                  then msg\<lparr>targetMac := masterMac (currentMaster (mesh s))\<rparr> else msg)
      in case findNextHopToMaster (now s) (mesh s) of
           Some p \<Rightarrow> (if peerMac p \<noteq> deviceMac (mesh s) then sendMessage E (peerMac p) msg' s
                      else fail COMM M_MESH 8 s)
         | None \<Rightarrow> fail COMM M_MESH 8 s)"

definition transmitCore :: "env \<Rightarrow> u32 \<Rightarrow> byte list option \<Rightarrow> byte \<Rightarrow> mesh_message option
    \<Rightarrow> 'a meshnode_scheme \<Rightarrow> 'a meshnode_scheme" where
  "transmitCore E type data msgType msgOverride s =
     (case msgOverride of
        Some m \<Rightarrow> route_message E msgType m s
      | None \<Rightarrow> (case buildMessage type data msgType (mesh s) of
                  None \<Rightarrow> fault s
                | Some (m, ms) \<Rightarrow> route_message E msgType m (s\<lparr>mesh := ms\<rparr>)))"

definition broadcastAdapterData :: "env \<Rightarrow> u32 \<Rightarrow> byte list option \<Rightarrow> 'a meshnode_scheme
    \<Rightarrow> 'a meshnode_scheme" where
  "broadcastAdapterData E type data s =
     (case buildMessage type data MESH_TYPE_ADAPTER_DATA (mesh s) of
        None \<Rightarrow> fault s
      | Some (m, ms) \<Rightarrow>
          broadcastToAllPeers E (m\<lparr>targetMac := broadcast_mac\<rparr>) (s\<lparr>mesh := ms\<rparr>))"

definition transmit :: "env \<Rightarrow> u32 \<Rightarrow> byte list option \<Rightarrow> 'a meshnode_scheme
    \<Rightarrow> 'a meshnode_scheme" where
  "transmit E type data s =
     (if isMaster (mesh s) then broadcastAdapterData E type data s
      else transmitCore E type data MESH_TYPE_ADAPTER_DATA None s)"

definition broadcastMasterBeacon :: "env \<Rightarrow> 'a meshnode_scheme \<Rightarrow> 'a meshnode_scheme" where
  "broadcastMasterBeacon E s =
     (if now s - lastBeaconMillis (mesh s) < MASTER_BEACON_INTERVAL_MS then s
      else case buildMessage UNKNOWN_ADAPTER None MESH_TYPE_MASTER_BEACON
                  ((mesh s)\<lparr>lastBeaconMillis := now s\<rparr>) of
             None \<Rightarrow> fault s
           | Some (m, ms) \<Rightarrow>
               esp_now_send E broadcast_mac (m\<lparr>msgData := (msgData m)[0 := 1], hopCount := 0\<rparr>)
                 (s\<lparr>mesh := ms\<rparr>))"

section \<open>Peers and EEPROM\<close>

definition DEFAULT_PEERS :: "mac list" where
  "DEFAULT_PEERS = [MAC 0xAA 0xBB 0xCC 0xDD 0xEE 0x01, MAC 0xAA 0xBB 0xCC 0xDD 0xEE 0x02]"

definition DEFAULT_MESH_KEY :: "byte list" where
  "DEFAULT_MESH_KEY = [0x12, 0x34, 0x56, 0x78, 0x9A, 0xBC, 0xDE, 0xF0,
     0x11, 0x22, 0x33, 0x44, 0x55, 0x66, 0x77, 0x88]"

definition record_bytes :: "PeerInfo \<Rightarrow> byte list" where
  "record_bytes p = mac_bytes (peerMac p) @ publicKey p"

definition peer_of_record :: "byte list \<Rightarrow> PeerInfo" where
  "peer_of_record r = \<lparr>peerMac = mac_of_bytes (take 6 r), publicKey = take 32 (drop 6 r),
     lastSeenMillis = 0\<rparr>"

definition load_record :: "byte list \<Rightarrow> nat \<Rightarrow> mesh_state \<Rightarrow> mesh_state" where
  "load_record recs i m =
     (let r = take PEER_RECORD_SIZE (drop (i * PEER_RECORD_SIZE) recs)
      in if list_ex (\<lambda>b. b \<noteq> 0xFF) (take 6 r) then snd (appendPeer (peer_of_record r) m) else m)"

definition load_default :: "mac \<Rightarrow> mesh_state \<Rightarrow> mesh_state" where
  "load_default d m =
     snd (appendPeer \<lparr>peerMac = d, publicKey = replicate 32 0, lastSeenMillis = 0\<rparr> m)"

definition loadPeersFromEEPROM :: "'a meshnode_scheme \<Rightarrow> 'a meshnode_scheme" where
  "loadPeersFromEEPROM s =
     (let m0 = (mesh s)\<lparr>peerCount := 0\<rparr>;
          m1 = (case loadPeerList MAX_PEERS (ee s) of
                  None \<Rightarrow> m0
                | Some recs \<Rightarrow> fold (load_record recs) [0..<MAX_PEERS] m0);
          m2 = (if peerCount m1 = 0 then fold load_default DEFAULT_PEERS m1 else m1)
      in s\<lparr>mesh := m2\<rparr>)"

definition peer_records :: "mesh_state \<Rightarrow> byte list" where
  "peer_records m =
     (let ps = take MAX_PEERS (peers m)
      in concat (map record_bytes ps)
         @ replicate (PEER_LIST_SIZE - PEER_RECORD_SIZE * length ps) 0xFF)"

definition savePeersToEEPROM :: "'a meshnode_scheme \<Rightarrow> 'a meshnode_scheme" where
  "savePeersToEEPROM s =
     (case savePeerList (peer_records (mesh s)) (peerCount (mesh s)) (ee s) of
        None \<Rightarrow> fault s
      | Some e \<Rightarrow> s\<lparr>ee := e\<rparr>)"

definition register_entry :: "env \<Rightarrow> PeerInfo \<Rightarrow> 'a meshnode_scheme \<Rightarrow> 'a meshnode_scheme" where
  "register_entry E p s =
     registerPeerWithEspNow E (peerMac p) (devicePrivateKey (mesh s)) (publicKey p) s"

text \<open>The tail that \<open>addPeer\<close> and \<open>addPeerToEEPROM\<close> share once the table has room.\<close>

definition store_new_peer :: "env \<Rightarrow> PeerInfo \<Rightarrow> 'a meshnode_scheme \<Rightarrow> 'a meshnode_scheme" where
  "store_new_peer E p s =
     andthen savePeersToEEPROM
       (\<lambda>t. register_entry E (peerMacs (mesh t) ! (peerCount (mesh t) - 1)) t)
       (on_mesh (\<lambda>m. snd (appendPeer p m)) s)"

definition addPeer :: "env \<Rightarrow> mac \<Rightarrow> 'a meshnode_scheme \<Rightarrow> 'a meshnode_scheme" where
  "addPeer E m s =
     (if findPeer m (mesh s) \<noteq> None then s
      else if peerCount (mesh s) \<ge> MAX_PEERS then fail MEMORY M_MESH 6 s
      else store_new_peer E \<lparr>peerMac = m, publicKey = replicate 32 0, lastSeenMillis = 0\<rparr> s)"

definition addPeerToEEPROM :: "env \<Rightarrow> mac \<Rightarrow> 'a meshnode_scheme \<Rightarrow> 'a meshnode_scheme" where
  "addPeerToEEPROM E m s =
     (if findPeer m (mesh s) \<noteq> None \<or> m = deviceMac (mesh s) then s
      else if peerCount (mesh s) \<ge> MAX_PEERS then fail MEMORY M_MESH 2 s
      else store_new_peer E \<lparr>peerMac = m, publicKey = replicate 32 0, lastSeenMillis = now s\<rparr> s)"

definition removePeerFromEEPROM :: "env \<Rightarrow> mac \<Rightarrow> 'a meshnode_scheme \<Rightarrow> 'a meshnode_scheme" where
  "removePeerFromEEPROM E m s =
     andthen savePeersToEEPROM
       (\<lambda>t. check_esp (del_peer_ok E m) E_COMMUNICATION_FAIL (esp_now_del_peer E m t))
       (on_mesh (dropPeer m) s)"

definition removePeer :: "env \<Rightarrow> mac \<Rightarrow> 'a meshnode_scheme \<Rightarrow> 'a meshnode_scheme" where
  "removePeer = removePeerFromEEPROM"
section \<open>Mesh key and keypair\<close>

definition saveMeshKeyToEEPROM :: "byte list \<Rightarrow> 'a meshnode_scheme \<Rightarrow> 'a meshnode_scheme" where
  "saveMeshKeyToEEPROM key = on_ee (saveMeshKey key MESH_KEY_SIZE)"

text \<open>\<open>DEV_MODE\<close> is a compile-time \<open>false\<close>.\<close>

definition loadMeshKeyFromEEPROM :: "'a meshnode_scheme \<Rightarrow> 'a meshnode_scheme" where
  "loadMeshKeyFromEEPROM s =
     (let s1 = (case loadMeshKey MESH_KEY_SIZE (ee s) of
                  None \<Rightarrow> s
                | Some k \<Rightarrow> on_mesh (\<lambda>m. m\<lparr>meshKey := k\<rparr>) s)
      in if list_all (\<lambda>b. b = 0xFF \<or> b = 0) (meshKey (mesh s1))
         then saveMeshKeyToEEPROM DEFAULT_MESH_KEY (on_mesh (\<lambda>m. m\<lparr>meshKey := DEFAULT_MESH_KEY\<rparr>) s1)
         else s1)"

text \<open>\<open>draws i\<close> is the value of the \<open>i\<close>-th call of \<open>esp_random\<close>.\<close>

definition generateRandomMeshKey :: "(nat \<Rightarrow> u32) \<Rightarrow> mesh_state \<Rightarrow> mesh_state" where
  "generateRandomMeshKey draws m =
     m\<lparr>meshKey := map (\<lambda>i. ucast (draws i AND 0xFF)) [0..<MESH_KEY_SIZE]\<rparr>"

definition set_keys :: "byte list \<Rightarrow> byte list \<Rightarrow> 'a meshnode_scheme \<Rightarrow> 'a meshnode_scheme" where
  "set_keys priv pub = on_mesh (\<lambda>m. m\<lparr>devicePrivateKey := priv, devicePublicKey := pub\<rparr>)"

definition loadOrGenerateKeypair :: "env \<Rightarrow> 'a meshnode_scheme \<Rightarrow> 'a meshnode_scheme" where
  "loadOrGenerateKeypair E s =
     (let loaded = loadKeypair (ee s);
          s1 = (case loaded of None \<Rightarrow> s | Some (_, priv, pub) \<Rightarrow> set_keys priv pub s)
      in if (case loaded of Some (True, _) \<Rightarrow> True | _ \<Rightarrow> False) then s1
         else case keygen E of
                Inl c \<Rightarrow> fatal CONFIG M_MESH c s1
              | Inr (priv, pub) \<Rightarrow> on_ee (saveKeypair priv pub) (set_keys priv pub s1))"

section \<open>Initialisation\<close>

definition load_known_masters :: "'a meshnode_scheme \<Rightarrow> 'a meshnode_scheme" where
  "load_known_masters s =
     (let s1 = (case loadKnownMasterMac (ee s) of
                  None \<Rightarrow> on_mesh (\<lambda>m. m\<lparr>hasMasterMac := False\<rparr>) s
                | Some (ok, mac) \<Rightarrow> on_mesh (\<lambda>m. m\<lparr>hasMasterMac := ok, knownMasterMac := mac\<rparr>) s)
      in if dualMasterMode (mesh s1) then
           (case loadKnownMasterMacSecondary (ee s1) of
              None \<Rightarrow> on_mesh (\<lambda>m. m\<lparr>hasMasterMacSecondary := False\<rparr>) s1
            | Some (ok, mac) \<Rightarrow>
                on_mesh (\<lambda>m. m\<lparr>hasMasterMacSecondary := ok, knownMasterMacSecondary := mac\<rparr>) s1)
         else s1)"

definition loadPersistentState :: "env \<Rightarrow> 'a meshnode_scheme \<Rightarrow> 'a meshnode_scheme" where
  "loadPersistentState E s =
     andthen (\<lambda>t. loadOrGenerateKeypair E (loadMeshKeyFromEEPROM (loadPeersFromEEPROM t)))
       load_known_masters s"

definition bump_epoch :: "'a meshnode_scheme \<Rightarrow> 'a meshnode_scheme" where
  "bump_epoch s =
     (let epoch = loadBootEpoch (ee s) + 1
      in on_ee (saveBootEpoch epoch)
           (on_mesh (\<lambda>m. m\<lparr>bootEpoch := epoch, txSeqNum := 0,
              replayCache := replicate REPLAY_CACHE_SIZE zero_replay\<rparr>) s))"

definition readMacAddress :: "env \<Rightarrow> 'a meshnode_scheme \<Rightarrow> 'a meshnode_scheme" where
  "readMacAddress E s =
     (if mac_ok E then on_mesh (\<lambda>m. m\<lparr>deviceMac := hw_mac E\<rparr>) s else fail HARDWARE M_MESH 1 s)"

definition setupWiFi :: "env \<Rightarrow> 'a meshnode_scheme \<Rightarrow> 'a meshnode_scheme" where
  "setupWiFi E = andthen (check_esp (channel_ok E) E_HARDWARE_FAILURE) (readMacAddress E)"

definition apply_tx_power :: "env \<Rightarrow> 'a meshnode_scheme \<Rightarrow> 'a meshnode_scheme" where
  "apply_tx_power E s =
     (let v = TX_POWER_VALUES ! unat (preset_byte (loadTxPowerPreset (ee s)))
      in if txpower_ok E then emit (RadioPower v) s else s)"

definition setupEspNow :: "env \<Rightarrow> 'a meshnode_scheme \<Rightarrow> bool \<times> 'a meshnode_scheme" where
  "setupEspNow E s =
     (if \<not> espnow_init_ok E then (False, fail COMM M_MESH 3 s)
      else let s1 = emit (RadioPmk (meshKey (mesh s))) s;
               s2 = (if esp_now_is_peer_exist broadcast_mac s1 then s1
                     else esp_now_add_peer E broadcast_mac None s1);
               s3 = fold (\<lambda>p t. if status t = Running then register_entry E p t else t)
                      (peers (mesh s2)) s2
           in (True, s3))"

text \<open>
  \<open>Mesh::init\<close>: the flag is the returned value; it has no meaning when the program stopped.
\<close>

definition mesh_init :: "env \<Rightarrow> 'a meshnode_scheme \<Rightarrow> bool \<times> 'a meshnode_scheme" where
  "mesh_init E s =
     (let s1 = andthen (loadPersistentState E) (\<lambda>t. andthen (setupWiFi E) (apply_tx_power E) (bump_epoch t)) s
      in if status s1 = Running then setupEspNow E s1 else (False, s1))"

section \<open>Beacons\<close>

text \<open>
  Trust on first use: \<open>None\<close> rejects the beacon. The known masters and their EEPROM copies
  change only here and in \<open>processJoinAck\<close>.
\<close>

definition tofu_check :: "mesh_message \<Rightarrow> 'a meshnode_scheme \<Rightarrow> 'a meshnode_scheme option" where
  "tofu_check msg s =
     (let m = mesh s;
          origin = originMac msg;
          fromPrimary = (hasMasterMac m \<and> origin = knownMasterMac m);
          fromSecondary = (dualMasterMode m \<and> hasMasterMacSecondary m
                           \<and> origin = knownMasterMacSecondary m)
      in if \<not> hasMasterMac m then
           Some (on_ee (saveKnownMasterMac origin)
             (on_mesh (\<lambda>m. m\<lparr>knownMasterMac := origin, hasMasterMac := True\<rparr>) s))
         else if \<not> fromPrimary \<and> \<not> fromSecondary then
           (if dualMasterMode m \<and> \<not> hasMasterMacSecondary m then
              Some (on_ee (saveKnownMasterMacSecondary origin)
                (on_mesh (\<lambda>m. m\<lparr>knownMasterMacSecondary := origin, hasMasterMacSecondary := True\<rparr>) s))
            else if now s - lastMasterBeaconReceivedMs m < STALE_MASTER_THRESHOLD_MS then None
            else Some (on_ee (saveKnownMasterMac origin)
                   (on_mesh (\<lambda>m. m\<lparr>knownMasterMac := origin\<rparr>) s)))
         else Some s)"

definition multi_master_check :: "mesh_message \<Rightarrow> 'a meshnode_scheme \<Rightarrow> 'a meshnode_scheme" where
  "multi_master_check msg s =
     (if lastSeenMasterMac (mesh s) \<noteq> originMac msg \<and> mac0 (lastSeenMasterMac (mesh s)) \<noteq> 0
         \<and> \<not> dualMasterMode (mesh s)
      then fail CONFIG M_MESH 7 s else s)"

definition update_route :: "mesh_message \<Rightarrow> mesh_state \<Rightarrow> mesh_state" where
  "update_route msg m =
     (let newDistance = hopCount msg + 1
      in if distance (currentMaster m) = 0xFF \<or> masterMac (currentMaster m) \<noteq> originMac msg
            \<or> newDistance < distance (currentMaster m)
         then m\<lparr>currentMaster := \<lparr>masterMac = originMac msg, distance = newDistance,
                                  nextHop = lastHopMac msg\<rparr>\<rparr>
         else m)"

definition isNewer :: "mesh_message \<Rightarrow> mesh_state \<Rightarrow> bool" where
  "isNewer msg m \<longleftrightarrow> epochNum msg > lastRelayedEpoch m
     \<or> (epochNum msg = lastRelayedEpoch m \<and> seqNum msg > lastRelayedSeqNum m)"

definition schedule_relay :: "env \<Rightarrow> mesh_message \<Rightarrow> 'a meshnode_scheme \<Rightarrow> 'a meshnode_scheme" where
  "schedule_relay E msg s =
     (if isMaster (mesh s) then s
      else if \<not> isNewer msg (mesh s) then s
      else let jitter = ucast (rand E (now s) mod RELAY_JITTER_MAX_MS) :: byte
           in on_mesh (\<lambda>m. m\<lparr>lastRelayedEpoch := epochNum msg, lastRelayedSeqNum := seqNum msg,
                relayPendingMsg := msg\<lparr>hopCount := hopCount msg + 1, lastHopMac := deviceMac m\<rparr>,
                relayPendingAt := now s + 10 + ucast jitter, relayPending := True\<rparr>) s)"

definition processMasterBeacon :: "env \<Rightarrow> mesh_message \<Rightarrow> 'a meshnode_scheme
    \<Rightarrow> 'a meshnode_scheme" where
  "processMasterBeacon E msg s =
     (if hopCount msg \<ge> MAX_HOPS then s
      else case tofu_check msg s of
             None \<Rightarrow> s
           | Some s1 \<Rightarrow>
               let s2 = multi_master_check msg s1;
                   s3 = on_mesh (\<lambda>m. m\<lparr>lastSeenMasterMac := originMac msg,
                          lastMasterBeaconReceivedMs := now s2\<rparr>) s2
               in schedule_relay E msg (on_mesh (update_route msg) s3))"

section \<open>Adapter data, downlink and enrollment\<close>

definition hop_of :: "mesh_message \<Rightarrow> mesh_state \<Rightarrow> mesh_message" where
  "hop_of msg m = msg\<lparr>hopCount := hopCount msg + 1, lastHopMac := deviceMac m\<rparr>"

definition relayDownlink :: "env \<Rightarrow> mesh_message \<Rightarrow> 'a meshnode_scheme \<Rightarrow> 'a meshnode_scheme" where
  "relayDownlink E msg s =
     (if hopCount msg \<ge> MAX_HOPS then s else send_to_peers E (hop_of msg (mesh s)) s)"

type_synonym 's recv_callback = "(mesh_message \<Rightarrow> 's \<Rightarrow> 's) option"

text \<open>Local delivery, then the relay of a broadcast so that multi-hop nodes receive it.\<close>

definition deliver_local :: "'a meshnode_scheme recv_callback \<Rightarrow> env \<Rightarrow> mesh_message
    \<Rightarrow> 'a meshnode_scheme \<Rightarrow> 'a meshnode_scheme" where
  "deliver_local cb E msg =
     andthen (case cb of None \<Rightarrow> id | Some f \<Rightarrow> f msg)
       (\<lambda>t. if targetMac msg = broadcast_mac \<and> \<not> isMaster (mesh t) then relayDownlink E msg t else t)"

definition processAdapterData :: "'a meshnode_scheme recv_callback \<Rightarrow> env \<Rightarrow> mesh_message
    \<Rightarrow> 'a meshnode_scheme \<Rightarrow> 'a meshnode_scheme" where
  "processAdapterData cb E msg s =
     (let m = mesh s;
          addressedToSelf = (targetMac msg = deviceMac m);
          isBroadcastTarget = (targetMac msg = broadcast_mac);
          addressedToMaster = (hasMasterMac m \<and> targetMac msg = masterMac (currentMaster m))
      in if \<not> isMaster m \<and> \<not> addressedToSelf \<and> \<not> isBroadcastTarget then
           (if addressedToMaster then
              (if hopCount msg \<ge> MAX_HOPS then s
               else let relay = hop_of msg m
                    in transmitCore E (dataType relay) (Some (msgData relay)) MESH_TYPE_ADAPTER_DATA
                         (Some relay) s)
            else relayDownlink E msg s)
         else if dataType msg = SERIAL_ADAPTER \<and> msgData msg ! 0 = OP_CONFIG_SET (ops E)
                 \<and> hasMasterMac m \<and> originMac msg \<noteq> knownMasterMac m then s
         else deliver_local cb E msg s)"

definition isEnrolled :: "'a meshnode_scheme \<Rightarrow> bool" where
  "isEnrolled s = loadEnrolledFlag (ee s)"

definition enrollment_request :: "mesh_state \<Rightarrow> mesh_message" where
  "enrollment_request m = zero_message\<lparr>messageType := MESH_TYPE_ENROLLMENT,
     dataType := UNKNOWN_ADAPTER, originMac := deviceMac m, targetMac := broadcast_mac,
     lastHopMac := deviceMac m, hopCount := 0, enrollmentPublicKey := devicePublicKey m\<rparr>"

definition sendEnrollmentRequest :: "env \<Rightarrow> 'a meshnode_scheme \<Rightarrow> 'a meshnode_scheme" where
  "sendEnrollmentRequest E s = esp_now_send E broadcast_mac (enrollment_request (mesh s)) s"

definition processEnrollmentRequest :: "mesh_message \<Rightarrow> mesh_state \<Rightarrow> mesh_state" where
  "processEnrollmentRequest msg m =
     (if \<not> isMaster m then m
      else m\<lparr>pendingEnrollmentMac := originMac msg,
             pendingEnrollmentPubKey := enrollmentPublicKey msg, pendingEnrollmentRelay := True\<rparr>)"

definition processJoinAck :: "env \<Rightarrow> mesh_message \<Rightarrow> 'a meshnode_scheme \<Rightarrow> 'a meshnode_scheme" where
  "processJoinAck E msg s =
     (if targetMac msg \<noteq> deviceMac (mesh s) then relayDownlink E msg s
      else if take 4 (msgData msg) \<noteq> take 4 (devicePublicKey (mesh s)) then s
      else let s1 = on_ee (saveEnrolledFlag True) s
           in if hasMasterMac (mesh s1) then s1
              else on_ee (saveKnownMasterMac (originMac msg))
                     (on_mesh (\<lambda>m. m\<lparr>knownMasterMac := originMac msg, hasMasterMac := True\<rparr>) s1))"

definition join_ack :: "mac \<Rightarrow> byte list \<Rightarrow> mesh_state \<Rightarrow> mesh_message" where
  "join_ack mac pub m = zero_message\<lparr>messageType := MESH_TYPE_JOIN_ACK,
     dataType := UNKNOWN_ADAPTER, originMac := deviceMac m, targetMac := mac,
     lastHopMac := deviceMac m, hopCount := 0, msgData := take 4 pub @ replicate 60 0\<rparr>"

text \<open>\<open>None\<close>: the table is full and \<open>enrollPeer\<close> returns.\<close>

definition enroll_entry :: "mac \<Rightarrow> byte list \<Rightarrow> mesh_state \<Rightarrow> mesh_state option" where
  "enroll_entry mac pub m =
     (case findPeer mac m of
        Some i \<Rightarrow> Some (m\<lparr>peerMacs := (peerMacs m)[i := (peerMacs m ! i)\<lparr>publicKey := pub\<rparr>]\<rparr>)
      | None \<Rightarrow> (if peerCount m \<ge> MAX_PEERS then None
                 else Some (snd (appendPeer \<lparr>peerMac = mac, publicKey = pub, lastSeenMillis = 0\<rparr> m))))"

definition enrollPeer :: "env \<Rightarrow> mac \<Rightarrow> byte list \<Rightarrow> 'a meshnode_scheme \<Rightarrow> 'a meshnode_scheme" where
  "enrollPeer E mac pub s =
     (case enroll_entry mac pub (mesh s) of
        None \<Rightarrow> s
      | Some m \<Rightarrow>
          andthen (andthen savePeersToEEPROM
            (\<lambda>t. let t1 = (if esp_now_is_peer_exist mac t then esp_now_del_peer E mac t else t)
                 in registerPeerWithEspNow E mac (devicePrivateKey (mesh t1)) pub t1))
            (\<lambda>t. esp_now_send E broadcast_mac (join_ack mac pub (mesh t)) t)
            (s\<lparr>mesh := m\<rparr>))"

section \<open>The receive loop and the main loop\<close>

definition dispatch :: "'a meshnode_scheme recv_callback \<Rightarrow> env \<Rightarrow> mesh_message
    \<Rightarrow> 'a meshnode_scheme \<Rightarrow> 'a meshnode_scheme" where
  "dispatch cb E msg s =
     (if messageType msg = MESH_TYPE_ENROLLMENT then on_mesh (processEnrollmentRequest msg) s
      else if messageType msg = MESH_TYPE_JOIN_ACK then processJoinAck E msg s
      else if messageType msg = MESH_TYPE_MASTER_BEACON then processMasterBeacon E msg s
      else if messageType msg = MESH_TYPE_ADAPTER_DATA then processAdapterData cb E msg s
      else s)"

definition replay_filter :: "mesh_message \<Rightarrow> mesh_state \<Rightarrow> bool \<times> mesh_state" where
  "replay_filter msg m =
     (if protoVersion msg = PROTO_VERSION \<and> epochNum msg > 0 then isReplay msg m else (False, m))"

definition process_entry :: "'a meshnode_scheme recv_callback \<Rightarrow> env \<Rightarrow> RecvQueueEntry
    \<Rightarrow> 'a meshnode_scheme \<Rightarrow> 'a meshnode_scheme" where
  "process_entry cb E entry s =
     (let msg = qmsg entry
      in if protoVersion msg \<noteq> 0 \<and> protoVersion msg \<noteq> PROTO_VERSION then s
         else let (replayed, m) = replay_filter msg (mesh s)
              in if replayed then s\<lparr>mesh := m\<rparr>
                 else dispatch cb E msg (s\<lparr>mesh := updatePeerLastSeen (now s) (srcMac entry) m\<rparr>))"

text \<open>
  \<open>while (recvQueueTail != recvQueueHead)\<close>: \<open>None\<close> would be a loop that never ends. A callback
  that restarts the device ends it.
\<close>

partial_function (option) drainRecvQueue :: "'a meshnode_scheme recv_callback \<Rightarrow> env
    \<Rightarrow> 'a meshnode_scheme \<Rightarrow> 'a meshnode_scheme option" where
  "drainRecvQueue cb E s =
     (case takeEntry (mesh s) of
        None \<Rightarrow> Some s
      | Some (i, m) \<Rightarrow>
          (let s' = process_entry cb E (recvQueue m ! i) (s\<lparr>mesh := m\<rparr>)
           in if status s' = Running then drainRecvQueue cb E s' else Some s'))"

type_synonym 's relay_fn = "(mac \<Rightarrow> byte list \<Rightarrow> 's \<Rightarrow> 's) option"

definition drainPendingEnrollment :: "'a meshnode_scheme relay_fn \<Rightarrow> 'a meshnode_scheme
    \<Rightarrow> 'a meshnode_scheme" where
  "drainPendingEnrollment relay s =
     (if \<not> pendingEnrollmentRelay (mesh s) then s
      else let s1 = on_mesh (\<lambda>m. m\<lparr>pendingEnrollmentRelay := False\<rparr>) s
           in case relay of
                None \<Rightarrow> s1
              | Some f \<Rightarrow> f (pendingEnrollmentMac (mesh s1)) (pendingEnrollmentPubKey (mesh s1)) s1)"

definition relay_pending :: "env \<Rightarrow> 'a meshnode_scheme \<Rightarrow> 'a meshnode_scheme" where
  "relay_pending E s =
     (if relayPending (mesh s) \<and> now s \<ge> relayPendingAt (mesh s)
      then let s1 = on_mesh (\<lambda>m. m\<lparr>relayPending := False\<rparr>) s;
               msg = relayPendingMsg (mesh s1)
           in transmitCore E (dataType msg) (Some (msgData msg)) MESH_TYPE_MASTER_BEACON (Some msg) s1
      else s)"

definition loop_tail :: "'a meshnode_scheme relay_fn \<Rightarrow> env \<Rightarrow> 'a meshnode_scheme
    \<Rightarrow> 'a meshnode_scheme" where
  "loop_tail relay E s =
     andthen (drainPendingEnrollment relay)
       (andthen (relay_pending E)
          (\<lambda>t. if isMaster (mesh t) then broadcastMasterBeacon E t else t))
       (on_ee (flushIfDirty (now s)) s)"

definition mesh_loop :: "'a meshnode_scheme recv_callback \<Rightarrow> 'a meshnode_scheme relay_fn \<Rightarrow> env
    \<Rightarrow> 'a meshnode_scheme \<Rightarrow> 'a meshnode_scheme option" where
  "mesh_loop cb relay E s =
     (case drainRecvQueue cb E s of
        None \<Rightarrow> None
      | Some s1 \<Rightarrow> Some (if status s1 = Running then loop_tail relay E s1 else s1))"

definition node_checkMasterTimeout :: "'a meshnode_scheme \<Rightarrow> 'a meshnode_scheme" where
  "node_checkMasterTimeout s = on_mesh (checkMasterTimeout (now s)) s"

end
