(* ===== verification/Byte_Store.thy ===== *)
theory Byte_Store
  imports Prelude
begin

text \<open>
  The contract of a byte-addressed store, and of one whose contents survive a power cycle only
  when committed. The EEPROM manager relies on exactly these laws; \<open>Eeprom_Lemmas\<close>
  interprets both locales on its model.
\<close>

locale byte_store =
  fixes rd :: "nat \<Rightarrow> 'm \<Rightarrow> 'v" and wr :: "nat \<Rightarrow> 'v \<Rightarrow> 'm \<Rightarrow> 'm" and size_of :: "'m \<Rightarrow> nat"
  assumes rd_wr_same: "a < size_of m \<Longrightarrow> rd a (wr a v m) = v"
    and rd_wr_other: "a \<noteq> b \<Longrightarrow> rd a (wr b v m) = rd a m"
    and size_wr: "size_of (wr a v m) = size_of m"
begin

lemma size_write_list: "size_of (write_list wr b xs m) = size_of m"
  by (induction xs arbitrary: b m) (simp_all add: size_wr)

lemma rd_write_list_outside:
  "a < b \<or> b + length xs \<le> a \<Longrightarrow> rd a (write_list wr b xs m) = rd a m"
proof (induction xs arbitrary: b m)
  case (Cons x xs)
  then have "rd a (write_list wr (Suc b) xs (wr b x m)) = rd a (wr b x m)"
    by (intro Cons.IH) auto
  also have "\<dots> = rd a m" using Cons.prems by (intro rd_wr_other) auto
  finally show ?case by simp
qed simp

lemma rd_write_list_inside:
  "i < length xs \<Longrightarrow> b + length xs \<le> size_of m \<Longrightarrow> rd (b + i) (write_list wr b xs m) = xs ! i"
proof (induction xs arbitrary: b m i)
  case (Cons x xs)
  show ?case
  proof (cases i)
    case 0
    have "rd b (write_list wr (Suc b) xs (wr b x m)) = rd b (wr b x m)"
      by (rule rd_write_list_outside) simp
    then show ?thesis using 0 Cons.prems by (simp add: rd_wr_same)
  next
    case (Suc j)
    have "rd (Suc b + j) (write_list wr (Suc b) xs (wr b x m)) = xs ! j"
      using Suc Cons.prems by (intro Cons.IH) (auto simp: size_wr)
    then show ?thesis using Suc by simp
  qed
qed simp

lemma read_write_same:
  "b + length xs \<le> size_of m \<Longrightarrow> read_list rd b (length xs) (write_list wr b xs m) = xs"
  by (rule nth_equalityI) (simp_all add: rd_write_list_inside)

lemma read_write_disjoint:
  "a + n \<le> b \<or> b + length xs \<le> a \<Longrightarrow> read_list rd a n (write_list wr b xs m) = read_list rd a n m"
  by (rule nth_equalityI) (auto simp: rd_write_list_outside)

lemma read_list_cong:
  "(\<And>i. a \<le> i \<Longrightarrow> i < a + n \<Longrightarrow> rd i m = rd i m') \<Longrightarrow> read_list rd a n m = read_list rd a n m'"
  by (simp add: read_list_def)

end

locale durable_store = byte_store +
  fixes commit :: "'a \<Rightarrow> 'a" and power :: "'a \<Rightarrow> 'a" and commit_ok :: "'a \<Rightarrow> bool"
  assumes rd_commit: "rd a (commit m) = rd a m"
    and rd_power_commit: "commit_ok m \<Longrightarrow> rd a (power (commit m)) = rd a m"
    and rd_power_wr: "rd a (power (wr b v m)) = rd a (power m)"
    and commit_ok_wr: "commit_ok (wr b v m) = commit_ok m"
begin

lemma commit_ok_write_list: "commit_ok (write_list wr b xs m) = commit_ok m"
  by (induction xs arbitrary: b m) (simp_all add: commit_ok_wr)

lemma read_commit: "read_list rd a n (commit m) = read_list rd a n m"
  by (simp add: read_list_def rd_commit)

lemma uncommitted_lost: "rd a (power (write_list wr b xs m)) = rd a (power m)"
  by (induction xs arbitrary: b m) (simp_all add: rd_power_wr)

lemma committed_kept:
  "commit_ok m \<Longrightarrow> b + length xs \<le> size_of m
     \<Longrightarrow> read_list rd b (length xs) (power (commit (write_list wr b xs m))) = xs"
  by (rule nth_equalityI) (simp_all add: rd_power_commit commit_ok_write_list rd_write_list_inside)

end

end
