(* ===== verification/Eeprom_Lemmas.thy ===== *)
theory Eeprom_Lemmas
  imports Eeprom Byte_Store
begin

text \<open>
  The EEPROM model provides the storage contracts; from them follow the facts about block
  reads and writes, the manager's flags and the effect of every operation on the cells.
\<close>

section \<open>Cells\<close>

lemma ee_read_write_same: "a < length (ee_cells e) \<Longrightarrow> ee_read a (ee_write a v e) = v"
  by (simp add: ee_read_def ee_write_def)

lemma ee_read_write_other: "a \<noteq> b \<Longrightarrow> ee_read a (ee_write b v e) = ee_read a e"
  by (simp add: ee_read_def ee_write_def)

lemma ee_write_fields [simp]:
  "length (ee_cells (ee_write a v e)) = length (ee_cells e)" "ee_flash (ee_write a v e) = ee_flash e"
  "ee_commitOk (ee_write a v e) = ee_commitOk e" "ee_init (ee_write a v e) = ee_init e"
  "ee_dev (ee_write a v e) = ee_dev e" "ee_dirty (ee_write a v e) = ee_dirty e"
  "ee_lastFlush (ee_write a v e) = ee_lastFlush e"
  by (simp_all add: ee_write_def)

lemma ee_commit_fields [simp]:
  "ee_cells (ee_commit e) = ee_cells e" "ee_commitOk (ee_commit e) = ee_commitOk e"
  "ee_init (ee_commit e) = ee_init e" "ee_dev (ee_commit e) = ee_dev e"
  "ee_dirty (ee_commit e) = ee_dirty e" "ee_lastFlush (ee_commit e) = ee_lastFlush e"
  by (simp_all add: ee_commit_def)

lemma markDirty_fields [simp]:
  "ee_cells (markDirty e) = ee_cells e" "ee_flash (markDirty e) = ee_flash e"
  "ee_commitOk (markDirty e) = ee_commitOk e" "ee_init (markDirty e) = ee_init e"
  "ee_dev (markDirty e) = ee_dev e" "ee_dirty (markDirty e)"
  "ee_lastFlush (markDirty e) = ee_lastFlush e"
  by (simp_all add: markDirty_def)

lemma ee_read_cong: "ee_cells e = ee_cells e' \<Longrightarrow> ee_read a e = ee_read a e'"
  by (simp add: ee_read_def)

lemma ee_read_commit [simp]: "ee_read a (ee_commit e) = ee_read a e"
  by (rule ee_read_cong) simp

lemma ee_read_markDirty [simp]: "ee_read a (markDirty e) = ee_read a e"
  by (rule ee_read_cong) simp

lemma ee_read_power: "ee_read a (ee_power_cycle e) = (if a < length (ee_flash e) then ee_flash e ! a else 0xFF)"
  by (simp add: ee_read_def ee_power_cycle_def)

interpretation ee: byte_store ee_read ee_write "\<lambda>e. length (ee_cells e)"
  by unfold_locales (simp_all add: ee_read_write_same ee_read_write_other)

interpretation eed: durable_store ee_read ee_write "\<lambda>e. length (ee_cells e)"
  ee_commit ee_power_cycle ee_commitOk
proof unfold_locales
  show "ee_read a (ee_commit m) = ee_read a m" for a m by simp
  show "ee_commitOk m \<Longrightarrow> ee_read a (ee_power_cycle (ee_commit m)) = ee_read a m" for a m
    by (simp add: ee_read_def ee_commit_def ee_power_cycle_def)
  show "ee_read a (ee_power_cycle (ee_write b v m)) = ee_read a (ee_power_cycle m)" for a b v m
    by (simp add: ee_read_power)
  show "ee_commitOk (ee_write b v m) = ee_commitOk m" for b v m by simp
qed

lemma ee_writes_fields [simp]:
  "length (ee_cells (ee_writes a xs e)) = length (ee_cells e)"
  "ee_flash (ee_writes a xs e) = ee_flash e" "ee_commitOk (ee_writes a xs e) = ee_commitOk e"
  "ee_init (ee_writes a xs e) = ee_init e" "ee_dev (ee_writes a xs e) = ee_dev e"
  "ee_dirty (ee_writes a xs e) = ee_dirty e" "ee_lastFlush (ee_writes a xs e) = ee_lastFlush e"
  unfolding ee_writes_def by (induction xs arbitrary: a e) simp_all

lemma ee_fill_fields [simp]:
  "length (ee_cells (ee_fill a n e)) = length (ee_cells e)"
  "ee_flash (ee_fill a n e) = ee_flash e" "ee_commitOk (ee_fill a n e) = ee_commitOk e"
  "ee_init (ee_fill a n e) = ee_init e" "ee_dev (ee_fill a n e) = ee_dev e"
  "ee_dirty (ee_fill a n e) = ee_dirty e" "ee_lastFlush (ee_fill a n e) = ee_lastFlush e"
  by (simp_all add: ee_fill_def)

lemma length_ee_reads [simp]: "length (ee_reads a n e) = n"
  by (simp add: ee_reads_def)

lemma ee_reads_commit [simp]: "ee_reads a n (ee_commit e) = ee_reads a n e"
  by (simp add: ee_reads_def eed.read_commit)

lemma ee_reads_markDirty [simp]: "ee_reads a n (markDirty e) = ee_reads a n e"
  by (simp add: ee_reads_def read_list_def)

lemma ee_read_writes_outside:
  "a < b \<or> b + length xs \<le> a \<Longrightarrow> ee_read a (ee_writes b xs e) = ee_read a e"
  by (simp add: ee_writes_def ee.rd_write_list_outside)

lemma ee_read_fill_outside:
  "a < b \<or> b + n \<le> a \<Longrightarrow> ee_read a (ee_fill b n e) = ee_read a e"
  by (simp add: ee_fill_def ee_read_writes_outside)

lemma ee_read_writes_inside:
  assumes "b \<le> a" "a < b + length xs" "b + length xs \<le> length (ee_cells e)"
  shows "ee_read a (ee_writes b xs e) = xs ! (a - b)"
  using ee.rd_write_list_inside [of "a - b" xs b e] assms by (simp add: ee_writes_def)

lemma ee_read_fill_inside:
  assumes "b \<le> a" "a < b + n" "b + n \<le> length (ee_cells e)"
  shows "ee_read a (ee_fill b n e) = 0xFF"
  using assms by (simp add: ee_fill_def ee_read_writes_inside)

lemma ee_reads_writes_same:
  "n = length xs \<Longrightarrow> b + n \<le> length (ee_cells e) \<Longrightarrow> ee_reads b n (ee_writes b xs e) = xs"
  by (simp add: ee_reads_def ee_writes_def ee.read_write_same)

lemma ee_reads_writes_disjoint:
  "a + n \<le> b \<or> b + length xs \<le> a \<Longrightarrow> ee_reads a n (ee_writes b xs e) = ee_reads a n e"
  by (simp add: ee_reads_def ee_writes_def ee.read_write_disjoint)

lemma ee_reads_fill_disjoint:
  "a + n \<le> b \<or> b + k \<le> a \<Longrightarrow> ee_reads a n (ee_fill b k e) = ee_reads a n e"
  by (simp add: ee_fill_def ee_reads_writes_disjoint)

lemma ee_reads_write_other:
  "b < a \<or> a + n \<le> b \<Longrightarrow> ee_reads a n (ee_write b v e) = ee_reads a n e"
  unfolding ee_reads_def by (rule ee.read_list_cong) (auto simp: ee_read_write_other)

lemma ee_reads_cong:
  "(\<And>i. a \<le> i \<Longrightarrow> i < a + n \<Longrightarrow> ee_read i e = ee_read i e') \<Longrightarrow> ee_reads a n e = ee_reads a n e'"
  unfolding ee_reads_def by (rule ee.read_list_cong)

lemmas ee_frame = ee_read_write_other ee_read_writes_outside ee_read_fill_outside
  ee_reads_writes_disjoint ee_reads_fill_disjoint ee_reads_write_other

section \<open>The two interleaved key loops\<close>

lemma write_keys_fields:
  "length (ee_cells (write_keys p q e)) = length (ee_cells e) \<and> ee_init (write_keys p q e) = ee_init e
   \<and> ee_dev (write_keys p q e) = ee_dev e \<and> ee_flash (write_keys p q e) = ee_flash e
   \<and> ee_commitOk (write_keys p q e) = ee_commitOk e \<and> ee_dirty (write_keys p q e) = ee_dirty e
   \<and> ee_lastFlush (write_keys p q e) = ee_lastFlush e"
  unfolding write_keys_def by (rule fold_invariant) auto

text \<open>
  A loop that fills two disjoint ranges cell by cell, whatever it writes: inside a range the
  last value written stays, outside nothing changes.
\<close>

lemma two_range_loop:
  fixes f g :: "nat \<Rightarrow> byte"
  assumes "a + n \<le> b" and "b + n \<le> length (ee_cells e)"
  shows "ee_read x (fold (\<lambda>i e. ee_write (b + i) (g i) (ee_write (a + i) (f i) e)) [0..<n] e)
     = (if a \<le> x \<and> x < a + n then f (x - a)
        else if b \<le> x \<and> x < b + n then g (x - b) else ee_read x e)"
  using assms
proof (induction n)
  case 0
  show ?case by auto
next
  case (Suc n)
  let ?L = "fold (\<lambda>i e. ee_write (b + i) (g i) (ee_write (a + i) (f i) e)) [0..<n] e"
  have len: "length (ee_cells ?L) = length (ee_cells e)"
    by (rule fold_invariant) auto
  have IH: "ee_read x ?L = (if a \<le> x \<and> x < a + n then f (x - a)
        else if b \<le> x \<and> x < b + n then g (x - b) else ee_read x e)"
    using Suc by simp
  consider "x = b + n" | "x = a + n" | "x \<noteq> b + n" "x \<noteq> a + n" by blast
  then show ?case
  proof cases
    case 1
    then show ?thesis using Suc.prems len by (simp add: ee_read_write_same)
  next
    case 2
    then show ?thesis using Suc.prems len by (simp add: ee_read_write_same ee_read_write_other)
  next
    case 3
    then show ?thesis using Suc.prems IH by (auto simp: ee_read_write_other)
  qed
qed

lemma ee_read_write_keys:
  assumes "length (ee_cells e) = TOTAL_SIZE"
  shows "ee_read x (write_keys p q e)
     = (if PRIVATE_KEY \<le> x \<and> x < PRIVATE_KEY + 32 then p ! (x - PRIVATE_KEY)
        else if PUBLIC_KEY \<le> x \<and> x < PUBLIC_KEY + 32 then q ! (x - PUBLIC_KEY) else ee_read x e)"
  unfolding write_keys_def by (rule two_range_loop) (simp_all add: assms)

lemma ee_reads_write_keys:
  assumes "length (ee_cells e) = TOTAL_SIZE" "length p = 32" "length q = 32"
  shows "ee_reads PRIVATE_KEY 32 (write_keys p q e) = p" "ee_reads PUBLIC_KEY 32 (write_keys p q e) = q"
  by (rule nth_equalityI; simp add: assms ee_reads_def ee_read_write_keys)+

end
