(* ===== verification/Mesh_Lemmas.thy ===== *)
theory Mesh_Lemmas
  imports Mesh_Ops Eeprom_Lemmas
begin

text \<open>
  What the operations of \<open>Mesh_Ops\<close> leave alone: frame lemmas for the three parts of the device
  state and for the run status, and the preservation of \<open>mesh_wf\<close>.
\<close>

section \<open>State parts\<close>

lemma on_mesh_simps [simp]:
  "mesh (on_mesh f s) = f (mesh s)" "ee (on_mesh f s) = ee s" "espPeers (on_mesh f s) = espPeers s"
  "status (on_mesh f s) = status s" "now (on_mesh f s) = now s" "out (on_mesh f s) = out s"
  by (simp_all add: on_mesh_def)

lemma on_ee_simps [simp]:
  "ee (on_ee f s) = f (ee s)" "mesh (on_ee f s) = mesh s" "espPeers (on_ee f s) = espPeers s"
  "status (on_ee f s) = status s" "now (on_ee f s) = now s" "out (on_ee f s) = out s"
  by (simp_all add: on_ee_def)

lemma node_more_fields:
  assumes "node.more s' = node.more s"
  shows "mesh s' = mesh s" "ee s' = ee s" "espPeers s' = espPeers s"
    "meshnode.more s' = meshnode.more s"
  using assms by (cases s; cases s'; simp)+

lemma fail_fields [simp]:
  "mesh (fail t m sub s) = mesh s" "ee (fail t m sub s) = ee s"
  "espPeers (fail t m sub s) = espPeers s"
  by (rule node_more_fields; simp)+

lemma emit_fields [simp]:
  "mesh (emit e s) = mesh s" "ee (emit e s) = ee s" "espPeers (emit e s) = espPeers s"
  by (rule node_more_fields; simp)+

lemma halt_fields [simp]:
  "mesh (fault s) = mesh s" "ee (fault s) = ee s" "espPeers (fault s) = espPeers s"
  "mesh (hang s) = mesh s" "ee (hang s) = ee s" "espPeers (hang s) = espPeers s"
  by (rule node_more_fields; simp)+

lemma signalError_fields [simp]:
  "mesh (signalError t m sub s) = mesh s" "ee (signalError t m sub s) = ee s"
  "espPeers (signalError t m sub s) = espPeers s"
  by (rule node_more_fields; simp)+

lemma fatal_fields [simp]:
  "mesh (fatal t m sub s) = mesh s" "ee (fatal t m sub s) = ee s"
  by (simp_all add: fatal_def andthen_def Let_def)

lemma fail_type_fields [simp]:
  "mesh (fail_type t s) = mesh s" "ee (fail_type t s) = ee s" "espPeers (fail_type t s) = espPeers s"
  by (simp_all add: fail_type_def)

lemma check_esp_fields [simp]:
  "mesh (check_esp ok t s) = mesh s" "ee (check_esp ok t s) = ee s"
  "espPeers (check_esp ok t s) = espPeers s"
  by (simp_all add: check_esp_def)

lemma check_esp_comm_status [simp]: "status (check_esp ok E_COMMUNICATION_FAIL s) = status s"
  by (simp add: check_esp_def fail_type_def)

lemma radio_log_parts [simp]:
  "radio_log (on_mesh f s) = radio_log s" "radio_log (on_ee g s) = radio_log s"
  "radio_log (s\<lparr>mesh := m\<rparr>) = radio_log s" "radio_log (s\<lparr>ee := e\<rparr>) = radio_log s"
  "radio_log (s\<lparr>espPeers := ps\<rparr>) = radio_log s"
  by (rule radio_log_cong; simp)+

lemma radio_log_check_esp [simp]: "radio_log (check_esp ok t s) = radio_log s"
  by (simp add: check_esp_def fail_type_def)

section \<open>Sending\<close>

lemma esp_now_send_fields [simp]:
  "mesh (esp_now_send E a m s) = mesh s" "ee (esp_now_send E a m s) = ee s"
  "espPeers (esp_now_send E a m s) = espPeers s" "status (esp_now_send E a m s) = status s"
  by (simp_all add: esp_now_send_def)

lemma sendMessage_fields [simp]:
  "mesh (sendMessage E a m s) = mesh s" "ee (sendMessage E a m s) = ee s"
  "espPeers (sendMessage E a m s) = espPeers s" "status (sendMessage E a m s) = status s"
  by (simp_all add: sendMessage_def)

lemma send_to_peers_frame:
  assumes "\<And>a t. h (sendMessage E a msg t) = h t"
  shows "h (send_to_peers E msg s) = h s"
  unfolding send_to_peers_def by (rule fold_frame) (simp add: assms)

lemma send_to_peers_fields [simp]:
  "mesh (send_to_peers E msg s) = mesh s" "ee (send_to_peers E msg s) = ee s"
  "espPeers (send_to_peers E msg s) = espPeers s" "status (send_to_peers E msg s) = status s"
  by (rule send_to_peers_frame, simp)+

lemma broadcastToAllPeers_fields [simp]:
  "mesh (broadcastToAllPeers E msg s) = mesh s" "ee (broadcastToAllPeers E msg s) = ee s"
  "status (broadcastToAllPeers E msg s) = status s"
  by (simp_all add: broadcastToAllPeers_def)

lemma relayDownlink_fields [simp]:
  "mesh (relayDownlink E msg s) = mesh s" "ee (relayDownlink E msg s) = ee s"
  "espPeers (relayDownlink E msg s) = espPeers s" "status (relayDownlink E msg s) = status s"
  by (simp_all add: relayDownlink_def)

lemma route_message_fields [simp]:
  "mesh (route_message E t msg s) = mesh s" "ee (route_message E t msg s) = ee s"
  "status (route_message E t msg s) = status s"
  by (simp_all add: route_message_def Let_def split: option.split)

lemma transmitCore_Some_fields [simp]:
  "mesh (transmitCore E t d k (Some m) s) = mesh s" "ee (transmitCore E t d k (Some m) s) = ee s"
  "status (transmitCore E t d k (Some m) s) = status s"
  by (simp_all add: transmitCore_def)

text \<open>The destinations of the loop over the peer table: every entry but the node itself.\<close>

definition other_peers :: "mesh_state \<Rightarrow> mac list" where
  "other_peers m = filter (\<lambda>a. a \<noteq> deviceMac m) (map peerMac (peers m))"

lemma send_fold_out:
  assumes "\<And>a. send_ok E a (message_bytes msg)"
  shows "out (fold (\<lambda>p t. if peerMac p = deviceMac (mesh t) then t
                           else sendMessage E (peerMac p) msg t) ps s) =
    out s @ map (\<lambda>a. RadioSend a (message_bytes msg))
      (filter (\<lambda>a. a \<noteq> deviceMac (mesh s)) (map peerMac ps))"
  by (induction ps arbitrary: s) (simp_all add: sendMessage_def esp_now_send_def assms)

lemma send_to_peers_out:
  assumes "\<And>a. send_ok E a (message_bytes msg)"
  shows "out (send_to_peers E msg s) =
    out s @ map (\<lambda>a. RadioSend a (message_bytes msg)) (other_peers (mesh s))"
  unfolding send_to_peers_def other_peers_def using assms by (rule send_fold_out)

section \<open>Handlers and the parts of the mesh state\<close>

lemma tofu_check_cases:
  assumes "tofu_check msg s = Some s1"
  shows "status s1 = status s" "now s1 = now s" "out s1 = out s" "espPeers s1 = espPeers s"
    "\<exists>k h ks hs. mesh s1 = (mesh s)\<lparr>knownMasterMac := k, hasMasterMac := h,
        knownMasterMacSecondary := ks, hasMasterMacSecondary := hs\<rparr>"
proof -
  have upd: "\<exists>k h ks hs. m\<lparr>knownMasterMac := a, hasMasterMac := b\<rparr> =
      m\<lparr>knownMasterMac := k, hasMasterMac := h, knownMasterMacSecondary := ks,
         hasMasterMacSecondary := hs\<rparr>" for a b and m :: mesh_state
    by (cases m) auto
  show "status s1 = status s" "now s1 = now s" "out s1 = out s" "espPeers s1 = espPeers s"
    using assms by (auto simp: tofu_check_def Let_def split: if_splits)
  show "\<exists>k h ks hs. mesh s1 = (mesh s)\<lparr>knownMasterMac := k, hasMasterMac := h,
        knownMasterMacSecondary := ks, hasMasterMacSecondary := hs\<rparr>"
    using assms by (cases "mesh s") (auto simp: tofu_check_def Let_def split: if_splits)
qed

lemma multi_master_check_fields [simp]:
  "mesh (multi_master_check msg s) = mesh s" "ee (multi_master_check msg s) = ee s"
  "status (multi_master_check msg s) = status s"
  "espPeers (multi_master_check msg s) = espPeers s"
  by (simp_all add: multi_master_check_def)

lemma schedule_relay_fields [simp]:
  "ee (schedule_relay E msg s) = ee s" "status (schedule_relay E msg s) = status s"
  "espPeers (schedule_relay E msg s) = espPeers s" "out (schedule_relay E msg s) = out s"
  by (simp_all add: schedule_relay_def Let_def)

text \<open>A part of the mesh state that no beacon handler writes.\<close>

definition beacon_frame :: "(mesh_state \<Rightarrow> 'b) \<Rightarrow> bool" where
  "beacon_frame h \<longleftrightarrow> (\<forall>m k hm ks hs. h (m\<lparr>knownMasterMac := k, hasMasterMac := hm,
       knownMasterMacSecondary := ks, hasMasterMacSecondary := hs\<rparr>) = h m)
     \<and> (\<forall>m l r. h (m\<lparr>lastSeenMasterMac := l, lastMasterBeaconReceivedMs := r\<rparr>) = h m)
     \<and> (\<forall>m c. h (m\<lparr>currentMaster := c\<rparr>) = h m)
     \<and> (\<forall>m e q p a b. h (m\<lparr>lastRelayedEpoch := e, lastRelayedSeqNum := q, relayPendingMsg := p,
          relayPendingAt := a, relayPending := b\<rparr>) = h m)"

lemma processMasterBeacon_frame:
  assumes "beacon_frame h"
  shows "h (mesh (processMasterBeacon E msg s)) = h (mesh s)"
proof (cases "tofu_check msg s")
  case None
  then show ?thesis by (simp add: processMasterBeacon_def)
next
  case (Some s1)
  have "h (mesh s1) = h (mesh s)"
    using tofu_check_cases(5) [OF Some] assms by (auto simp: beacon_frame_def)
  with Some assms show ?thesis
    by (simp add: processMasterBeacon_def Let_def schedule_relay_def update_route_def
        beacon_frame_def)
qed

lemma processMasterBeacon_status [simp]:
  "status (processMasterBeacon E msg s) = status s"
  by (auto simp: processMasterBeacon_def Let_def tofu_check_cases split: option.split)

lemma processJoinAck_fields [simp]:
  "status (processJoinAck E msg s) = status s" "espPeers (processJoinAck E msg s) = espPeers s"
  by (simp_all add: processJoinAck_def Let_def)

lemma processJoinAck_frame:
  assumes "\<And>m k. h (m\<lparr>knownMasterMac := k, hasMasterMac := True\<rparr>) = h m"
  shows "h (mesh (processJoinAck E msg s)) = h (mesh s)"
  by (simp add: processJoinAck_def Let_def assms)

lemma updatePeerLastSeen_frame:
  assumes "\<And>m p. h (m\<lparr>peerMacs := p\<rparr>) = h m"
  shows "h (updatePeerLastSeen t a m) = h m"
  by (simp add: updatePeerLastSeen_def assms split: option.split)

lemma isReplay_frame:
  assumes "\<And>m p i. h (m\<lparr>replayCache := p, replayCacheIdx := i\<rparr>) = h m"
  shows "h (snd (isReplay msg m)) = h m"
  by (simp add: isReplay_def assms)

lemma replay_filter_frame:
  assumes "\<And>m p i. h (m\<lparr>replayCache := p, replayCacheIdx := i\<rparr>) = h m"
  shows "h (snd (replay_filter msg m)) = h m"
  by (simp add: replay_filter_def isReplay_frame [where h = h, OF assms])

end
