(* ===== verification/Bounded_Queue.thy ===== *)
theory Bounded_Queue
  imports Prelude
begin

text \<open>
  The contract of a bounded queue between one producer and one consumer, and what a client may
  conclude from it. The provider is the receive ring of \<open>Mesh\<close> (theory \<open>Mesh_Ring\<close>).
\<close>

datatype 'a queue_op = Enq 'a | Deq

text \<open>An operation sequence on an implementation, and on the list it stands for.\<close>

fun queue_run :: "('a \<Rightarrow> 's \<Rightarrow> 's) \<Rightarrow> ('s \<Rightarrow> ('a \<times> 's) option) \<Rightarrow> 'a queue_op list \<Rightarrow> 's
    \<Rightarrow> 'a list \<times> 's" where
  "queue_run enq deq [] s = ([], s)"
| "queue_run enq deq (Enq x # ops) s = queue_run enq deq ops (enq x s)"
| "queue_run enq deq (Deq # ops) s =
     (case deq s of
        None \<Rightarrow> queue_run enq deq ops s
      | Some (x, s') \<Rightarrow> (let (d, s'') = queue_run enq deq ops s' in (x # d, s'')))"

fun fifo_run :: "nat \<Rightarrow> 'a queue_op list \<Rightarrow> 'a list \<Rightarrow> 'a list \<times> 'a list" where
  "fifo_run cap [] q = ([], q)"
| "fifo_run cap (Enq x # ops) q = fifo_run cap ops (if length q < cap then q @ [x] else q)"
| "fifo_run cap (Deq # ops) [] = fifo_run cap ops []"
| "fifo_run cap (Deq # ops) (x # q) = (let (d, q') = fifo_run cap ops q in (x # d, q'))"

text \<open>The elements offered, in order.\<close>

fun offered :: "'a queue_op list \<Rightarrow> 'a list" where
  "offered [] = []"
| "offered (Enq x # ops) = x # offered ops"
| "offered (Deq # ops) = offered ops"

lemma fifo_run_bounded: "length q \<le> cap \<Longrightarrow> length (snd (fifo_run cap ops q)) \<le> cap"
  by (induction cap ops q rule: fifo_run.induct) (auto split: prod.splits)

text \<open>With room for everything offered, nothing is lost and the order is kept.\<close>

lemma fifo_run_lossless:
  "length q + length (offered ops) \<le> cap \<Longrightarrow>
     fst (fifo_run cap ops q) @ snd (fifo_run cap ops q) = q @ offered ops"
  by (induction cap ops q rule: fifo_run.induct) (auto split: prod.splits)

locale bounded_queue =
  fixes cap :: nat
    and wf :: "'s \<Rightarrow> bool"
    and valid :: "'a \<Rightarrow> bool"
    and content :: "'s \<Rightarrow> 'a list"
    and enq :: "'a \<Rightarrow> 's \<Rightarrow> 's"
    and deq :: "'s \<Rightarrow> ('a \<times> 's) option"
  assumes enq_wf: "wf s \<Longrightarrow> valid x \<Longrightarrow> wf (enq x s)"
    and enq_content: "wf s \<Longrightarrow> valid x \<Longrightarrow>
      content (enq x s) = (if length (content s) < cap then content s @ [x] else content s)"
    and deq_empty: "wf s \<Longrightarrow> deq s = None \<Longrightarrow> content s = []"
    and deq_front: "wf s \<Longrightarrow> deq s = Some (x, s') \<Longrightarrow> content s = x # content s'"
    and deq_wf: "wf s \<Longrightarrow> deq s = Some (x, s') \<Longrightarrow> wf s'"
begin

lemma refines_fifo:
  assumes "wf s" and "\<forall>x \<in> set (offered ops). valid x" and "queue_run enq deq ops s = (d, s')"
  shows "fifo_run cap ops (content s) = (d, content s') \<and> wf s'"
  using assms
proof (induction ops arbitrary: s d s')
  case Nil
  then show ?case by simp
next
  case (Cons op ops)
  show ?case
  proof (cases op)
    case (Enq x)
    with Cons.prems have v: "valid x" and r: "queue_run enq deq ops (enq x s) = (d, s')"
      and o: "\<forall>y \<in> set (offered ops). valid y" by simp_all
    from Cons.IH [OF enq_wf [OF Cons.prems(1) v] o r] Enq show ?thesis
      by (simp add: enq_content [OF Cons.prems(1) v])
  next
    case Deq
    then have o: "\<forall>y \<in> set (offered ops). valid y" using Cons.prems(2) by simp
    show ?thesis
    proof (cases "deq s")
      case None
      with Cons.prems(3) Deq have r: "queue_run enq deq ops s = (d, s')" by simp
      from Cons.IH [OF Cons.prems(1) o r] Deq deq_empty [OF Cons.prems(1) None] show ?thesis
        by simp
    next
      case (Some p)
      then obtain x t where p: "deq s = Some (x, t)" by (cases p) auto
      obtain d' t' where r: "queue_run enq deq ops t = (d', t')"
        by (cases "queue_run enq deq ops t")
      with Cons.prems(3) Deq p have d: "d = x # d'" "s' = t'" by simp_all
      from Cons.IH [OF deq_wf [OF Cons.prems(1) p] o r] show ?thesis
        using Deq deq_front [OF Cons.prems(1) p] d by simp
    qed
  qed
qed

lemma lossless:
  assumes "wf s" and "\<forall>x \<in> set (offered ops). valid x" and "queue_run enq deq ops s = (d, s')"
    and "length (content s) + length (offered ops) \<le> cap"
  shows "d @ content s' = content s @ offered ops"
  using refines_fifo [OF assms(1-3)] fifo_run_lossless [OF assms(4)] by simp

end

end
