(* ===== verification/Mesh_Ring.thy ===== *)
theory Mesh_Ring
  imports Mesh_Lemmas Bounded_Queue
begin

text \<open>
  The ESP-NOW receive ring of \<open>Mesh\<close>: eight slots, one producer (the Wi-Fi task) and one
  consumer (the main loop). The interpretation discharges the queue contract with seven places.
\<close>

definition ring_wf :: "mesh_state \<Rightarrow> bool" where
  "ring_wf m \<longleftrightarrow> length (recvQueue m) = RECV_QUEUE_SIZE \<and> recvQueueHead m < RECV_QUEUE_SIZE
     \<and> recvQueueTail m < RECV_QUEUE_SIZE"

definition ring_count :: "mesh_state \<Rightarrow> nat" where
  "ring_count m = (recvQueueHead m + RECV_QUEUE_SIZE - recvQueueTail m) mod RECV_QUEUE_SIZE"

definition ring_content :: "mesh_state \<Rightarrow> RecvQueueEntry list" where
  "ring_content m =
     map (\<lambda>i. recvQueue m ! ((recvQueueTail m + i) mod RECV_QUEUE_SIZE)) [0..<ring_count m]"

definition ring_enq :: "RecvQueueEntry \<Rightarrow> mesh_state \<Rightarrow> mesh_state" where
  "ring_enq e = onDataRecvCallback (Some (srcMac e)) (Some (message_bytes (qmsg e)))"

definition ring_deq :: "mesh_state \<Rightarrow> (RecvQueueEntry \<times> mesh_state) option" where
  "ring_deq m = map_option (\<lambda>(i, m'). (recvQueue m' ! i, m')) (takeEntry m)"

lemma mesh_wf_ring_wf: "mesh_wf m \<Longrightarrow> ring_wf m"
  by (simp add: mesh_wf_def ring_wf_def)

lemma mod8: "(x :: nat) < 16 \<Longrightarrow> x mod 8 = (if x < 8 then x else x - 8)"
  by (simp add: mod_if)

lemma ring_full_arith:
  fixes h t :: nat
  assumes "h < 8" "t < 8"
  shows "(h + 1) mod 8 = t \<longleftrightarrow> \<not> (h + 8 - t) mod 8 < 7"
  using assms by (simp add: mod8) arith

lemma ring_push_arith:
  fixes h t :: nat
  assumes "h < 8" "t < 8" "(h + 1) mod 8 \<noteq> t"
  shows "((h + 1) mod 8 + 8 - t) mod 8 = Suc ((h + 8 - t) mod 8)"
    "(t + (h + 8 - t) mod 8) mod 8 = h"
  using assms by (auto simp: mod8 split: if_splits)

lemma ring_push_slot:
  fixes h t :: nat
  assumes "h < 8" "t < 8" "i < (h + 8 - t) mod 8"
  shows "(t + i) mod 8 \<noteq> h"
proof -
  have "t + i < 16" using assms by (simp add: less_trans mod8 split: if_splits)
  with assms show ?thesis by (auto simp: mod8 split: if_splits)
qed

lemma ring_pop_count:
  fixes h t :: nat
  assumes "h < 8" "t < 8" "t \<noteq> h"
  shows "(h + 8 - t) mod 8 = Suc ((h + 8 - (t + 1) mod 8) mod 8)"
  using assms by (auto simp: mod8 split: if_splits)

lemma ring_pop_slot: "((t + 1) mod 8 + i) mod 8 = (t + Suc i) mod (8::nat)"
  by (simp add: mod_simps)

lemma ring_enq_eq:
  assumes "message_wf (qmsg e)"
  shows "ring_enq e m =
    (if (recvQueueHead m + 1) mod RECV_QUEUE_SIZE = recvQueueTail m then m
     else m\<lparr>recvQueue := (recvQueue m)[recvQueueHead m := e],
            recvQueueHead := (recvQueueHead m + 1) mod RECV_QUEUE_SIZE\<rparr>)"
  using assms by (cases e) (simp add: ring_enq_def onDataRecvCallback_def Let_def)

lemma ring_enq_content:
  assumes wf: "ring_wf m" and e: "message_wf (qmsg e)"
  shows "ring_content (ring_enq e m) =
    (if length (ring_content m) < 7 then ring_content m @ [e] else ring_content m)"
proof (cases "(recvQueueHead m + 1) mod 8 = recvQueueTail m")
  case True
  with wf ring_full_arith show ?thesis
    by (auto simp: ring_enq_eq [OF e] ring_content_def ring_count_def ring_wf_def)
next
  case False
  define h t where "h = recvQueueHead m" and "t = recvQueueTail m"
  have b: "h < 8" "t < 8" "(h + 1) mod 8 \<noteq> t" "length (recvQueue m) = 8"
    using wf False by (simp_all add: ring_wf_def h_def t_def)
  have cnt: "(h + 8 - t) mod 8 < 7" using b ring_full_arith by blast
  have "map (\<lambda>i. (recvQueue m)[h := e] ! ((t + i) mod 8)) [0..<Suc ((h + 8 - t) mod 8)]
      = map (\<lambda>i. recvQueue m ! ((t + i) mod 8)) [0..<(h + 8 - t) mod 8] @ [e]"
    using b ring_push_arith(2) [OF b(1-3)] ring_push_slot [OF b(1,2), THEN not_sym]
    by (simp add: nth_list_update)
  then show ?thesis
    using False b ring_push_arith(1) [OF b(1-3)] cnt
    by (simp add: ring_enq_eq [OF e] ring_content_def ring_count_def flip: h_def t_def)
qed

lemma ring_deq_cases:
  "ring_deq m = Some (x, m') \<longleftrightarrow> recvQueueTail m \<noteq> recvQueueHead m
     \<and> x = recvQueue m ! recvQueueTail m
     \<and> m' = m\<lparr>recvQueueTail := (recvQueueTail m + 1) mod RECV_QUEUE_SIZE\<rparr>"
  by (auto simp: ring_deq_def takeEntry_def)

lemma ring_deq_content:
  assumes wf: "ring_wf m" and d: "ring_deq m = Some (x, m')"
  shows "ring_content m = x # ring_content m'"
proof -
  define h t where "h = recvQueueHead m" and "t = recvQueueTail m"
  have b: "h < 8" "t < 8" "t \<noteq> h"
    using wf d by (simp_all add: ring_wf_def ring_deq_cases h_def t_def)
  have "map (\<lambda>i. recvQueue m ! ((t + i) mod 8)) [0..<Suc n] =
      recvQueue m ! t # map (\<lambda>i. recvQueue m ! (((t + 1) mod 8 + i) mod 8)) [0..<n]" for n
    using b ring_pop_slot [of t]
    by (simp add: map_upt_Suc del: upt_Suc)
  then show ?thesis
    using d ring_pop_count [OF b]
    by (simp add: ring_deq_cases ring_content_def ring_count_def flip: h_def t_def)
qed

interpretation rq: bounded_queue 7 ring_wf "\<lambda>e. message_wf (qmsg e)" ring_content ring_enq ring_deq
proof
  fix m :: mesh_state and e :: RecvQueueEntry
  assume wf: "ring_wf m" and e: "message_wf (qmsg e)"
  show "ring_wf (ring_enq e m)"
    using wf by (simp add: ring_enq_eq [OF e] ring_wf_def)
  show "ring_content (ring_enq e m) =
      (if length (ring_content m) < 7 then ring_content m @ [e] else ring_content m)"
    using wf e by (rule ring_enq_content)
next
  fix m :: mesh_state
  assume "ring_wf m" and "ring_deq m = None"
  then show "ring_content m = []"
    by (auto simp: ring_deq_def takeEntry_def ring_content_def ring_count_def split: if_splits)
next
  fix m m' :: mesh_state and x :: RecvQueueEntry
  assume wf: "ring_wf m" and d: "ring_deq m = Some (x, m')"
  show "ring_content m = x # ring_content m'" using wf d by (rule ring_deq_content)
  show "ring_wf m'" using wf d by (simp add: ring_wf_def ring_deq_cases)
qed

section \<open>The slot the consumer is reading\<close>

definition callbacks :: "(mac option \<times> byte list option) list \<Rightarrow> mesh_state \<Rightarrow> mesh_state" where
  "callbacks = fold (\<lambda>(src, bs). onDataRecvCallback src bs)"

lemma onDataRecvCallback_slot:
  assumes "ring_wf m" "recvQueueTail m = (i + 1) mod RECV_QUEUE_SIZE" "i < RECV_QUEUE_SIZE"
  shows "recvQueue (onDataRecvCallback src bs m) ! i = recvQueue m ! i"
    "ring_wf (onDataRecvCallback src bs m)"
    "recvQueueTail (onDataRecvCallback src bs m) = recvQueueTail m"
  using assms
  by (auto simp: onDataRecvCallback_def ring_wf_def Let_def nth_list_update split: option.split)

lemma callbacks_slot:
  assumes "ring_wf m" "recvQueueTail m = (i + 1) mod RECV_QUEUE_SIZE" "i < RECV_QUEUE_SIZE"
  shows "recvQueue (callbacks frames m) ! i = recvQueue m ! i"
  using assms
proof (induction frames arbitrary: m)
  case Nil
  then show ?case by (simp add: callbacks_def)
next
  case (Cons f frames)
  obtain src bs where f: "f = (src, bs)" by (cases f)
  note s = onDataRecvCallback_slot [OF Cons.prems, of src bs]
  from Cons.IH [OF s(2)] s(1,3) Cons.prems show ?case by (simp add: callbacks_def f)
qed

end
