(* ===== verification/Mesh_Replay.thy ===== *)
theory Mesh_Replay
  imports Mesh_Lemmas
begin

text \<open>
  The replay cache as a window of the last sixteen accepted messages: the ring buffer
  \<open>replayCache\<close> with its write index stands for a list, newest entry first.
\<close>

section \<open>Abstraction\<close>

definition replay_id :: "mesh_message \<Rightarrow> ReplayEntry" where
  "replay_id msg = \<lparr>rmac = originMac msg, repoch = epochNum msg, rseq = seqNum msg\<rparr>"

definition replay_recent :: "mesh_state \<Rightarrow> ReplayEntry list" where
  "replay_recent m =
     map (\<lambda>i. replayCache m ! ((replayCacheIdx m + 15 - i) mod 16)) [0..<REPLAY_CACHE_SIZE]"

definition cache_wf :: "mesh_state \<Rightarrow> bool" where
  "cache_wf m \<longleftrightarrow> length (replayCache m) = REPLAY_CACHE_SIZE \<and> replayCacheIdx m < REPLAY_CACHE_SIZE"

text \<open>The messages of a sequence that pass the filter, and the state after it.\<close>

fun replay_run :: "mesh_message list \<Rightarrow> mesh_state \<Rightarrow> mesh_message list \<times> mesh_state" where
  "replay_run [] m = ([], m)"
| "replay_run (x # xs) m =
     (let (rejected, m1) = replay_filter x m;
          (acc, m2) = replay_run xs m1
      in (if rejected then acc else x # acc, m2))"

definition replay_checked :: "mesh_message \<Rightarrow> bool" where
  "replay_checked msg \<longleftrightarrow> protoVersion msg = PROTO_VERSION \<and> epochNum msg > 0"

section \<open>The ring is the window\<close>

lemma mesh_wf_cache_wf: "mesh_wf m \<Longrightarrow> cache_wf m"
  by (simp add: mesh_wf_def cache_wf_def)

lemma replay_match_id: "replay_match msg r \<longleftrightarrow> r = replay_id msg"
  by (cases r) (auto simp: replay_match_def replay_id_def)

lemma mod16: "(x :: nat) < 32 \<Longrightarrow> x mod 16 = (if x < 16 then x else x - 16)"
  by (simp add: mod_if)

lemma window_index_surj:
  assumes "k < 16" "idx < 16"
  shows "\<exists>i < 16. (idx + 15 - i) mod 16 = (k::nat)"
proof (cases "k < idx")
  case True
  then show ?thesis using assms by (intro exI [of _ "idx - 1 - k"]) (auto simp: mod16)
next
  case False
  then show ?thesis using assms by (intro exI [of _ "idx + 15 - k"]) (auto simp: mod16)
qed

lemma set_replay_recent:
  assumes "cache_wf m"
  shows "set (replay_recent m) = set (replayCache m)"
proof
  show "set (replay_recent m) \<subseteq> set (replayCache m)"
    using assms by (auto simp: replay_recent_def cache_wf_def)
  show "set (replayCache m) \<subseteq> set (replay_recent m)"
  proof
    fix r
    assume "r \<in> set (replayCache m)"
    then obtain k where k: "k < 16" "r = replayCache m ! k"
      using assms by (auto simp: in_set_conv_nth cache_wf_def)
    obtain i where "i < 16" "(replayCacheIdx m + 15 - i) mod 16 = k"
      using window_index_surj [OF k(1)] assms unfolding cache_wf_def by blast
    then show "r \<in> set (replay_recent m)" by (auto simp: replay_recent_def k(2))
  qed
qed

lemma isReplay_rejects:
  "cache_wf m \<Longrightarrow> fst (isReplay msg m) \<longleftrightarrow> replay_id msg \<in> set (replay_recent m)"
  by (auto simp: isReplay_def set_replay_recent list_ex_iff replay_match_id)

lemma window_shift:
  assumes "idx < 16" "i < 15"
  shows "((idx + 1) mod 16 + 15 - Suc i) mod 16 = (idx + 15 - i) mod (16::nat)"
    "(idx + 15 - i) mod 16 \<noteq> idx" "((idx + 1) mod 16 + 15) mod 16 = idx"
  using assms by (auto simp: mod16 split: if_splits)

lemma isReplay_accepts:
  assumes wf: "cache_wf m" and acc: "\<not> fst (isReplay msg m)"
  shows "replay_recent (snd (isReplay msg m)) = take 16 (replay_id msg # replay_recent m)"
    "cache_wf (snd (isReplay msg m))"
proof -
  let ?idx = "replayCacheIdx m"
  let ?c = "(replayCache m)[?idx := replay_id msg]"
  have m': "snd (isReplay msg m) =
      m\<lparr>replayCache := ?c, replayCacheIdx := (?idx + 1) mod 16\<rparr>"
    using acc by (auto simp: isReplay_def replay_id_def)
  have wf': "?idx < 16" "length (replayCache m) = 16"
    using wf by (simp_all add: cache_wf_def)
  show "cache_wf (snd (isReplay msg m))" using wf' by (simp add: m' cache_wf_def)
  show "replay_recent (snd (isReplay msg m)) = take 16 (replay_id msg # replay_recent m)"
  proof (rule nth_equalityI)
    fix i
    assume "i < length (replay_recent (snd (isReplay msg m)))"
    then have i: "i < 16" by (simp add: replay_recent_def)
    show "replay_recent (snd (isReplay msg m)) ! i =
        take 16 (replay_id msg # replay_recent m) ! i"
    proof (cases i)
      case 0
      have "((?idx + 1) mod 16 + 15) mod 16 = ?idx"
        using window_shift(3) [OF wf'(1), of 0] by simp
      with 0 wf' show ?thesis by (simp add: replay_recent_def m' del: upt_Suc)
    next
      case (Suc j)
      with i have j: "j < 15" by simp
      show ?thesis
        using Suc j wf' window_shift(1,2) [OF wf'(1) j]
        by (simp add: replay_recent_def m' nth_list_update del: upt_Suc)
    qed
  qed (simp add: replay_recent_def)
qed

lemma replay_filter_step:
  assumes "cache_wf m"
  shows "cache_wf (snd (replay_filter msg m))"
    "fst (replay_filter msg m) \<longleftrightarrow> replay_checked msg \<and> replay_id msg \<in> set (replay_recent m)"
    "replay_recent (snd (replay_filter msg m)) =
       (if replay_checked msg \<and> replay_id msg \<notin> set (replay_recent m)
        then take 16 (replay_id msg # replay_recent m) else replay_recent m)"
proof -
  have rej: "snd (isReplay msg m) = m" if "fst (isReplay msg m)"
    using that by (cases "list_ex (replay_match msg) (replayCache m)") (simp_all add: isReplay_def)
  show "cache_wf (snd (replay_filter msg m))"
    using assms isReplay_accepts(2) [OF assms] rej
    by (cases "fst (isReplay msg m)") (auto simp: replay_filter_def)
  show "fst (replay_filter msg m) \<longleftrightarrow> replay_checked msg \<and> replay_id msg \<in> set (replay_recent m)"
    using isReplay_rejects [OF assms, of msg] by (auto simp: replay_filter_def replay_checked_def)
  show "replay_recent (snd (replay_filter msg m)) =
       (if replay_checked msg \<and> replay_id msg \<notin> set (replay_recent m)
        then take 16 (replay_id msg # replay_recent m) else replay_recent m)"
  proof (cases "replay_checked msg")
    case True
    then have f: "replay_filter msg m = isReplay msg m"
      by (simp add: replay_filter_def replay_checked_def)
    show ?thesis
    proof (cases "fst (isReplay msg m)")
      case rejected: True
      with rej have "snd (isReplay msg m) = m" by simp
      with rejected True show ?thesis using isReplay_rejects [OF assms, of msg] by (simp add: f)
    next
      case False
      with True show ?thesis
        using isReplay_rejects [OF assms, of msg] isReplay_accepts(1) [OF assms False]
        by (simp only: f simp_thms if_True)
    qed
  next
    case False
    then have "snd (replay_filter msg m) = m"
      by (auto simp: replay_filter_def replay_checked_def)
    with False show ?thesis by simp
  qed
qed

lemma take_take_append: "take n (xs @ take n ys) = take n (xs @ ys)"
  by (simp add: min_def)

lemma take_window: "take 16 (xs @ y # take 15 ys) = take 16 (xs @ y # ys)"
  using take_take_append [of 16 xs "y # ys"] by (simp del: take_append)

lemma replay_run_result:
  assumes "cache_wf m" and "replay_run xs m = (acc, m')"
  shows "cache_wf m' \<and> replay_recent m' =
      take 16 (map replay_id (rev (filter replay_checked acc)) @ replay_recent m)"
  using assms
proof (induction xs arbitrary: m acc m')
  case Nil
  then show ?case by (simp add: replay_recent_def)
next
  case (Cons x xs)
  obtain rejected m1 where f: "replay_filter x m = (rejected, m1)"
    by (cases "replay_filter x m")
  obtain acc1 m2 where r: "replay_run xs m1 = (acc1, m2)"
    by (cases "replay_run xs m1")
  have acc: "acc = (if rejected then acc1 else x # acc1)" "m2 = m'"
    using Cons.prems(2) f r by auto
  note step = replay_filter_step [OF Cons.prems(1), of x, unfolded f fst_conv snd_conv]
  from Cons.IH [OF step(1) r] acc show ?case
    by (cases "replay_checked x \<and> replay_id x \<notin> set (replay_recent m)")
      (simp_all add: step(2,3) take_window del: take_Suc_Cons take_append)
qed

end
