(* ===== verification/Mesh_Inv.thy ===== *)
theory Mesh_Inv
  imports Mesh_Ring Mesh_Replay
begin

text \<open>
  The invariant of a running node: array sizes and indices stay in range, a known route is one to
  ten hops long, and every frame handed to the radio is a whole message whose hop count is at most
  \<open>MAX_HOPS\<close>. Each operation keeps it; \<open>node_step\<close> collects what can happen to a node.
\<close>

section \<open>The invariant\<close>

definition route_wf :: "mesh_state \<Rightarrow> bool" where
  "route_wf m \<longleftrightarrow> (distance (currentMaster m) = 0xFF
       \<or> (1 \<le> distance (currentMaster m) \<and> distance (currentMaster m) \<le> MAX_HOPS))
     \<and> (relayPending m \<longrightarrow> hopCount (relayPendingMsg m) \<le> MAX_HOPS)"

definition mesh_ok :: "mesh_state \<Rightarrow> bool" where
  "mesh_ok m \<longleftrightarrow> mesh_wf m \<and> route_wf m"

definition frame_ok :: "mac \<times> byte list \<Rightarrow> bool" where
  "frame_ok f \<longleftrightarrow> length (snd f) = sizeof_message \<and> hopCount (message_of_bytes (snd f)) \<le> MAX_HOPS"

definition node_inv :: "'a meshnode_scheme \<Rightarrow> bool" where
  "node_inv s \<longleftrightarrow> mesh_ok (mesh s) \<and> list_all frame_ok (radio_log s)"

definition msg_ok :: "mesh_message \<Rightarrow> bool" where
  "msg_ok msg \<longleftrightarrow> message_wf msg \<and> hopCount msg \<le> MAX_HOPS"

lemma frame_ok_message: "msg_ok msg \<Longrightarrow> frame_ok (a, message_bytes msg)"
  by (simp add: frame_ok_def msg_ok_def)

lemma node_inv_mesh: "node_inv s \<Longrightarrow> mesh_ok (f (mesh s)) \<Longrightarrow> node_inv (on_mesh f s)"
  by (simp add: node_inv_def)

lemma node_inv_set_mesh: "node_inv s \<Longrightarrow> mesh_ok m \<Longrightarrow> node_inv (s\<lparr>mesh := m\<rparr>)"
  by (simp add: node_inv_def)

lemma node_inv_frames [simp]:
  "node_inv (on_ee g s) = node_inv s" "node_inv (s\<lparr>ee := e\<rparr>) = node_inv s"
  "node_inv (s\<lparr>espPeers := ps\<rparr>) = node_inv s"
  "node_inv (fail t k sub s) = node_inv s" "node_inv (fault s) = node_inv s"
  "node_inv (check_esp ok ty s) = node_inv s"
  by (simp_all add: node_inv_def)

lemma node_inv_delay [simp]: "node_inv (delay_ms d s) = node_inv s"
  by (simp add: node_inv_def delay_ms_def radio_log_def)

section \<open>Sending keeps it\<close>

lemma node_inv_esp_now_send [wf_intros]:
  "node_inv s \<Longrightarrow> msg_ok msg \<Longrightarrow> node_inv (esp_now_send E a msg s)"
  by (simp add: node_inv_def esp_now_send_def frame_ok_message)

lemma node_inv_sendMessage [wf_intros]:
  "node_inv s \<Longrightarrow> msg_ok msg \<Longrightarrow> node_inv (sendMessage E a msg s)"
  by (simp add: sendMessage_def wf_intros)

lemma node_inv_send_to_peers [wf_intros]:
  "node_inv s \<Longrightarrow> msg_ok msg \<Longrightarrow> node_inv (send_to_peers E msg s)"
  unfolding send_to_peers_def by (rule fold_invariant) (simp_all add: wf_intros)

lemma node_inv_broadcast [wf_intros]:
  "node_inv s \<Longrightarrow> msg_ok msg \<Longrightarrow> node_inv (broadcastToAllPeers E msg s)"
  by (simp add: broadcastToAllPeers_def wf_intros)

lemma msg_ok_target [simp]: "msg_ok (msg\<lparr>targetMac := a\<rparr>) = msg_ok msg"
  by (simp add: msg_ok_def message_wf_def)

lemma node_inv_route [wf_intros]:
  "node_inv s \<Longrightarrow> msg_ok msg \<Longrightarrow> node_inv (route_message E k msg s)"
  by (auto simp: route_message_def Let_def intro: wf_intros split: option.split)

lemma buildMessage_ok:
  assumes "buildMessage ty d k m = Some (msg, m')"
  shows "msg_ok msg" "mesh_ok m' = mesh_ok m" "hopCount msg = 0"
proof -
  obtain body where b: "length body = 64" and
    r: "msg = \<lparr>protoVersion = PROTO_VERSION, messageType = k, dataType = ty,
        originMac = deviceMac m, targetMac = (if k = MESH_TYPE_MASTER_BEACON then broadcast_mac
           else masterMac (currentMaster m)),
        lastHopMac = deviceMac m, msgData = body, hopCount = 0, epochNum = bootEpoch m,
        seqNum = txSeqNum m + 1, enrollmentPublicKey = replicate 32 0\<rparr>"
    "m' = m\<lparr>txSeqNum := txSeqNum m + 1\<rparr>"
  proof (cases d)
    case None
    with assms that [of "replicate 64 0"] show ?thesis by (simp add: buildMessage_def Let_def)
  next
    case (Some x)
    with assms that [of "take 64 x"] show ?thesis
      by (simp add: buildMessage_def Let_def split: if_splits)
  qed
  show "msg_ok msg" "hopCount msg = 0" by (simp_all add: r msg_ok_def message_wf_def b)
  show "mesh_ok m' = mesh_ok m" by (simp add: r mesh_ok_def mesh_wf_def route_wf_def)
qed

lemma buildMessage_inv:
  assumes "buildMessage ty d k (mesh s) = Some (msg, m')" and "node_inv s"
  shows "msg_ok msg" "node_inv (s\<lparr>mesh := m'\<rparr>)"
  using buildMessage_ok [OF assms(1)] assms(2) by (simp_all add: node_inv_def)

lemma node_inv_transmitCore [wf_intros]:
  assumes "node_inv s" and "\<And>m. ov = Some m \<Longrightarrow> msg_ok m"
  shows "node_inv (transmitCore E ty d k ov s)"
  using assms
  by (auto simp: transmitCore_def buildMessage_inv intro: node_inv_route split: option.split)

lemma node_inv_transmit [wf_intros]: "node_inv s \<Longrightarrow> node_inv (transmit E ty d s)"
  by (auto simp: transmit_def broadcastAdapterData_def buildMessage_inv
      intro!: node_inv_broadcast node_inv_transmitCore split: option.split)

lemma node_inv_beacon [wf_intros]:
  assumes "node_inv s"
  shows "node_inv (broadcastMasterBeacon E s)"
proof -
  have ok: "mesh_ok ((mesh s)\<lparr>lastBeaconMillis := now s\<rparr>)"
    using assms by (simp add: node_inv_def mesh_ok_def mesh_wf_def route_wf_def)
  have "node_inv (esp_now_send E broadcast_mac (m\<lparr>msgData := (msgData m)[0 := 1], hopCount := 0\<rparr>)
      (s\<lparr>mesh := ms\<rparr>))"
    if b: "buildMessage ty d k ((mesh s)\<lparr>lastBeaconMillis := now s\<rparr>) = Some (m, ms)"
    for ty d k m ms
    using buildMessage_ok [OF b] ok assms
    by (intro wf_intros node_inv_set_mesh) (simp_all add: msg_ok_def message_wf_def)
  with assms show ?thesis
    by (auto simp: broadcastMasterBeacon_def split: option.split)
qed

section \<open>Handlers keep it\<close>

lemma word_less_ten_cases:
  fixes h :: byte
  assumes "h < 10"
  shows "1 \<le> h + 1" "h + 1 \<le> 10"
  using assms unat_word_ariths(1) [of h 1]
  by (simp_all add: word_less_nat_alt word_le_nat_alt)

lemma hop_of_ok: "message_wf msg \<Longrightarrow> hopCount msg < MAX_HOPS \<Longrightarrow> msg_ok (hop_of msg m)"
  by (simp add: msg_ok_def hop_of_def message_wf_def word_less_ten_cases)

lemma node_inv_relayDownlink [wf_intros]:
  "node_inv s \<Longrightarrow> message_wf msg \<Longrightarrow> node_inv (relayDownlink E msg s)"
  by (auto simp: relayDownlink_def not_le intro!: wf_intros hop_of_ok)

lemma mesh_ok_masters:
  "mesh_ok (m\<lparr>knownMasterMac := k, hasMasterMac := h\<rparr>) = mesh_ok m"
  "mesh_ok (m\<lparr>knownMasterMacSecondary := k, hasMasterMacSecondary := h\<rparr>) = mesh_ok m"
  "mesh_ok (m\<lparr>knownMasterMac := k\<rparr>) = mesh_ok m"
  "mesh_ok (m\<lparr>lastSeenMasterMac := l, lastMasterBeaconReceivedMs := r\<rparr>) = mesh_ok m"
  by (simp_all add: mesh_ok_def mesh_wf_def route_wf_def)

lemma tofu_check_inv:
  "tofu_check msg s = Some s1 \<Longrightarrow> node_inv s \<Longrightarrow> node_inv s1"
  by (auto simp: tofu_check_def Let_def node_inv_def mesh_ok_masters split: if_splits)

lemma update_route_ok:
  assumes "mesh_ok m" and "hopCount msg < MAX_HOPS"
  shows "mesh_ok (update_route msg m)"
  using assms word_less_ten_cases [of "hopCount msg"]
  by (auto simp: update_route_def mesh_ok_def mesh_wf_def route_wf_def Let_def)

lemma schedule_relay_inv:
  assumes "node_inv s" "message_wf msg" "hopCount msg < MAX_HOPS"
  shows "node_inv (schedule_relay E msg s)"
  using assms word_less_ten_cases(2) [of "hopCount msg"]
  by (simp add: schedule_relay_def Let_def node_inv_def mesh_ok_def mesh_wf_def route_wf_def
      message_wf_def)

lemma node_inv_processMasterBeacon [wf_intros]:
  assumes inv: "node_inv s" and wf: "message_wf msg"
  shows "node_inv (processMasterBeacon E msg s)"
proof (cases "MAX_HOPS \<le> hopCount msg \<or> tofu_check msg s = None")
  case True
  with inv show ?thesis by (auto simp: processMasterBeacon_def)
next
  case False
  then obtain s1 where t: "tofu_check msg s = Some s1" and h: "hopCount msg < MAX_HOPS"
    by (auto simp: not_le)
  have "node_inv (multi_master_check msg s1)"
    using tofu_check_inv [OF t inv] by (simp add: multi_master_check_def)
  then have "node_inv (schedule_relay E msg (on_mesh (update_route msg)
      (on_mesh (\<lambda>m. m\<lparr>lastSeenMasterMac := originMac msg, lastMasterBeaconReceivedMs := r\<rparr>)
        (multi_master_check msg s1))))" for r
    by (intro schedule_relay_inv node_inv_mesh update_route_ok wf h)
      (simp_all add: mesh_ok_masters node_inv_def)
  with t h inv show ?thesis by (simp add: processMasterBeacon_def Let_def)
qed

definition keeps_inv :: "'a meshnode_scheme recv_callback \<Rightarrow> bool" where
  "keeps_inv cb \<longleftrightarrow> (\<forall>f msg s. cb = Some f \<longrightarrow> node_inv s \<longrightarrow> node_inv (f msg s))"

lemma node_inv_processAdapterData [wf_intros]:
  assumes inv: "node_inv s" and wf: "message_wf msg" and cb: "keeps_inv cb"
  shows "node_inv (processAdapterData cb E msg s)"
proof -
  have "node_inv (deliver_local cb E msg s)"
    using inv cb wf
    by (auto intro!: andthen_invariant [where P = node_inv] node_inv_relayDownlink
        simp: deliver_local_def keeps_inv_def split: option.split)
  with inv wf show ?thesis
    by (auto simp: processAdapterData_def Let_def not_le intro!: wf_intros hop_of_ok)
qed

lemma node_inv_processJoinAck [wf_intros]:
  "node_inv s \<Longrightarrow> message_wf msg \<Longrightarrow> node_inv (processJoinAck E msg s)"
  by (auto simp: processJoinAck_def Let_def intro!: wf_intros node_inv_mesh)
    (simp add: node_inv_def mesh_ok_masters)

lemma node_inv_processEnrollmentRequest [wf_intros]:
  "node_inv s \<Longrightarrow> message_wf msg \<Longrightarrow> node_inv (on_mesh (processEnrollmentRequest msg) s)"
  by (simp add: processEnrollmentRequest_def node_inv_def mesh_ok_def mesh_wf_def route_wf_def
      message_wf_def)

lemma node_inv_dispatch:
  "node_inv s \<Longrightarrow> message_wf msg \<Longrightarrow> keeps_inv cb \<Longrightarrow> node_inv (dispatch cb E msg s)"
  by (simp add: dispatch_def wf_intros)

lemma replay_filter_ok:
  "mesh_ok m \<Longrightarrow> mesh_ok (snd (replay_filter msg m))"
  by (auto simp: replay_filter_def isReplay_def mesh_ok_def mesh_wf_def route_wf_def)

lemma find_index_from_Some:
  "find_index_from k P xs = Some i \<Longrightarrow> k \<le> i \<and> i < k + length xs \<and> P (xs ! (i - k))"
proof (induction xs arbitrary: k)
  case (Cons x xs)
  show ?case
  proof (cases "P x")
    case False
    with Cons.prems have "find_index_from (Suc k) P xs = Some i" by simp
    from Cons.IH [OF this] show ?thesis by (auto simp: nth_Cons' Suc_diff_le)
  qed (use Cons.prems in simp)
qed simp

lemma findPeer_Some:
  assumes "findPeer a m = Some i" and "mesh_wf m"
  shows "i < peerCount m" "i < length (peerMacs m)" "peerMac (peerMacs m ! i) = a"
  using find_index_from_Some [OF assms(1) [unfolded findPeer_def]] assms(2)
  by (auto simp: peers_def mesh_wf_def)

lemma list_all_update: "list_all P xs \<Longrightarrow> P x \<Longrightarrow> list_all P (xs[i := x])"
  by (auto simp: list_all_iff dest!: set_update_subset_insert [THEN subsetD])

lemma updatePeerLastSeen_ok: "mesh_ok m \<Longrightarrow> mesh_ok (updatePeerLastSeen t a m)"
  by (auto simp: updatePeerLastSeen_def mesh_ok_def mesh_wf_def route_wf_def list_all_length
      nth_list_update dest: findPeer_Some split: option.split)

lemma node_inv_process_entry:
  assumes "node_inv s" "message_wf (qmsg e)" "keeps_inv cb"
  shows "node_inv (process_entry cb E e s)"
proof -
  obtain r m where f: "replay_filter (qmsg e) (mesh s) = (r, m)"
    by (cases "replay_filter (qmsg e) (mesh s)")
  have "mesh_ok m" using replay_filter_ok [of "mesh s" "qmsg e"] assms(1) f
    by (simp add: node_inv_def)
  then have "node_inv (s\<lparr>mesh := m\<rparr>)" "node_inv (s\<lparr>mesh := updatePeerLastSeen (now s) (srcMac e) m\<rparr>)"
    using assms(1) by (auto intro: node_inv_set_mesh updatePeerLastSeen_ok)
  with assms f show ?thesis
    by (auto simp: process_entry_def Let_def intro: node_inv_dispatch)
qed

end
