(* ===== verification/Mesh_Loop.thy ===== *)
theory Mesh_Loop
  imports Mesh_Inv
begin

text \<open>
  The receive loop ends and empties the ring; the main loop keeps the invariant; and what can
  happen to a node, as a step relation with its reachable states.
\<close>

section \<open>Handlers leave the ring alone\<close>

definition ring_of :: "mesh_state \<Rightarrow> RecvQueueEntry list \<times> nat \<times> nat" where
  "ring_of m = (recvQueue m, recvQueueHead m, recvQueueTail m)"

definition keeps_ring :: "'a meshnode_scheme recv_callback \<Rightarrow> bool" where
  "keeps_ring cb \<longleftrightarrow> (\<forall>f msg s. cb = Some f \<longrightarrow> ring_of (mesh (f msg s)) = ring_of (mesh s))"

lemma ring_of_beacon: "beacon_frame ring_of"
  by (simp add: beacon_frame_def ring_of_def)

lemma ring_of_processAdapterData:
  assumes "keeps_ring cb"
  shows "ring_of (mesh (processAdapterData cb E msg s)) = ring_of (mesh s)"
proof -
  have "ring_of (mesh (deliver_local cb E msg s)) = ring_of (mesh s)"
    unfolding deliver_local_def using assms
    by (auto intro!: andthen_frame [where h = "\<lambda>s. ring_of (mesh s)"] simp: keeps_ring_def
        split: option.split)
  then show ?thesis by (simp add: processAdapterData_def Let_def)
qed

lemma ring_of_dispatch:
  assumes "keeps_ring cb"
  shows "ring_of (mesh (dispatch cb E msg s)) = ring_of (mesh s)"
proof -
  have "ring_of (mesh (processJoinAck E msg s)) = ring_of (mesh s)"
    by (rule processJoinAck_frame) (simp add: ring_of_def)
  moreover have "ring_of (processEnrollmentRequest msg m) = ring_of m" for m
    by (simp add: processEnrollmentRequest_def ring_of_def)
  ultimately show ?thesis
    by (simp add: dispatch_def processMasterBeacon_frame [OF ring_of_beacon]
        ring_of_processAdapterData [OF assms])
qed

lemma ring_of_process_entry:
  assumes "keeps_ring cb"
  shows "ring_of (mesh (process_entry cb E e s)) = ring_of (mesh s)"
proof -
  obtain r m where f: "replay_filter (qmsg e) (mesh s) = (r, m)"
    by (cases "replay_filter (qmsg e) (mesh s)")
  have "ring_of m = ring_of (mesh s)"
    using replay_filter_frame [of ring_of "qmsg e" "mesh s"] f by (simp add: ring_of_def)
  moreover have "ring_of (updatePeerLastSeen t a m) = ring_of m" for t a
    by (rule updatePeerLastSeen_frame) (simp add: ring_of_def)
  ultimately show ?thesis
    using f by (simp add: process_entry_def Let_def ring_of_dispatch [OF assms])
qed

section \<open>The receive loop\<close>

lemma ring_count_zero: "ring_wf m \<Longrightarrow> ring_count m = 0 \<longleftrightarrow> recvQueueTail m = recvQueueHead m"
  using ring_pop_count [of "recvQueueHead m" "recvQueueTail m"]
  unfolding ring_count_def ring_wf_def
  by (cases "recvQueueTail m = recvQueueHead m") (simp, metis Zero_not_Suc)

lemma ring_count_ring_of: "ring_of m' = ring_of m \<Longrightarrow> ring_count m' = ring_count m"
  by (simp add: ring_of_def ring_count_def)

lemma takeEntry_count:
  assumes "ring_wf m" "takeEntry m = Some (i, m')"
  shows "ring_count m = Suc (ring_count m')" "ring_wf m'" "i < RECV_QUEUE_SIZE"
  using assms ring_pop_count [of "recvQueueHead m" "recvQueueTail m"]
  by (auto simp: takeEntry_def ring_count_def ring_wf_def split: if_splits)

lemma takeEntry_ok:
  assumes "takeEntry m = Some (i, m')" "mesh_ok m"
  shows "mesh_ok m'" "message_wf (qmsg (recvQueue m' ! i))"
  using assms
  by (auto simp: takeEntry_def mesh_ok_def mesh_wf_def route_wf_def list_all_length
      split: if_splits)

lemma drain_returns:
  assumes "keeps_ring cb" "keeps_inv cb" "node_inv s" "ring_count (mesh s) = n"
  shows "\<exists>s'. drainRecvQueue cb E s = Some s' \<and> node_inv s'
    \<and> (status s' = Running \<longrightarrow> recvQueueTail (mesh s') = recvQueueHead (mesh s'))"
  using assms(3,4)
proof (induction n arbitrary: s)
  case 0
  have "ring_wf (mesh s)"
    using "0.prems"(1) mesh_wf_ring_wf by (auto simp: node_inv_def mesh_ok_def)
  with "0.prems" have "recvQueueTail (mesh s) = recvQueueHead (mesh s)"
    by (simp add: ring_count_zero)
  with "0.prems"(1) show ?case
    by (simp add: drainRecvQueue.simps takeEntry_def)
next
  case (Suc n)
  have wf: "ring_wf (mesh s)" "mesh_ok (mesh s)"
    using Suc.prems(1) mesh_wf_ring_wf by (auto simp: node_inv_def mesh_ok_def)
  then have "takeEntry (mesh s) \<noteq> None"
    using Suc.prems(2) ring_count_zero [OF wf(1)] by (auto simp: takeEntry_def)
  then obtain i m where t: "takeEntry (mesh s) = Some (i, m)" by auto
  define s' where "s' = process_entry cb E (recvQueue m ! i) (s\<lparr>mesh := m\<rparr>)"
  have "node_inv s'"
    unfolding s'_def using takeEntry_ok [OF t wf(2)] Suc.prems(1)
    by (intro node_inv_process_entry node_inv_set_mesh assms(2)) simp_all
  moreover have "ring_of (mesh s') = ring_of m"
    unfolding s'_def by (simp add: ring_of_process_entry [OF assms(1)])
  then have "ring_count (mesh s') = n"
    using takeEntry_count(1) [OF wf(1) t] Suc.prems(2) ring_count_ring_of [of "mesh s'" m] by simp
  moreover have "drainRecvQueue cb E s =
      (if status s' = Running then drainRecvQueue cb E s' else Some s')"
    unfolding s'_def by (subst drainRecvQueue.simps) (simp only: t option.case prod.case Let_def)
  ultimately show ?case
    using Suc.IH [of s'] by (cases "status s' = Running") simp_all
qed

section \<open>The main loop\<close>

definition relay_keeps_inv :: "'a meshnode_scheme relay_fn \<Rightarrow> bool" where
  "relay_keeps_inv relay \<longleftrightarrow>
     (\<forall>f a k s. relay = Some f \<longrightarrow> node_inv s \<longrightarrow> node_inv (f a k s))"

lemma mesh_ok_relay_flags:
  "mesh_ok m \<Longrightarrow> mesh_ok (m\<lparr>relayPending := False\<rparr>)"
  "mesh_ok m \<Longrightarrow> mesh_ok (m\<lparr>pendingEnrollmentRelay := b\<rparr>)"
  "mesh_ok m \<Longrightarrow> mesh_ok (m\<lparr>isMaster := b\<rparr>)"
  by (simp_all add: mesh_ok_def mesh_wf_def route_wf_def)

lemma node_inv_relay_pending: "node_inv s \<Longrightarrow> node_inv (relay_pending E s)"
  by (auto simp: relay_pending_def Let_def intro!: node_inv_transmitCore node_inv_mesh)
    (auto simp: node_inv_def mesh_ok_relay_flags mesh_ok_def mesh_wf_def route_wf_def msg_ok_def)

lemma node_inv_drainPendingEnrollment:
  assumes "node_inv s" "relay_keeps_inv relay"
  shows "node_inv (drainPendingEnrollment relay s)"
proof -
  have "node_inv (on_mesh (\<lambda>m. m\<lparr>pendingEnrollmentRelay := False\<rparr>) s)"
    using assms(1) by (intro node_inv_mesh) (auto simp: node_inv_def mesh_ok_relay_flags)
  with assms show ?thesis
    by (auto simp: drainPendingEnrollment_def Let_def relay_keeps_inv_def split: option.split)
qed

lemma node_inv_loop_tail:
  assumes "node_inv s" "relay_keeps_inv relay"
  shows "node_inv (loop_tail relay E s)"
  unfolding loop_tail_def
  using assms
  by (auto intro!: andthen_invariant [where P = node_inv] node_inv_drainPendingEnrollment
      node_inv_relay_pending node_inv_beacon)

lemma node_inv_mesh_loop:
  assumes "keeps_ring cb" "keeps_inv cb" "relay_keeps_inv relay" "node_inv s"
    and "mesh_loop cb relay E s = Some s'"
  shows "node_inv s'"
proof -
  obtain s1 where d: "drainRecvQueue cb E s = Some s1" "node_inv s1"
    using drain_returns [OF assms(1,2,4) refl] by blast
  with assms(5) node_inv_loop_tail [OF d(2) assms(3)] show ?thesis
    by (auto simp: mesh_loop_def split: if_splits)
qed

section \<open>What the mesh asks of its client\<close>

text \<open>
  The contract of the receive callback and the enrollment relay that the sketch links: they leave
  the ring alone and keep the node invariant, and a predicate \<open>P\<close> of the client's own is kept by every
  entry and by the deferred work. Then a round of the mesh ends and keeps both.
\<close>

locale mesh_client =
  fixes cb :: "'a meshnode_scheme recv_callback"
    and relay :: "'a meshnode_scheme relay_fn"
    and P :: "'a meshnode_scheme \<Rightarrow> bool"
    and E :: env
  assumes cb_ring: "keeps_ring cb"
    and cb_inv: "keeps_inv cb"
    and relay_inv: "relay_keeps_inv relay"
    and entry: "node_inv t \<Longrightarrow> P t \<Longrightarrow> e \<in> set (recvQueue (mesh t)) \<Longrightarrow> message_wf (qmsg e)
        \<Longrightarrow> P (process_entry cb E e t)"
    and advance: "P t \<Longrightarrow> takeEntry (mesh t) = Some (i, m) \<Longrightarrow> P (t\<lparr>mesh := m\<rparr>)"
    and deferred: "node_inv t \<Longrightarrow> P t \<Longrightarrow> P (loop_tail relay E t)"
begin

lemma drain_ends:
  assumes "node_inv s" "P s"
  shows "\<exists>s'. drainRecvQueue cb E s = Some s' \<and> node_inv s' \<and> P s'"
  using assms
proof (induction "ring_count (mesh s)" arbitrary: s)
  case 0
  have "ring_wf (mesh s)" using "0.prems"(1) mesh_wf_ring_wf by (auto simp: node_inv_def mesh_ok_def)
  with 0 have "recvQueueTail (mesh s) = recvQueueHead (mesh s)" by (simp add: ring_count_zero)
  with "0.prems" show ?case by (simp add: drainRecvQueue.simps takeEntry_def)
next
  case (Suc n)
  have wf: "ring_wf (mesh s)" "mesh_ok (mesh s)"
    using Suc.prems(1) mesh_wf_ring_wf by (auto simp: node_inv_def mesh_ok_def)
  then have "takeEntry (mesh s) \<noteq> None"
    using Suc.hyps(2) ring_count_zero [OF wf(1)] by (auto simp: takeEntry_def)
  then obtain i m where t: "takeEntry (mesh s) = Some (i, m)" by auto
  define s' where "s' = process_entry cb E (recvQueue m ! i) (s\<lparr>mesh := m\<rparr>)"
  note ok = takeEntry_ok [OF t wf(2)]
  have inv0: "node_inv (s\<lparr>mesh := m\<rparr>)" by (rule node_inv_set_mesh [OF Suc.prems(1) ok(1)])
  have "node_inv s'" unfolding s'_def by (rule node_inv_process_entry [OF inv0 ok(2) cb_inv])
  moreover have "i < length (recvQueue m)"
    using takeEntry_count(3) [OF wf(1) t] ok(1) by (simp add: mesh_ok_def mesh_wf_def)
  then have "P s'"
    unfolding s'_def by (intro entry [OF inv0 advance [OF Suc.prems(2) t] _ ok(2)]) simp
  moreover have "ring_of (mesh s') = ring_of m"
    unfolding s'_def by (simp add: ring_of_process_entry [OF cb_ring])
  then have "n = ring_count (mesh s')"
    using takeEntry_count(1) [OF wf(1) t] Suc.hyps(2) ring_count_ring_of [of "mesh s'" m] by simp
  moreover have "drainRecvQueue cb E s = (if status s' = Running then drainRecvQueue cb E s' else Some s')"
    unfolding s'_def by (subst drainRecvQueue.simps) (simp only: t option.case prod.case Let_def)
  ultimately show ?case using Suc.hyps(1) [of s'] by (cases "status s' = Running") simp_all
qed

lemma loop_ends:
  assumes "node_inv s" "P s"
  shows "\<exists>s'. mesh_loop cb relay E s = Some s' \<and> node_inv s' \<and> P s'"
proof -
  obtain s1 where d: "drainRecvQueue cb E s = Some s1" "node_inv s1" "P s1"
    using drain_ends [OF assms] by blast
  then show ?thesis
    using node_inv_loop_tail [OF d(2) relay_inv, of E] deferred [OF d(2,3)] by (simp add: mesh_loop_def)
qed

end

section \<open>What can happen to a node\<close>

inductive node_step :: "'a meshnode_scheme recv_callback \<Rightarrow> 'a meshnode_scheme relay_fn \<Rightarrow> env
    \<Rightarrow> 'a meshnode_scheme \<Rightarrow> 'a meshnode_scheme \<Rightarrow> bool"
  for cb relay E where
  Receive: "node_step cb relay E s (on_mesh (onDataRecvCallback src bs) s)"
| Loop: "mesh_loop cb relay E s = Some s' \<Longrightarrow> node_step cb relay E s s'"
| Time: "node_step cb relay E s (delay_ms d s)"
| MasterTimeout: "node_step cb relay E s (node_checkMasterTimeout s)"
| Role: "node_step cb relay E s (on_mesh (\<lambda>m. m\<lparr>isMaster := b\<rparr>) s)"
| Transmit: "node_step cb relay E s (transmit E ty d s)"
| RequestEnrollment: "node_step cb relay E s (sendEnrollmentRequest E s)"
| AddPeer: "node_step cb relay E s (addPeer E a s)"
| RemovePeer: "node_step cb relay E s (removePeer E a s)"
| EnrollPeer: "length pub = 32 \<Longrightarrow> node_step cb relay E s (enrollPeer E a pub s)"

inductive reachable :: "'a meshnode_scheme recv_callback \<Rightarrow> 'a meshnode_scheme relay_fn \<Rightarrow> env
    \<Rightarrow> 'a meshnode_scheme \<Rightarrow> 'a meshnode_scheme \<Rightarrow> bool"
  for cb relay E s0 where
  Start: "reachable cb relay E s0 s0"
| Step: "reachable cb relay E s0 s \<Longrightarrow> status s = Running \<Longrightarrow> node_step cb relay E s s'
    \<Longrightarrow> reachable cb relay E s0 s'"

section \<open>The remaining operations keep the invariant\<close>

lemma callback_ok: "mesh_ok m \<Longrightarrow> mesh_ok (onDataRecvCallback src bs m)"
  by (auto simp: onDataRecvCallback_def Let_def mesh_ok_def mesh_wf_def route_wf_def
      intro!: list_all_update message_of_bytes_wf split: option.split)

lemma timeout_ok: "mesh_ok m \<Longrightarrow> mesh_ok (checkMasterTimeout t m)"
  by (auto simp: checkMasterTimeout_def mesh_ok_def mesh_wf_def route_wf_def no_master_def)

lemma appendPeer_ok:
  "mesh_ok m \<Longrightarrow> length (publicKey p) = 32 \<Longrightarrow> mesh_ok (snd (appendPeer p m))"
  by (auto simp: appendPeer_def mesh_ok_def mesh_wf_def route_wf_def intro!: list_all_update)

lemma dropPeer_ok:
  assumes "mesh_ok m"
  shows "mesh_ok (dropPeer a m)"
proof (cases "findPeer a m")
  case None
  with assms show ?thesis by (simp add: dropPeer_def)
next
  case (Some i)
  have wf: "mesh_wf m" using assms by (simp add: mesh_ok_def)
  note i = findPeer_Some [OF Some wf]
  have "length (publicKey (peerMacs m ! (peerCount m - 1))) = 32"
    using wf i(1) by (auto simp: mesh_wf_def list_all_length)
  with assms Some show ?thesis
    by (auto simp: dropPeer_def mesh_ok_def mesh_wf_def route_wf_def intro!: list_all_update)
qed

lemma enroll_entry_ok:
  assumes "enroll_entry a pub m = Some m'" "mesh_ok m" "length pub = 32"
  shows "mesh_ok m'"
proof (cases "findPeer a m")
  case None
  with assms appendPeer_ok show ?thesis by (auto simp: enroll_entry_def split: if_splits)
next
  case (Some i)
  with assms show ?thesis
    by (auto simp: enroll_entry_def mesh_ok_def mesh_wf_def route_wf_def intro!: list_all_update)
qed

lemma savePeers_fields [simp]:
  "mesh (savePeersToEEPROM s) = mesh s" "radio_log (savePeersToEEPROM s) = radio_log s"
  "espPeers (savePeersToEEPROM s) = espPeers s"
  by (simp_all add: savePeersToEEPROM_def split: option.split)

lemma node_inv_savePeers [simp]: "node_inv (savePeersToEEPROM s) = node_inv s"
  by (simp add: node_inv_def)

lemma registerPeer_fields [simp]:
  "mesh (registerPeerWithEspNow E a k pub s) = mesh s"
  "ee (registerPeerWithEspNow E a k pub s) = ee s"
  "radio_log (registerPeerWithEspNow E a k pub s) = radio_log s"
  by (simp_all add: registerPeerWithEspNow_def esp_now_add_peer_def split: sum.split)

lemma node_inv_register [simp]: "node_inv (registerPeerWithEspNow E a k pub s) = node_inv s"
  by (simp add: node_inv_def)

lemma node_inv_del_peer [simp]: "node_inv (esp_now_del_peer E a s) = node_inv s"
  by (simp add: esp_now_del_peer_def)

lemma node_inv_addPeer: "node_inv s \<Longrightarrow> node_inv (addPeer E a s)"
  by (auto simp: addPeer_def store_new_peer_def register_entry_def
      intro!: andthen_invariant [where P = node_inv] node_inv_mesh appendPeer_ok)
    (simp add: node_inv_def)

lemma node_inv_removePeer: "node_inv s \<Longrightarrow> node_inv (removePeer E a s)"
  by (auto simp: removePeer_def removePeerFromEEPROM_def
      intro!: andthen_invariant [where P = node_inv] node_inv_mesh dropPeer_ok)
    (simp add: node_inv_def)

lemma node_inv_enrollPeer:
  assumes "node_inv s" "length pub = 32"
  shows "node_inv (enrollPeer E a pub s)"
proof (cases "enroll_entry a pub (mesh s)")
  case None
  with assms show ?thesis by (simp add: enrollPeer_def)
next
  case (Some m)
  have "mesh_ok m" using enroll_entry_ok [OF Some _ assms(2)] assms(1) by (simp add: node_inv_def)
  moreover have "msg_ok (join_ack a pub ms)" for ms
    using assms(2) by (simp add: msg_ok_def join_ack_def message_wf_def)
  ultimately show ?thesis
    using Some assms(1)
    by (auto simp: enrollPeer_def Let_def
        intro!: andthen_invariant [where P = node_inv] node_inv_esp_now_send node_inv_set_mesh)
qed

lemma node_inv_request: "node_inv s \<Longrightarrow> node_inv (sendEnrollmentRequest E s)"
  unfolding sendEnrollmentRequest_def
  by (rule node_inv_esp_now_send)
    (auto simp: msg_ok_def enrollment_request_def message_wf_def node_inv_def mesh_ok_def mesh_wf_def)

lemma node_inv_ok: "node_inv s \<Longrightarrow> mesh_ok (mesh s)"
  by (simp add: node_inv_def)

lemma node_step_inv:
  assumes "node_step cb relay E s s'" "node_inv s"
    and "keeps_ring cb" "keeps_inv cb" "relay_keeps_inv relay"
  shows "node_inv s'"
  using assms
proof cases
  case Loop
  with assms show ?thesis by (auto intro: node_inv_mesh_loop)
qed (use assms(2) node_inv_ok [OF assms(2)] in \<open>auto intro!: node_inv_mesh node_inv_transmit
      node_inv_request node_inv_addPeer node_inv_removePeer node_inv_enrollPeer callback_ok
      timeout_ok mesh_ok_relay_flags simp: node_checkMasterTimeout_def\<close>)

lemma reachable_inv:
  assumes "reachable cb relay E s0 s" "node_inv s0"
    and "keeps_ring cb" "keeps_inv cb" "relay_keeps_inv relay"
  shows "node_inv s"
  using assms(1,2) by induction (auto intro: node_step_inv assms(3-5))

end
