(* ===== verification/Eeprom_Props.thy ===== *)
theory Eeprom_Props
  imports Eeprom_Lemmas
begin

text \<open>
  What the EEPROM manager guarantees: round trips of the stored records, detection of corrupted
  keys by the CRC, the address map (no operation disturbs another's field), schema migration,
  and which writes survive a power cycle.
\<close>

section \<open>The CRC\<close>

lemma crc_top_bit: "(x AND 0x8000 \<noteq> 0) = bit (x :: u16) 15"
  using and_exp_eq_0_iff_not_bit [of x 15] by simp

lemma push1_bits: "\<not> bit (push_bit 1 (x :: u16)) 0" "Suc n < 16 \<Longrightarrow> bit (push_bit 1 x) (Suc n) = bit x n"
  by (simp_all only: bit_push_bit_iff) simp_all

lemma crc_shift_bit0: "bit (crc_shift c) 0 = bit c 15"
proof -
  have "bit (0x1021 :: u16) 0" by simp
  then show ?thesis
    using push1_bits(1) [of c] by (simp only: crc_shift_def crc_top_bit bit_xor_iff split: if_splits) blast
qed

lemma crc_shift_inj: "crc_shift c = crc_shift d \<Longrightarrow> c = d"
proof -
  assume eq: "crc_shift c = crc_shift d"
  have top: "bit c 15 = bit d 15"
    using eq crc_shift_bit0 by metis
  have push: "push_bit 1 c = push_bit 1 d"
    using eq top unfolding crc_shift_def crc_top_bit by (cases "bit c 15") (simp_all only: if_True if_False word_xor_right_cancel)
  show ?thesis
  proof (rule bit_word_eqI)
    fix n assume "n < LENGTH(16)"
    then consider "n = 15" | "Suc n < 16" by fastforce
    then show "bit c n = bit d n"
    proof cases
      case 2
      then show ?thesis using push push1_bits(2) [of n c] push1_bits(2) [of n d] by metis
    qed (simp add: top)
  qed
qed

lemma crc_shift_pow_inj: "(crc_shift ^^ k) c = (crc_shift ^^ k) d \<Longrightarrow> c = d"
  by (induction k) (auto dest: crc_shift_inj)

lemma crc_byte_inj_state: "crc_byte c b = crc_byte d b \<Longrightarrow> c = d"
  using crc_shift_pow_inj [of 8] by (force simp: crc_byte_def)

lemma push_ucast_inj: "push_bit 8 (ucast (a :: byte) :: u16) = push_bit 8 (ucast b) \<Longrightarrow> a = b"
proof (rule bit_word_eqI)
  fix n assume eq: "push_bit 8 (ucast a :: u16) = push_bit 8 (ucast b)" and n: "n < LENGTH(8)"
  have "bit (push_bit 8 (ucast a :: u16)) (n + 8) = bit (push_bit 8 (ucast b :: u16)) (n + 8)"
    by (simp only: eq)
  then show "bit a n = bit b n" using n by (simp add: bit_simps)
qed

lemma crc_byte_inj_byte: "crc_byte c a = crc_byte c b \<Longrightarrow> a = b"
  using crc_shift_pow_inj [of 8 "c XOR push_bit 8 (ucast a)" "c XOR push_bit 8 (ucast b)"]
  by (auto simp: crc_byte_def dest: push_ucast_inj)

lemma crc_fold_inj: "foldl crc_byte c xs = foldl crc_byte d xs \<Longrightarrow> c = d"
  by (induction xs arbitrary: c d) (auto dest: crc_byte_inj_state)

lemma crc16_update_inj:
  assumes "i < length xs" and "crc16 (xs[i := v]) = crc16 xs"
  shows "v = xs ! i"
proof -
  have split: "xs = take i xs @ xs ! i # drop (Suc i) xs"
    using assms(1) by (rule id_take_nth_drop)
  have "crc16 (take i xs @ v # drop (Suc i) xs) = crc16 (take i xs @ xs ! i # drop (Suc i) xs)"
    using assms split upd_conv_take_nth_drop [OF assms(1), of v] by simp
  then have "crc_byte (foldl crc_byte 0xFFFF (take i xs)) v
           = crc_byte (foldl crc_byte 0xFFFF (take i xs)) (xs ! i)"
    unfolding crc16_def by (auto dest!: crc_fold_inj)
  then show ?thesis by (rule crc_byte_inj_byte)
qed

lemma crc_bytes_join: "(ucast (ucast (c AND 0xFF) :: byte) :: u16)
    OR push_bit 8 (ucast (ucast (drop_bit 8 c AND 0xFF) :: byte)) = c"
proof (rule bit_word_eqI)
  have FF: "(0xFF :: u16) = mask 8" by (simp add: mask_eq_exp_minus_1)
  fix n assume "n < LENGTH(16)"
  then show "bit ((ucast (ucast (c AND 0xFF) :: byte) :: u16)
    OR push_bit 8 (ucast (ucast (drop_bit 8 c AND 0xFF) :: byte))) n = bit c n"
    by (auto simp: FF bit_simps)
qed

section \<open>Keypair\<close>

definition crc_cells :: "eeprom \<Rightarrow> u16" where
  "crc_cells e = ucast (ee_read KEYPAIR_CRC e) OR push_bit 8 (ucast (ee_read (KEYPAIR_CRC + 1) e))"

lemma loadKeypair_eq:
  "ee_init e \<Longrightarrow> loadKeypair e = Some (crc_cells e = crc16 (ee_reads PRIVATE_KEY 32 e @ ee_reads PUBLIC_KEY 32 e),
     ee_reads PRIVATE_KEY 32 e, ee_reads PUBLIC_KEY 32 e)"
  by (simp add: loadKeypair_def ensureInitialized_def crc_cells_def Let_def)

lemma saveKeypair_cells:
  assumes "ee_wf e" "ee_init e" "\<not> ee_dev e" "length p = 32" "length q = 32"
  defines "e' \<equiv> saveKeypair p q e"
  shows "ee_reads PRIVATE_KEY 32 e' = p" "ee_reads PUBLIC_KEY 32 e' = q"
    "crc_cells e' = crc16 (p @ q)" "ee_init e'" "length (ee_cells e') = TOTAL_SIZE"
proof -
  have len: "length (ee_cells e) = TOTAL_SIZE" using assms(1) by (simp add: ee_wf_def)
  have wk: "length (ee_cells (write_keys p q e)) = TOTAL_SIZE" "ee_init (write_keys p q e)"
    using write_keys_fields [of p q e] len assms(2) by simp_all
  show "ee_reads PRIVATE_KEY 32 e' = p" "ee_reads PUBLIC_KEY 32 e' = q"
    unfolding e'_def using assms ee_reads_write_keys [OF len assms(4,5)]
    by (simp_all add: saveKeypair_def ensureInitialized_def Let_def ee_reads_write_other)
  show "crc_cells e' = crc16 (p @ q)"
    unfolding e'_def crc_cells_def using assms wk
    by (simp add: saveKeypair_def ensureInitialized_def Let_def ee_read_write_same
          ee_read_write_other crc_bytes_join)
  show "ee_init e'" "length (ee_cells e') = TOTAL_SIZE"
    unfolding e'_def using assms wk
    by (simp_all add: saveKeypair_def ensureInitialized_def Let_def)
qed

text \<open>C38. A keypair saved in production mode is what \<open>loadKeypair\<close> returns, with its CRC accepted.\<close>

theorem keypair_roundtrip:
  assumes "ee_wf e" "ee_init e" "\<not> ee_dev e" "length p = 32" "length q = 32"
  shows "loadKeypair (saveKeypair p q e) = Some (True, p, q)"
  using saveKeypair_cells [OF assms] by (simp add: loadKeypair_eq)

theorem keypair_roundtrip_witness:
  "loadKeypair (saveKeypair (replicate 32 7) (replicate 32 9) (ee_blank\<lparr>ee_init := True\<rparr>))
     = Some (True, replicate 32 7, replicate 32 9)"
  by (rule keypair_roundtrip) (simp_all add: ee_wf_def ee_blank_def)

text \<open>
  C39. If any one cell of the stored private or public key is later changed to another value, the
  stored CRC no longer matches and \<open>loadKeypair\<close> refuses the keys.
\<close>

theorem keypair_corruption_detected:
  assumes "ee_wf e" "ee_init e" "\<not> ee_dev e" "length p = 32" "length q = 32"
    and a: "PRIVATE_KEY \<le> a" "a < PRIVATE_KEY + 64"
    and v: "v \<noteq> ee_read a (saveKeypair p q e)"
  shows "\<exists>p' q'. loadKeypair (ee_write a v (saveKeypair p q e)) = Some (False, p', q')"
proof -
  let ?s = "saveKeypair p q e" and ?w = "ee_write a v (saveKeypair p q e)"
  note c = saveKeypair_cells [OF assms(1-5)]
  have both: "ee_reads PRIVATE_KEY 32 x @ ee_reads PUBLIC_KEY 32 x = ee_reads PRIVATE_KEY 64 x" for x
    by (rule nth_equalityI) (auto simp: ee_reads_def nth_append)
  have upd: "ee_reads PRIVATE_KEY 64 ?w = (ee_reads PRIVATE_KEY 64 ?s)[a - PRIVATE_KEY := v]"
  proof (rule nth_equalityI)
    fix i assume "i < length (ee_reads PRIVATE_KEY 64 ?w)"
    then show "ee_reads PRIVATE_KEY 64 ?w ! i = (ee_reads PRIVATE_KEY 64 ?s)[a - PRIVATE_KEY := v] ! i"
      using a c(5) by (cases "PRIVATE_KEY + i = a")
        (auto simp: ee_reads_def ee_read_write_same ee_read_write_other nth_list_update)
  qed simp
  have idx: "a - PRIVATE_KEY < 64" using a by simp
  have "ee_reads PRIVATE_KEY 64 ?s ! (a - PRIVATE_KEY) = ee_read a ?s"
    using a by (simp add: ee_reads_def)
  then have "crc16 (ee_reads PRIVATE_KEY 64 ?w) \<noteq> crc16 (ee_reads PRIVATE_KEY 64 ?s)"
    using v idx crc16_update_inj [of "a - PRIVATE_KEY" "ee_reads PRIVATE_KEY 64 ?s" v]
    by (metis upd length_ee_reads)
  moreover have "crc16 (p @ q) = crc16 (ee_reads PRIVATE_KEY 64 ?s)"
    by (simp add: both [symmetric] c)
  moreover have "crc_cells ?w = crc_cells ?s"
    using a by (simp add: crc_cells_def ee_read_write_other)
  ultimately show ?thesis
    using c by (simp add: loadKeypair_eq both)
qed

theorem keypair_corruption_detected_witness:
  "\<exists>p' q'. loadKeypair (ee_write 420 8 (saveKeypair (replicate 32 7) (replicate 32 9)
      (ee_blank\<lparr>ee_init := True\<rparr>))) = Some (False, p', q')"
proof (rule keypair_corruption_detected)
  show wf: "ee_wf (ee_blank\<lparr>ee_init := True\<rparr>)" by (simp add: ee_wf_def ee_blank_def)
  have "ee_reads PRIVATE_KEY 32 (saveKeypair (replicate 32 7) (replicate 32 9) (ee_blank\<lparr>ee_init := True\<rparr>)) ! 3 = 7"
    using wf by (subst saveKeypair_cells(1)) (simp_all add: ee_blank_def)
  then show "8 \<noteq> ee_read 420 (saveKeypair (replicate 32 7) (replicate 32 9) (ee_blank\<lparr>ee_init := True\<rparr>))"
    by (simp add: ee_reads_def)
qed (simp_all add: ee_blank_def)


section \<open>The address map\<close>

text \<open>The mutating operations of the manager, by name, and the cells each may write.\<close>

datatype ee_op = SaveMasterFlag bool | SaveDevFlag bool | SaveMeshKey "byte list" nat
  | SavePeers "byte list" nat | ClearPeers | SaveAdapterType byte | SaveRebootCount byte
  | SaveRebootReason byte | SaveKeys "byte list" "byte list" | SaveEnrolled bool
  | SaveEpoch u32 | SaveMaster mac | ClearMaster | SaveMaster2 mac | ClearMaster2
  | SavePower TxPowerPreset | SaveNode byte | FlushIfDirty u32 | ForceFlush u32

fun ee_step :: "ee_op \<Rightarrow> eeprom \<Rightarrow> eeprom" where
  "ee_step (SaveMasterFlag b) e = saveMasterFlag b e"
| "ee_step (SaveDevFlag b) e = saveDevFlag b e"
| "ee_step (SaveMeshKey k n) e = saveMeshKey k n e"
| "ee_step (SavePeers r n) e = (case savePeerList r n e of None \<Rightarrow> e | Some e' \<Rightarrow> e')"
| "ee_step ClearPeers e = clearPeerList e"
| "ee_step (SaveAdapterType t) e = saveAdapterType t e"
| "ee_step (SaveRebootCount c) e = saveRebootCount c e"
| "ee_step (SaveRebootReason r) e = saveRebootReason r e"
| "ee_step (SaveKeys p q) e = saveKeypair p q e"
| "ee_step (SaveEnrolled b) e = saveEnrolledFlag b e"
| "ee_step (SaveEpoch n) e = saveBootEpoch n e"
| "ee_step (SaveMaster m) e = saveKnownMasterMac m e"
| "ee_step ClearMaster e = clearKnownMasterMac e"
| "ee_step (SaveMaster2 m) e = saveKnownMasterMacSecondary m e"
| "ee_step ClearMaster2 e = clearKnownMasterMacSecondary e"
| "ee_step (SavePower p) e = saveTxPowerPreset p e"
| "ee_step (SaveNode n) e = saveNodeId n e"
| "ee_step (FlushIfDirty t) e = flushIfDirty t e"
| "ee_step (ForceFlush t) e = forceFlush t e"

fun ee_region :: "ee_op \<Rightarrow> (nat \<times> nat) list" where
  "ee_region (SaveMasterFlag b) = [(MASTER_FLAG, 1)]"
| "ee_region (SaveDevFlag b) = [(DEV_FLAG, 1)]"
| "ee_region (SaveMeshKey k n) = [(MESH_KEY, 16)]"
| "ee_region (SavePeers r n) = [(PEER_LIST, PEER_LIST_SIZE)]"
| "ee_region ClearPeers = [(PEER_LIST, PEER_LIST_SIZE)]"
| "ee_region (SaveAdapterType t) = [(ADAPTER_TYPE, 1)]"
| "ee_region (SaveRebootCount c) = [(REBOOT_COUNT, 1)]"
| "ee_region (SaveRebootReason r) = [(REBOOT_REASON, 1)]"
| "ee_region (SaveKeys p q) = [(PRIVATE_KEY, 32), (PUBLIC_KEY, 32), (KEYPAIR_CRC, 2)]"
| "ee_region (SaveEnrolled b) = [(ENROLLED_FLAG, 1)]"
| "ee_region (SaveEpoch n) = [(BOOT_EPOCH, 4)]"
| "ee_region (SaveMaster m) = [(KNOWN_MASTER_MAC, 6)]"
| "ee_region ClearMaster = [(KNOWN_MASTER_MAC, 6)]"
| "ee_region (SaveMaster2 m) = [(KNOWN_MASTER_MAC_SECONDARY, 6)]"
| "ee_region ClearMaster2 = [(KNOWN_MASTER_MAC_SECONDARY, 6)]"
| "ee_region (SavePower p) = [(TX_POWER_PRESET, 1)]"
| "ee_region (SaveNode n) = [(NODE_ID, 1)]"
| "ee_region _ = []"

definition in_region :: "nat \<Rightarrow> (nat \<times> nat) list \<Rightarrow> bool" where
  "in_region a rs \<longleftrightarrow> list_ex (\<lambda>(b, n). b \<le> a \<and> a < b + n) rs"

lemma flush_cells [simp]:
  "ee_cells (flushIfDirty t e) = ee_cells e" "ee_cells (forceFlush t e) = ee_cells e"
  "length (ee_cells (flushIfDirty t e)) = length (ee_cells e)"
  "ee_init (flushIfDirty t e) = ee_init e" "ee_dev (flushIfDirty t e) = ee_dev e"
  by (simp_all add: flushIfDirty_def forceFlush_def)

lemma savePeerList_read:
  "savePeerList r n e = Some e' \<Longrightarrow> a < PEER_LIST \<or> PEER_LIST + PEER_LIST_SIZE \<le> a
     \<Longrightarrow> ee_read a e' = ee_read a e"
  by (auto simp: savePeerList_def ee_read_writes_outside ee_read_fill_outside split: if_splits)

lemma saveKeypair_read:
  "length (ee_cells e) = TOTAL_SIZE \<Longrightarrow> \<not> in_region a (ee_region (SaveKeys p q))
     \<Longrightarrow> ee_read a (saveKeypair p q e) = ee_read a e"
  by (auto simp: saveKeypair_def Let_def in_region_def ee_read_write_other ee_read_write_keys)

lemmas ee_simple_ops = saveMasterFlag_def saveDevFlag_def saveMeshKey_def clearPeerList_def
  saveAdapterType_def saveRebootCount_def saveRebootReason_def saveEnrolledFlag_def
  saveBootEpoch_def saveKnownMasterMac_def clearKnownMasterMac_def saveKnownMasterMacSecondary_def
  clearKnownMasterMacSecondary_def save_mac_at_def saveTxPowerPreset_def saveNodeId_def

lemma key_region_private:
  "PRIVATE_KEY \<le> a \<Longrightarrow> a < 483 \<Longrightarrow> in_region a (ee_region x) \<Longrightarrow> \<exists>p q. x = SaveKeys p q"
  by (cases x) (simp_all add: in_region_def)

lemma ee_step_read:
  assumes "length (ee_cells e) = TOTAL_SIZE" "\<not> in_region a (ee_region x)"
  shows "ee_read a (ee_step x e) = ee_read a e"
proof (cases x)
  case (SavePeers r n)
  then show ?thesis
    using assms savePeerList_read [of r n e _ a] by (auto simp: in_region_def split: option.splits)
next
  case (SaveKeys p q)
  then show ?thesis using assms saveKeypair_read by simp
next
  case (FlushIfDirty t)
  then show ?thesis by (simp add: ee_read_def)
next
  case (ForceFlush t)
  then show ?thesis by (simp add: ee_read_def)
qed (use assms(2) in \<open>auto simp: ee_simple_ops in_region_def ee_frame\<close>)

lemma savePeerList_fields:
  assumes "savePeerList r n e = Some e'"
  shows "length (ee_cells e') = length (ee_cells e) \<and> ee_flash e' = ee_flash e
    \<and> ee_init e' = ee_init e \<and> ee_dev e' = ee_dev e \<and> ee_commitOk e' = ee_commitOk e"
  using assms by (auto simp: savePeerList_def split: if_splits)

lemma ee_step_fields:
  "length (ee_cells (ee_step x e)) = length (ee_cells e) \<and> ee_init (ee_step x e) = ee_init e
   \<and> ee_dev (ee_step x e) = ee_dev e"
proof (cases x)
  case (SavePeers r n)
  then show ?thesis using savePeerList_fields by (auto split: option.splits)
next
  case (SaveKeys p q)
  then show ?thesis using write_keys_fields [of p q e] by (simp add: saveKeypair_def Let_def)
qed (auto simp: ee_simple_ops flushIfDirty_def forceFlush_def)

lemma ee_run_read:
  assumes "length (ee_cells e) = TOTAL_SIZE" "\<forall>x \<in> set xs. \<not> in_region a (ee_region x)"
  shows "ee_read a (fold ee_step xs e) = ee_read a e"
  using assms
proof (induction xs arbitrary: e)
  case (Cons x xs)
  then have "ee_read a (fold ee_step xs (ee_step x e)) = ee_read a (ee_step x e)"
    by (intro Cons.IH) (simp_all add: ee_step_fields)
  then show ?case using Cons.prems by (simp add: ee_step_read)
qed simp

text \<open>
  The fields of the address map lie inside the 512 bytes and no two of them overlap, so that no
  field can be overwritten through another.
\<close>

theorem layout_disjoint:
  "list_all (\<lambda>(a, n). a + n \<le> TOTAL_SIZE) ee_layout
   \<and> sorted_wrt (\<lambda>(a, n) (b, m). a + n \<le> b) ee_layout"
  by (simp add: ee_layout_def)

text \<open>
  However many operations run on the manager in whatever order, a keypair stays loadable and
  unchanged unless one of them is \<open>saveKeypair\<close> itself: every other operation writes
  outside the key cells.
\<close>

theorem other_operations_keep_keypair:
  assumes "length (ee_cells e) = TOTAL_SIZE" "ee_init e"
    and "\<forall>x \<in> set xs. \<forall>p q. x \<noteq> SaveKeys p q"
  shows "loadKeypair (fold ee_step xs e) = loadKeypair e"
proof -
  have region: "\<not> in_region a (ee_region x)" if "x \<in> set xs" "PRIVATE_KEY \<le> a" "a < 483" for a x
    using key_region_private [of a x] that assms(3) by blast
  have rd: "ee_read a (fold ee_step xs e) = ee_read a e" if "PRIVATE_KEY \<le> a" "a < 483" for a
    using that region assms(1) by (intro ee_run_read) auto
  have init: "ee_init (fold ee_step xs e)"
    by (rule fold_invariant [of ee_init]) (simp_all add: ee_step_fields assms(2))
  have blk: "ee_reads b n (fold ee_step xs e) = ee_reads b n e" if "PRIVATE_KEY \<le> b" "b + n \<le> 483" for b n
    by (rule ee_reads_cong, rule rd) (use that in linarith)+
  have "crc_cells (fold ee_step xs e) = crc_cells e"
    by (simp add: crc_cells_def rd)
  then show ?thesis
    using init assms(2) by (simp add: loadKeypair_eq blk)
qed

theorem other_operations_keep_keypair_witness:
  "loadKeypair (fold ee_step [SaveEnrolled True, SavePeers (replicate 380 1) 10, SaveMaster zero_mac]
     (ee_blank\<lparr>ee_init := True\<rparr>)) = loadKeypair (ee_blank\<lparr>ee_init := True\<rparr>)"
  by (rule other_operations_keep_keypair) (simp_all add: ee_blank_def)

text \<open>
  In dev mode every save operation but \<open>saveNodeId\<close> and \<open>clearPeerList\<close>, which have no dev
  guard, leaves buffer and flash alone.
\<close>

theorem dev_mode_saves_are_noops:
  assumes "ee_dev e" "\<not> ee_dirty e" "\<forall>n. x \<noteq> SaveNode n" "x \<noteq> ClearPeers"
  shows "ee_step x e = e"
  using assms by (cases x) (auto simp: ee_simple_ops savePeerList_def saveKeypair_def
      flushIfDirty_def forceFlush_def)

theorem dev_mode_saves_are_noops_witness:
  "ee_step (SaveMaster zero_mac) (ee_blank\<lparr>ee_init := True, ee_dev := True\<rparr>)
     = ee_blank\<lparr>ee_init := True, ee_dev := True\<rparr>"
  by (rule dev_mode_saves_are_noops) (simp_all add: ee_blank_def)


section \<open>Boot epoch\<close>

lemma loadBootEpoch_save:
  assumes "length (ee_cells e) = TOTAL_SIZE" "ee_init e" "\<not> ee_dev e"
  shows "loadBootEpoch (saveBootEpoch n e) = (if n = 0xFFFFFFFF then 0 else n)"
  using assms by (simp add: loadBootEpoch_def saveBootEpoch_def ensureInitialized_def Let_def
      ee_reads_writes_same)

text \<open>
  One boot stores the loaded epoch plus one; the next boot reads a strictly larger epoch,
  except after \<open>0xFFFFFFFE\<close>, where the stored value is the erased-flash pattern and the epoch
  falls back to 0 (which turns replay protection off).
\<close>

theorem boot_epoch_advances:
  assumes "length (ee_cells e) = TOTAL_SIZE" "ee_init e" "\<not> ee_dev e"
  defines "e' \<equiv> saveBootEpoch (loadBootEpoch e + 1) e"
  shows "loadBootEpoch e' = (if loadBootEpoch e = 0xFFFFFFFE then 0 else loadBootEpoch e + 1)
    \<and> (loadBootEpoch e \<noteq> 0xFFFFFFFE \<longrightarrow> unat (loadBootEpoch e') = unat (loadBootEpoch e) + 1)"
proof -
  have ne: "loadBootEpoch e \<noteq> 0xFFFFFFFF"
    by (simp add: loadBootEpoch_def Let_def)
  have iff: "loadBootEpoch e + 1 = 0xFFFFFFFF \<longleftrightarrow> loadBootEpoch e = 0xFFFFFFFE"
    using eq_diff_eq [of "loadBootEpoch e" "0xFFFFFFFF" 1] by simp
  have "(-1 :: u32) = 0xFFFFFFFF" by simp
  then have "loadBootEpoch e + 1 \<noteq> 0"
    using ne eq_neg_iff_add_eq_0 [of "loadBootEpoch e" 1] by metis
  then have "unat (loadBootEpoch e + 1) = unat (loadBootEpoch e) + 1"
    using unatSuc [of "loadBootEpoch e"] by (simp add: add.commute)
  then show ?thesis
    using loadBootEpoch_save [OF assms(1-3)] unfolding e'_def by (simp add: iff)
qed

theorem boot_epoch_advances_witness:
  "loadBootEpoch (saveBootEpoch (loadBootEpoch (ee_blank\<lparr>ee_init := True\<rparr>) + 1) (ee_blank\<lparr>ee_init := True\<rparr>))
     = (if loadBootEpoch (ee_blank\<lparr>ee_init := True\<rparr>) = 0xFFFFFFFE then 0
        else loadBootEpoch (ee_blank\<lparr>ee_init := True\<rparr>) + 1)"
  by (rule boot_epoch_advances [THEN conjunct1]) (simp_all add: ee_blank_def)

section \<open>Power cycles\<close>

lemma init_wdt_read:
  "a \<noteq> REBOOT_REASON \<Longrightarrow> a \<noteq> REBOOT_COUNT \<Longrightarrow> ee_read a (init_wdt_bytes e) = ee_read a e"
  by (simp add: init_wdt_bytes_def Let_def ee_read_write_other)

lemma init_wdt_fields:
  "length (ee_cells (init_wdt_bytes e)) = length (ee_cells e) \<and> ee_init (init_wdt_bytes e) = ee_init e
   \<and> ee_commitOk (init_wdt_bytes e) = ee_commitOk e \<and> ee_dev (init_wdt_bytes e) = ee_dev e
   \<and> ee_dirty (init_wdt_bytes e) = ee_dirty e"
  by (simp add: init_wdt_bytes_def Let_def)

lemma eeprom_init_current:
  assumes "\<not> ee_init e" "ee_read SCHEMA_VERSION e = CURRENT_SCHEMA_VERSION"
    "a \<noteq> REBOOT_REASON" "a \<noteq> REBOOT_COUNT"
  shows "ee_read a (eeprom_init e) = ee_read a e"
proof -
  have "ee_read x (e\<lparr>ee_init := True\<rparr>) = ee_read x e" for x by (simp add: ee_read_def)
  then show ?thesis
    using assms by (simp add: eeprom_init_def init_schema_def Let_def init_wdt_read)
qed

lemma migrate_keys_fields:
  "length (ee_cells (migrate_keys e)) = length (ee_cells e) \<and> ee_init (migrate_keys e) = ee_init e
   \<and> ee_dev (migrate_keys e) = ee_dev e \<and> ee_flash (migrate_keys e) = ee_flash e
   \<and> ee_commitOk (migrate_keys e) = ee_commitOk e"
  unfolding migrate_keys_def by (rule fold_invariant) (auto simp: Let_def)

lemma migrate_v1_fields:
  "length (ee_cells (migrate_v1 e)) = length (ee_cells e) \<and> ee_init (migrate_v1 e) = ee_init e
   \<and> ee_dev (migrate_v1 e) = ee_dev e \<and> ee_flash (migrate_v1 e) = ee_flash e
   \<and> ee_commitOk (migrate_v1 e) = ee_commitOk e"
  by (simp add: migrate_v1_def Let_def migrate_keys_fields)

lemma init_schema_fields:
  "length (ee_cells (init_schema e)) = length (ee_cells e) \<and> ee_init (init_schema e) = ee_init e
   \<and> ee_dev (init_schema e) = ee_dev e \<and> ee_commitOk (init_schema e) = ee_commitOk e"
  by (simp add: init_schema_def Let_def migrate_v1_fields migrate_v2_def clearAll_def)

lemma eeprom_init_init: "ee_init (eeprom_init e)"
  by (simp add: eeprom_init_def init_wdt_fields init_schema_fields)

lemma save_mac_survives:
  assumes "ee_wf e" "ee_init e" "\<not> ee_dev e" "ee_commitOk e"
    and v: "ee_read SCHEMA_VERSION e = CURRENT_SCHEMA_VERSION"
    and a: "a + 6 \<le> REBOOT_REASON \<or> SCHEMA_VERSION < a \<or> (REBOOT_COUNT < a \<and> a + 6 \<le> SCHEMA_VERSION)"
      "a + 6 \<le> TOTAL_SIZE"
  shows "load_mac_at a (eeprom_init (ee_power_cycle (save_mac_at a m e))) = Some (m \<noteq> broadcast_mac, m)"
proof -
  have len: "length (ee_cells e) = TOTAL_SIZE" using assms(1) by (simp add: ee_wf_def)
  let ?w = "ee_writes a (mac_bytes m) e"
  let ?p = "ee_power_cycle (ee_commit ?w)"
  have s: "save_mac_at a m e = ee_commit ?w"
    using assms(2,3) by (simp add: save_mac_at_def ensureInitialized_def)
  have p: "ee_read x ?p = ee_read x ?w" for x
    using assms(4) by (intro eed.rd_power_commit) simp
  have ver: "ee_read SCHEMA_VERSION ?p = CURRENT_SCHEMA_VERSION"
    using v a(1) by (auto simp: p ee_read_writes_outside)
  have ni: "\<not> ee_init ?p" by (simp add: ee_power_cycle_def)
  have "ee_reads a 6 (eeprom_init ?p) = ee_reads a 6 ?w"
    by (rule ee_reads_cong) (use a(1) eeprom_init_current [OF ni ver] p in auto)
  also have "\<dots> = mac_bytes m" using a(2) len by (simp add: ee_reads_writes_same)
  finally show ?thesis
    by (simp add: s load_mac_at_def ensureInitialized_def eeprom_init_init Let_def)
qed

text \<open>
  The trust-on-first-use master MAC is committed at once: after a power cycle the next boot loads
  exactly the MAC that was saved (all-0xFF is read as "unset").
\<close>

theorem master_mac_survives_power_loss:
  assumes "ee_wf e" "ee_init e" "\<not> ee_dev e" "ee_commitOk e"
    "ee_read SCHEMA_VERSION e = CURRENT_SCHEMA_VERSION"
  shows "loadKnownMasterMac (eeprom_init (ee_power_cycle (saveKnownMasterMac m e)))
     = Some (m \<noteq> broadcast_mac, m)"
  unfolding loadKnownMasterMac_def saveKnownMasterMac_def
  by (rule save_mac_survives [OF assms]) simp_all

text \<open>A freshly initialised blank part, used by witnesses.\<close>

definition ee_fresh :: eeprom where
  "ee_fresh = eeprom_init ee_blank"

lemma ee_read_blank: "ee_read a ee_blank = 0xFF"
  by (simp add: ee_read_def ee_blank_def)

lemma ee_fresh_facts:
  "ee_wf ee_fresh" "ee_init ee_fresh" "\<not> ee_dev ee_fresh" "ee_commitOk ee_fresh"
  "\<not> ee_dirty ee_fresh" "ee_read SCHEMA_VERSION ee_fresh = CURRENT_SCHEMA_VERSION"
proof -
  let ?b = "ee_blank\<lparr>ee_init := True\<rparr>"
  have rd: "ee_read x ?b = 0xFF" for x by (simp add: ee_read_def ee_blank_def)
  have f: "ee_fresh = init_wdt_bytes (ee_commit (ee_write SCHEMA_VERSION CURRENT_SCHEMA_VERSION ?b))"
    by (simp add: ee_fresh_def eeprom_init_def init_schema_def rd) (simp add: ee_blank_def)
  have len: "length (ee_cells ?b) = TOTAL_SIZE" by (simp add: ee_blank_def)
  show "ee_wf ee_fresh"
    by (simp add: f ee_wf_def init_wdt_fields len init_wdt_bytes_def Let_def ee_commit_def) (simp add: ee_blank_def)
  show "ee_init ee_fresh" by (simp add: ee_fresh_def eeprom_init_init)
  show "\<not> ee_dev ee_fresh" "ee_commitOk ee_fresh" "\<not> ee_dirty ee_fresh"
    by (simp_all add: f init_wdt_fields) (simp_all add: ee_blank_def)
  show "ee_read SCHEMA_VERSION ee_fresh = CURRENT_SCHEMA_VERSION"
    unfolding f by (simp add: init_wdt_read) (rule ee_read_write_same, simp add: ee_blank_def)
qed

theorem master_mac_survives_power_loss_witness:
  "loadKnownMasterMac (eeprom_init (ee_power_cycle (saveKnownMasterMac (MAC 1 2 3 4 5 6) ee_fresh)))
     = Some (MAC 1 2 3 4 5 6 \<noteq> broadcast_mac, MAC 1 2 3 4 5 6)"
  by (rule master_mac_survives_power_loss) (simp_all add: ee_fresh_facts)

text \<open>
  A deferred save (adapter type, role flag, reboot counter, peer list, node id, mesh key) is
  only in the RAM buffer: a restart before the next commit loses it, every cell reads as flash had it.
\<close>

theorem deferred_save_lost_without_flush:
  assumes "x \<in> {SaveMasterFlag b, SaveDevFlag b, SaveMeshKey k n, SavePeers r n, ClearPeers,
      SaveAdapterType t, SaveRebootCount t, SaveRebootReason t, SaveNode t}"
  shows "ee_read a (ee_power_cycle (ee_step x e)) = ee_read a (ee_power_cycle e)"
proof -
  have "ee_flash (ee_step x e) = ee_flash e"
    using assms savePeerList_fields [of r n e]
    by (auto simp: ee_simple_ops split: option.splits)
  then show ?thesis by (simp add: ee_read_power)
qed

theorem deferred_save_lost_without_flush_witness:
  "ee_read ADAPTER_TYPE (ee_power_cycle (ee_step (SaveAdapterType 1) ee_fresh))
     = ee_read ADAPTER_TYPE (ee_power_cycle ee_fresh)"
  by (rule deferred_save_lost_without_flush [of _ True "[]" 0 "[]"]) simp

text \<open>
  \<open>flushIfDirty\<close> never writes flash twice within five seconds, and once it has run on a dirty
  buffer after that interval with a working commit, flash equals the buffer.
\<close>

theorem flush_rate_and_effect:
  "(millis - ee_lastFlush e < EEPROM_FLUSH_INTERVAL_MS \<longrightarrow> flushIfDirty millis e = e)
   \<and> (\<not> ee_dirty e \<longrightarrow> flushIfDirty millis e = e)
   \<and> (ee_dirty e \<and> \<not> millis - ee_lastFlush e < EEPROM_FLUSH_INTERVAL_MS \<and> ee_commitOk e \<longrightarrow>
        ee_flash (flushIfDirty millis e) = ee_cells e \<and> \<not> ee_dirty (flushIfDirty millis e)
        \<and> ee_lastFlush (flushIfDirty millis e) = millis)"
  by (simp add: flushIfDirty_def ee_commit_def)

theorem flush_rate_and_effect_witness:
  "ee_flash (flushIfDirty 6000 (ee_step (SaveNode 4) ee_fresh)) = ee_cells (ee_step (SaveNode 4) ee_fresh)"
proof -
  let ?e = "ee_step (SaveNode 4) ee_fresh"
  have "ee_lastFlush ee_fresh = 0"
    by (simp add: ee_fresh_def eeprom_init_def init_wdt_bytes_def init_schema_def Let_def ee_read_def
        ee_blank_def)
  then have "ee_dirty ?e \<and> \<not> 6000 - ee_lastFlush ?e < EEPROM_FLUSH_INTERVAL_MS \<and> ee_commitOk ?e"
    by (simp add: saveNodeId_def ensureInitialized_def ee_fresh_facts)
  then show ?thesis using flush_rate_and_effect [of 6000 ?e] by blast
qed


section \<open>Schema migration\<close>

lemma migrate_keys_loop:
  fixes step :: "nat \<Rightarrow> eeprom \<Rightarrow> eeprom"
  assumes step: "step = (\<lambda>i e. let e' = ee_write (PRIVATE_KEY + i) (ee_read (V1_PRIVATE_KEY + i) e) e
                  in ee_write (PUBLIC_KEY + i) (ee_read (V1_PUBLIC_KEY + i) e') e')"
    and "n \<le> 32" "length (ee_cells e) = TOTAL_SIZE"
  shows "ee_read x (fold step [0..<n] e)
     = (if PRIVATE_KEY \<le> x \<and> x < PRIVATE_KEY + n then ee_read (x - 320) e
        else if PUBLIC_KEY \<le> x \<and> x < PUBLIC_KEY + n then ee_read (x - 320) e else ee_read x e)"
  using assms(2)
proof (induction n arbitrary: x)
  case 0
  show ?case by auto
next
  case (Suc n)
  let ?L = "fold step [0..<n] e"
  have len: "length (ee_cells ?L) = TOTAL_SIZE"
    using assms(3) by (intro fold_invariant [of "\<lambda>e. length (ee_cells e) = TOTAL_SIZE"])
      (simp_all add: step Let_def)
  have IH: "ee_read y ?L = (if PRIVATE_KEY \<le> y \<and> y < PRIVATE_KEY + n then ee_read (y - 320) e
        else if PUBLIC_KEY \<le> y \<and> y < PUBLIC_KEY + n then ee_read (y - 320) e else ee_read y e)" for y
    using Suc by simp
  have old: "ee_read (V1_PRIVATE_KEY + n) ?L = ee_read (V1_PRIVATE_KEY + n) e"
    "ee_read (V1_PUBLIC_KEY + n) ?L = ee_read (V1_PUBLIC_KEY + n) e"
    using Suc.prems by (auto simp: IH)
  have last: "fold step [0..<Suc n] e = ee_write (PUBLIC_KEY + n) (ee_read (V1_PUBLIC_KEY + n) e)
      (ee_write (PRIVATE_KEY + n) (ee_read (V1_PRIVATE_KEY + n) e) ?L)"
    using Suc.prems old by (simp add: step Let_def ee_read_write_other)
  consider "x = PUBLIC_KEY + n" | "x = PRIVATE_KEY + n" | "x \<noteq> PUBLIC_KEY + n" "x \<noteq> PRIVATE_KEY + n" by blast
  then show ?case
  proof cases
    case 1
    then show ?thesis using Suc.prems len unfolding last by (simp add: ee_read_write_same)
  next
    case 2
    then show ?thesis using Suc.prems len unfolding last
      by (simp add: ee_read_write_same ee_read_write_other)
  next
    case 3
    then show ?thesis unfolding last by (auto simp: ee_read_write_other IH)
  qed
qed

lemma ee_read_migrate_keys:
  assumes "length (ee_cells e) = TOTAL_SIZE"
  shows "ee_read x (migrate_keys e) = (if PRIVATE_KEY \<le> x \<and> x < KEYPAIR_CRC then ee_read (x - 320) e
     else ee_read x e)"
  unfolding migrate_keys_def using migrate_keys_loop [OF refl order_refl assms, of x] by auto

lemma migrate_v1_read:
  assumes "length (ee_cells e) = TOTAL_SIZE"
  shows "PRIVATE_KEY \<le> x \<Longrightarrow> x \<le> ENROLLED_FLAG \<Longrightarrow> ee_read x (migrate_v1 e) = ee_read (x - 320) e"
    and "PEER_LIST \<le> x \<Longrightarrow> x < PEER_LIST + PEER_LIST_SIZE \<Longrightarrow> ee_read x (migrate_v1 e) = 0xFF"
    and "x < PEER_LIST \<or> ENROLLED_FLAG < x \<Longrightarrow> ee_read x (migrate_v1 e) = ee_read x e"
proof -
  show "ee_read x (migrate_v1 e) = ee_read (x - 320) e" if x: "PRIVATE_KEY \<le> x" "x \<le> ENROLLED_FLAG"
  proof -
    consider "x < KEYPAIR_CRC" | "x = KEYPAIR_CRC" | "x = KEYPAIR_CRC + 1" | "x = ENROLLED_FLAG"
      using x by fastforce
    then show ?thesis
      by cases (use x in \<open>simp_all add: migrate_v1_def Let_def ee_read_fill_outside
        ee_read_write_other ee_read_write_same ee_read_migrate_keys migrate_keys_fields assms\<close>)
  qed
  show "ee_read x (migrate_v1 e) = 0xFF" if "PEER_LIST \<le> x" "x < PEER_LIST + PEER_LIST_SIZE"
    unfolding migrate_v1_def Let_def using that
    by (intro ee_read_fill_inside) (simp_all add: migrate_keys_fields assms)
  show "ee_read x (migrate_v1 e) = ee_read x e" if "x < PEER_LIST \<or> ENROLLED_FLAG < x"
    using that by (auto simp: migrate_v1_def Let_def ee_read_fill_outside ee_read_write_other
        ee_read_migrate_keys migrate_keys_fields assms)
qed

lemma eeprom_init_v1_read:
  assumes "length (ee_cells e) = TOTAL_SIZE" "\<not> ee_init e" "ee_read SCHEMA_VERSION e = 0"
    and "x \<noteq> REBOOT_REASON" "x \<noteq> REBOOT_COUNT"
  shows "ee_read x (eeprom_init e) = (if x = SCHEMA_VERSION then CURRENT_SCHEMA_VERSION
     else if KNOWN_MASTER_MAC_SECONDARY \<le> x \<and> x < KNOWN_MASTER_MAC_SECONDARY + 6 then 0xFF
     else ee_read x (migrate_v1 (e\<lparr>ee_init := True\<rparr>)))"
proof -
  have rd: "ee_read y (e\<lparr>ee_init := True\<rparr>) = ee_read y e" for y by (simp add: ee_read_def)
  have init: "eeprom_init e = init_wdt_bytes (ee_commit (ee_write SCHEMA_VERSION CURRENT_SCHEMA_VERSION
      (migrate_v2 (migrate_v1 (e\<lparr>ee_init := True\<rparr>)))))"
    using assms(2,3) by (simp add: eeprom_init_def init_schema_def Let_def rd)
  have len: "length (ee_cells (migrate_v1 (e\<lparr>ee_init := True\<rparr>))) = TOTAL_SIZE"
    using assms(1) by (simp add: migrate_v1_fields)
  show ?thesis
    using assms(4,5) len unfolding init migrate_v2_def
    by (auto simp: init_wdt_read ee_read_write_same ee_read_write_other ee_read_fill_inside
        ee_read_fill_outside)
qed

text \<open>
  C40. Booting on a version-1 EEPROM moves the key material to its new addresses unchanged (so a
  keypair valid under the old layout is loaded as valid), erases every peer record, and leaves the mesh
  key, role flags and adapter type alone.
\<close>

theorem v1_migration_keeps_keys:
  assumes "length (ee_cells e) = TOTAL_SIZE" "\<not> ee_init e" "ee_read SCHEMA_VERSION e = 0"
  defines "e' \<equiv> eeprom_init e"
  shows "ee_reads PRIVATE_KEY 32 e' = ee_reads V1_PRIVATE_KEY 32 e
    \<and> ee_reads PUBLIC_KEY 32 e' = ee_reads V1_PUBLIC_KEY 32 e
    \<and> ee_reads KEYPAIR_CRC 2 e' = ee_reads V1_KEYPAIR_CRC 2 e
    \<and> ee_read ENROLLED_FLAG e' = ee_read V1_ENROLLED_FLAG e
    \<and> ee_read SCHEMA_VERSION e' = CURRENT_SCHEMA_VERSION
    \<and> \<not> hasPeers e'
    \<and> ee_reads MESH_KEY 16 e' = ee_reads MESH_KEY 16 e
    \<and> ee_read ADAPTER_TYPE e' = ee_read ADAPTER_TYPE e \<and> ee_read MASTER_FLAG e' = ee_read MASTER_FLAG e"
proof -
  have rd: "ee_read y (e\<lparr>ee_init := True\<rparr>) = ee_read y e" for y by (simp add: ee_read_def)
  have len: "length (ee_cells (e\<lparr>ee_init := True\<rparr>)) = TOTAL_SIZE" using assms(1) by simp
  note r = eeprom_init_v1_read [OF assms(1-3)] migrate_v1_read [OF len] rd
  have keys: "ee_read x e' = ee_read (x - 320) e" if "PRIVATE_KEY \<le> x" "x \<le> ENROLLED_FLAG" for x
    using that unfolding e'_def by (simp add: r)
  have low: "ee_read x e' = ee_read x e" if "x < PEER_LIST" for x
    using that unfolding e'_def by (simp add: r)
  have "ee_reads b n e' = ee_reads (b - 320) n e" if "PRIVATE_KEY \<le> b" "b + n \<le> BOOT_EPOCH" for b n
    by (rule nth_equalityI) (use that keys in \<open>simp_all add: ee_reads_def\<close>)
  moreover have "ee_reads MESH_KEY 16 e' = ee_reads MESH_KEY 16 e"
    by (rule ee_reads_cong) (simp add: low)
  moreover have "\<not> hasPeers e'"
    unfolding hasPeers_def ee_reads_def read_list_def e'_def
    by (auto simp: r list_ex_iff)
  moreover have "ee_read SCHEMA_VERSION e' = CURRENT_SCHEMA_VERSION"
    unfolding e'_def by (simp add: r)
  ultimately show ?thesis by (simp add: keys low)
qed

theorem v1_migration_keeps_keys_witness:
  "ee_read ENROLLED_FLAG (eeprom_init (ee_write V1_ENROLLED_FLAG 1 (ee_write SCHEMA_VERSION 0 ee_blank))) = 1"
proof -
  let ?e = "ee_write V1_ENROLLED_FLAG 1 (ee_write SCHEMA_VERSION 0 ee_blank)"
  have len: "length (ee_cells ee_blank) = TOTAL_SIZE" "\<not> ee_init ee_blank" by (simp_all add: ee_blank_def)
  have "ee_read SCHEMA_VERSION ?e = 0" "ee_read V1_ENROLLED_FLAG ?e = 1"
    by (simp_all add: ee_read_write_same ee_read_write_other len)
  then show ?thesis using v1_migration_keeps_keys [of ?e] len by simp
qed

text \<open>
  Whatever version byte a part carries, \<open>init\<close> leaves it initialised at schema version 3, with
  a reboot counter of at most 10 and a reboot reason other than 0, and running it again changes nothing.
\<close>

theorem init_establishes_schema:
  assumes "length (ee_cells e) = TOTAL_SIZE" "\<not> ee_init e"
  shows "ee_init (eeprom_init e) \<and> ee_read SCHEMA_VERSION (eeprom_init e) = CURRENT_SCHEMA_VERSION
    \<and> ee_read REBOOT_COUNT (eeprom_init e) \<le> 10 \<and> ee_read REBOOT_REASON (eeprom_init e) \<noteq> 0
    \<and> eeprom_init (eeprom_init e) = eeprom_init e"
proof -
  let ?i = "e\<lparr>ee_init := True\<rparr>"
  have len: "length (ee_cells (init_schema ?i)) = TOTAL_SIZE"
    using assms(1) by (simp add: init_schema_fields)
  have ver: "ee_read SCHEMA_VERSION (init_schema ?i) = CURRENT_SCHEMA_VERSION"
    using assms(1) by (auto simp: init_schema_def Let_def ee_read_write_same migrate_v1_fields
        migrate_v2_def clearAll_def ensureInitialized_def)
  have wdt: "ee_read REBOOT_COUNT (init_wdt_bytes x) \<le> 10 \<and> ee_read REBOOT_REASON (init_wdt_bytes x) \<noteq> 0"
    if "length (ee_cells x) = TOTAL_SIZE" for x
    using that by (auto simp: init_wdt_bytes_def Let_def ee_read_write_same ee_read_write_other not_less)
  show ?thesis
    using assms(2) ver wdt [OF len] eeprom_init_init [of e]
    by (simp add: eeprom_init_def init_wdt_read init_wdt_fields init_schema_fields)
qed

theorem init_establishes_schema_witness:
  "ee_read SCHEMA_VERSION (eeprom_init (ee_write SCHEMA_VERSION 9 ee_blank)) = CURRENT_SCHEMA_VERSION"
  using init_establishes_schema [of "ee_write SCHEMA_VERSION 9 ee_blank"] by (simp add: ee_blank_def)

section \<open>Diagnostics\<close>

text \<open>
  \<open>dumpEEPROM\<close> reveals nothing about the key cells: two parts that differ only there print the
  same dump.
\<close>

theorem dump_hides_keys:
  assumes "ee_init e = ee_init e'"
    and "\<forall>a. a < PRIVATE_KEY \<or> KEYPAIR_CRC + 1 < a \<longrightarrow> ee_read a e = ee_read a e'"
  shows "dumpEEPROM e = dumpEEPROM e'"
  using assms by (auto simp: dumpEEPROM_def ensureInitialized_def)

theorem dump_hides_keys_witness:
  "dumpEEPROM (ee_write PRIVATE_KEY 5 ee_fresh) = dumpEEPROM ee_fresh"
  by (rule dump_hides_keys) (auto simp: ee_read_write_other)

end
