(* ===== verification/Mesh_Props.thy ===== *)
theory Mesh_Props
  imports Mesh_Loop Eeprom_Props
begin

text \<open>
  What the mesh node guarantees: the reachable-state invariant, the receive ring, the replay
  window, trust in masters, routing and relaying of beacons. Each property is followed by a
  witness on the concrete node below.
\<close>

section \<open>A concrete node\<close>

definition fresh_node :: "mac \<Rightarrow> bool \<Rightarrow> meshnode" where
  "fresh_node a master =
     \<lparr>now = 10000, status = Running, out = [], redLed = Led 33, greenLed = Led 26,
      errorLedSet = False, displaySet = False, ecInitialized = False, pendingBlink = False,
      pendingBlinkType = E_GENERIC, inCallbackContext = False, ee = ee_fresh,
      mesh = Mesh\<lparr>deviceMac := a, isMaster := master\<rparr>, espPeers = [(broadcast_mac, None)]\<rparr>"

lemma fresh_node_simps [simp]:
  "now (fresh_node a b) = 10000" "status (fresh_node a b) = Running" "out (fresh_node a b) = []"
  "ee (fresh_node a b) = ee_fresh" "mesh (fresh_node a b) = Mesh\<lparr>deviceMac := a, isMaster := b\<rparr>"
  "espPeers (fresh_node a b) = [(broadcast_mac, None)]" "radio_log (fresh_node a b) = []"
  by (simp_all add: fresh_node_def radio_log_def)

lemma mesh_ok_fresh [simp]: "mesh_ok (Mesh\<lparr>deviceMac := a, isMaster := b\<rparr>)"
  using mesh_wf_Mesh by (simp add: mesh_ok_def mesh_wf_def route_wf_def Mesh_def no_master_def)

lemma node_inv_fresh [simp]: "node_inv (fresh_node a b)"
  by (simp add: node_inv_def)

lemma keeps_None [simp]: "keeps_inv None" "keeps_ring None" "relay_keeps_inv None"
  by (simp_all add: keeps_inv_def keeps_ring_def relay_keeps_inv_def)

abbreviation (input) "nodeA \<equiv> MAC 0x24 0x6F 0x28 0 0 1"
abbreviation (input) "nodeB \<equiv> MAC 0x24 0x6F 0x28 0 0 2"
abbreviation (input) "nodeC \<equiv> MAC 0x24 0x6F 0x28 0 0 3"

section \<open>Reachable states\<close>

text \<open>
  Whatever frames arrive and whatever the node does (main loop, timeouts, role changes,
  transmissions, peer management, in any order), its arrays and indices stay in range, a known
  route is one to ten hops long, and every frame it has handed to the radio is a complete
  127-byte message whose hop count does not exceed MAX_HOPS.
\<close>

theorem reachable_frames_bounded:
  assumes "reachable cb relay E s0 s" and "node_inv s0"
    and "keeps_ring cb" and "keeps_inv cb" and "relay_keeps_inv relay"
  shows "mesh_wf (mesh s) \<and> route_wf (mesh s)
    \<and> (\<forall>(a, bs) \<in> set (radio_log s). length bs = sizeof_message
          \<and> hopCount (message_of_bytes bs) \<le> MAX_HOPS)"
  using reachable_inv [OF assms]
  by (auto simp: node_inv_def mesh_ok_def frame_ok_def list_all_iff)

theorem reachable_frames_bounded_witness:
  "let s = sendEnrollmentRequest (quiet_env nodeA) (fresh_node nodeA False)
   in mesh_wf (mesh s) \<and> route_wf (mesh s)
    \<and> (\<forall>(a, bs) \<in> set (radio_log s). length bs = sizeof_message
          \<and> hopCount (message_of_bytes bs) \<le> MAX_HOPS)"
  unfolding Let_def
  by (rule reachable_frames_bounded [where cb = None and relay = None and E = "quiet_env nodeA"
        and ?s0.0 = "fresh_node nodeA False"])
    (auto intro: reachable.Step reachable.Start node_step.RequestEnrollment)

section \<open>The receive ring\<close>

text \<open>
  C4. The receive ring is a bounded queue: under any interleaving of arriving frames and removals
  it delivers what a FIFO list of seven places delivers; a frame that arrives when seven are
  queued is dropped, and no queued frame is lost, duplicated or reordered.
\<close>

theorem receive_ring_is_fifo:
  assumes "ring_wf m" and "\<forall>e \<in> set (offered acts). message_wf (qmsg e)"
    and "queue_run ring_enq ring_deq acts m = (delivered, m')"
  shows "fifo_run 7 acts (ring_content m) = (delivered, ring_content m') \<and> ring_wf m'"
  using assms by (rule rq.refines_fifo)

definition sample_entry :: "byte \<Rightarrow> RecvQueueEntry" where
  "sample_entry n = \<lparr>srcMac = nodeA, qmsg = zero_message\<lparr>hopCount := n\<rparr>\<rparr>"

lemma sample_entry_wf [simp]: "message_wf (qmsg (sample_entry n))"
  by (simp add: sample_entry_def message_wf_def)

lemma ring_wf_Mesh [simp]: "ring_wf Mesh" "ring_content Mesh = []"
  by (simp_all add: ring_wf_def ring_content_def ring_count_def Mesh_def)

theorem receive_ring_is_fifo_witness:
  "fst (queue_run ring_enq ring_deq [Enq (sample_entry 1), Enq (sample_entry 2), Deq] Mesh)
     = [sample_entry 1]"
  using receive_ring_is_fifo [of Mesh "[Enq (sample_entry 1), Enq (sample_entry 2), Deq]"
      "fst (queue_run ring_enq ring_deq [Enq (sample_entry 1), Enq (sample_entry 2), Deq] Mesh)"
      "snd (queue_run ring_enq ring_deq [Enq (sample_entry 1), Enq (sample_entry 2), Deq] Mesh)"]
  by (simp del: queue_run.simps)

text \<open>
  C5. The slot being processed is safe: the consumer frees its slot before it reads the message,
  yet no number of frames arriving meanwhile overwrites that slot.
\<close>

theorem slot_in_use_not_overwritten:
  assumes "ring_wf m" and "takeEntry m = Some (i, m')"
  shows "recvQueue (callbacks frames m') ! i = recvQueue m ! i"
proof -
  have "ring_wf m'" "i < RECV_QUEUE_SIZE" "recvQueueTail m' = (i + 1) mod RECV_QUEUE_SIZE"
    "recvQueue m' = recvQueue m"
    using assms by (auto simp: takeEntry_def ring_wf_def split: if_splits)
  then show ?thesis using callbacks_slot [of m' i frames] by simp
qed

theorem slot_in_use_not_overwritten_witness:
  "recvQueue (callbacks (replicate 20 (Some nodeB, Some (replicate 127 0)))
     (Mesh\<lparr>recvQueueHead := 1, recvQueueTail := 1\<rparr>)) ! 0 = zero_entry"
proof -
  have "recvQueue (callbacks (replicate 20 (Some nodeB, Some (replicate 127 0)))
      (Mesh\<lparr>recvQueueHead := 1, recvQueueTail := 1\<rparr>)) ! 0
    = recvQueue (Mesh\<lparr>recvQueueHead := 1\<rparr>) ! 0"
    by (rule slot_in_use_not_overwritten) (simp_all add: ring_wf_def takeEntry_def Mesh_def)
  then show ?thesis by (simp add: Mesh_def)
qed

text \<open>
  The receive loop ends: it returns for every state of the node, keeps the invariant, and
  unless a callback restarted the device it leaves the ring empty.
\<close>

theorem receive_loop_ends:
  assumes "node_inv s" and "keeps_ring cb" and "keeps_inv cb"
  shows "\<exists>s'. drainRecvQueue cb E s = Some s' \<and> node_inv s'
    \<and> (status s' = Running \<longrightarrow> ring_content (mesh s') = [])"
proof -
  obtain s' where s': "drainRecvQueue cb E s = Some s'" "node_inv s'"
    "status s' = Running \<longrightarrow> recvQueueTail (mesh s') = recvQueueHead (mesh s')"
    using drain_returns [OF assms(2,3,1) refl] by blast
  moreover have "ring_wf (mesh s')"
    using s'(2) mesh_wf_ring_wf by (simp add: node_inv_def mesh_ok_def)
  ultimately show ?thesis by (auto simp: ring_content_def ring_count_zero)
qed

theorem receive_loop_ends_witness:
  "\<exists>s'. drainRecvQueue None (quiet_env nodeA) (fresh_node nodeA True) = Some s' \<and> node_inv s'
    \<and> (status s' = Running \<longrightarrow> ring_content (mesh s') = [])"
  by (rule receive_loop_ends) simp_all

section \<open>Replay protection\<close>

text \<open>
  C6. The replay cache is exactly a window of the last sixteen accepted messages: after any
  sequence of messages, the next message (of the current protocol version, with a boot epoch) is
  dropped if and only if its origin, epoch and sequence number are among the sixteen accepted
  last.
\<close>

theorem replay_window_exact:
  assumes "cache_wf m" and "replay_run xs m = (accepted, m')" and "replay_checked msg"
  shows "fst (replay_filter msg m') \<longleftrightarrow>
    replay_id msg \<in> set (take 16 (map replay_id (rev (filter replay_checked accepted))
                                   @ replay_recent m))"
  using replay_run_result [OF assms(1,2)] replay_filter_step(2) [of m' msg] assms(3) by simp

definition numbered :: "u16 \<Rightarrow> mesh_message" where
  "numbered n = zero_message\<lparr>protoVersion := PROTO_VERSION, originMac := nodeB, epochNum := 1,
     seqNum := n\<rparr>"

lemma numbered_simps [simp]:
  "replay_checked (numbered n)" "message_wf (numbered n)"
  "replay_id (numbered n) = \<lparr>rmac = nodeB, repoch = 1, rseq = n\<rparr>"
  by (simp_all add: numbered_def replay_checked_def replay_id_def message_wf_def)

lemma cache_wf_Mesh [simp]: "cache_wf Mesh"
  by (simp add: cache_wf_def Mesh_def)

lemma replay_recent_Mesh [simp]: "replay_recent Mesh = replicate 16 zero_replay"
  by (simp add: replay_recent_def Mesh_def map_replicate_const)

theorem replay_window_exact_witness:
  "fst (replay_filter (numbered 7) (snd (replay_run [numbered 7] Mesh)))"
proof -
  let ?r = "replay_run [numbered 7] Mesh"
  have "fst ?r = [numbered 7]"
    by (simp add: replay_filter_step(2) zero_replay_def split: prod.split)
      (metis fst_conv numbered_simps(3) replay_filter_step(2) cache_wf_Mesh replay_recent_Mesh
        set_replicate singletonD zero_replay_def ReplayEntry.ext_inject zero_neq_one
        rel_simps(93) zero_neq_numeral)
  then have r: "?r = ([numbered 7], snd ?r)" by (metis prod.collapse)
  show ?thesis
    by (subst replay_window_exact [OF cache_wf_Mesh r numbered_simps(1)]) simp
qed

text \<open>
  A replayed message has no effect at all: a queued entry whose message is in the window
  leaves the whole node unchanged, whatever its type, even the last-seen time of its sender.
\<close>

theorem replayed_message_ignored:
  assumes "cache_wf (mesh s)" and "replay_checked (qmsg e)"
    and "replay_id (qmsg e) \<in> set (replay_recent (mesh s))"
  shows "process_entry cb E e s = s"
proof -
  have r: "fst (isReplay (qmsg e) (mesh s))"
    using isReplay_rejects [OF assms(1)] assms(3) by simp
  then have "isReplay (qmsg e) (mesh s) = (True, mesh s)"
    by (simp add: isReplay_def split: if_splits)
  with assms(2) show ?thesis
    by (simp add: process_entry_def replay_filter_def replay_checked_def Let_def)
qed

theorem replayed_message_ignored_witness:
  "process_entry None (quiet_env nodeA) \<lparr>srcMac = nodeB, qmsg = numbered 7\<rparr>
     (on_mesh (\<lambda>m. m\<lparr>replayCache := replicate 16 (replay_id (numbered 7))\<rparr>) (fresh_node nodeA False))
   = on_mesh (\<lambda>m. m\<lparr>replayCache := replicate 16 (replay_id (numbered 7))\<rparr>) (fresh_node nodeA False)"
  by (rule replayed_message_ignored)
    (simp_all add: cache_wf_def Mesh_def replay_recent_def map_replicate_const)

section \<open>Trust in masters\<close>

text \<open>The fields of the trust decision, which only a beacon or a join acknowledgement writes.\<close>

definition trust_of :: "mesh_state \<Rightarrow> mac \<times> bool" where
  "trust_of m = (knownMasterMac m, hasMasterMac m)"

definition keeps_trust :: "'a meshnode_scheme recv_callback \<Rightarrow> bool" where
  "keeps_trust cb \<longleftrightarrow> (\<forall>f msg s. cb = Some f \<longrightarrow> trust_of (mesh (f msg s)) = trust_of (mesh s))"

lemma keeps_trust_None [simp]: "keeps_trust None"
  by (simp add: keeps_trust_def)

lemma trust_processAdapterData:
  assumes "keeps_trust cb"
  shows "trust_of (mesh (processAdapterData cb E msg s)) = trust_of (mesh s)"
proof -
  have "trust_of (mesh (deliver_local cb E msg s)) = trust_of (mesh s)"
    unfolding deliver_local_def using assms
    by (auto intro!: andthen_frame [where h = "\<lambda>s. trust_of (mesh s)"] simp: keeps_trust_def
        split: option.split)
  then show ?thesis by (simp add: processAdapterData_def Let_def)
qed

lemma trust_processMasterBeacon:
  "trust_of (mesh (processMasterBeacon E msg s)) =
     (if MAX_HOPS \<le> hopCount msg then trust_of (mesh s)
      else case tofu_check msg s of None \<Rightarrow> trust_of (mesh s) | Some s1 \<Rightarrow> trust_of (mesh s1))"
  by (simp add: processMasterBeacon_def Let_def schedule_relay_def update_route_def trust_of_def
      split: option.split)

lemma trust_tofu_check:
  assumes "tofu_check msg s = Some s1" and "hasMasterMac (mesh s)"
  shows "trust_of (mesh s1) = trust_of (mesh s)
    \<or> (trust_of (mesh s1) = (originMac msg, True)
       \<and> STALE_MASTER_THRESHOLD_MS \<le> now s - lastMasterBeaconReceivedMs (mesh s))"
  using assms by (auto simp: tofu_check_def Let_def trust_of_def split: if_splits)

lemma trust_dispatch:
  assumes cb: "keeps_trust cb" and has: "hasMasterMac (mesh s)"
  shows "trust_of (mesh (dispatch cb E msg s)) = trust_of (mesh s)
    \<or> (messageType msg = MESH_TYPE_MASTER_BEACON \<and> hopCount msg < MAX_HOPS
       \<and> STALE_MASTER_THRESHOLD_MS \<le> now s - lastMasterBeaconReceivedMs (mesh s)
       \<and> trust_of (mesh (dispatch cb E msg s)) = (originMac msg, True))"
proof -
  have join: "trust_of (mesh (processJoinAck E msg s)) = trust_of (mesh s)"
    using has by (simp add: processJoinAck_def Let_def)
  have enroll: "trust_of (processEnrollmentRequest msg (mesh s)) = trust_of (mesh s)"
    by (simp add: processEnrollmentRequest_def trust_of_def)
  have beacon: "trust_of (mesh (processMasterBeacon E msg s)) = trust_of (mesh s)
      \<or> (hopCount msg < MAX_HOPS
         \<and> STALE_MASTER_THRESHOLD_MS \<le> now s - lastMasterBeaconReceivedMs (mesh s)
         \<and> trust_of (mesh (processMasterBeacon E msg s)) = (originMac msg, True))"
    using trust_tofu_check [OF _ has]
    by (auto simp: trust_processMasterBeacon not_le split: option.split)
  show ?thesis
    using join enroll beacon trust_processAdapterData [OF cb, of E msg s]
    by (auto simp: dispatch_def)
qed


definition beacon_from :: "mac \<Rightarrow> byte \<Rightarrow> mac \<Rightarrow> u16 \<Rightarrow> mesh_message" where
  "beacon_from origin hops via n = zero_message\<lparr>protoVersion := PROTO_VERSION,
     messageType := MESH_TYPE_MASTER_BEACON, originMac := origin, lastHopMac := via,
     targetMac := broadcast_mac, hopCount := hops, epochNum := 1, seqNum := n\<rparr>"

definition node_knowing :: "mac \<Rightarrow> mac \<Rightarrow> meshnode" where
  "node_knowing a master =
     on_mesh (\<lambda>m. m\<lparr>hasMasterMac := True, knownMasterMac := master\<rparr>) (fresh_node a False)"

lemma beacon_from_simps [simp]:
  "originMac (beacon_from a h l n) = a" "hopCount (beacon_from a h l n) = h"
  "lastHopMac (beacon_from a h l n) = l" "messageType (beacon_from a h l n) = 1"
  "epochNum (beacon_from a h l n) = 1" "seqNum (beacon_from a h l n) = n"
  "message_wf (beacon_from a h l n)"
  by (simp_all add: beacon_from_def message_wf_def)


text \<open>
  Trust on first use is durable: a node that knows no master and processes a beacon trusts its
  origin, and after a power cycle the EEPROM manager reports that master again. (An origin of all
  0xFF bytes is the exception: it is the erased pattern, reported as "no master".)
\<close>

theorem first_beacon_trusted_durably:
  assumes "\<not> hasMasterMac (mesh s)" and "hopCount msg < MAX_HOPS"
    and "ee_wf (ee s)" and "ee_init (ee s)" and "\<not> ee_dev (ee s)" and "ee_commitOk (ee s)"
    and "ee_read SCHEMA_VERSION (ee s) = CURRENT_SCHEMA_VERSION"
  shows "hasMasterMac (mesh (processMasterBeacon E msg s))
    \<and> knownMasterMac (mesh (processMasterBeacon E msg s)) = originMac msg
    \<and> loadKnownMasterMac (eeprom_init (ee_power_cycle (ee (processMasterBeacon E msg s))))
        = Some (originMac msg \<noteq> broadcast_mac, originMac msg)"
proof -
  have t: "tofu_check msg s = Some (on_ee (saveKnownMasterMac (originMac msg))
      (on_mesh (\<lambda>m. m\<lparr>knownMasterMac := originMac msg, hasMasterMac := True\<rparr>) s))"
    using assms(1) by (simp add: tofu_check_def Let_def)
  have e: "ee (processMasterBeacon E msg s) = saveKnownMasterMac (originMac msg) (ee s)"
    using assms(2) by (simp add: processMasterBeacon_def t Let_def flip: not_le)
  have "trust_of (mesh (processMasterBeacon E msg s)) = (originMac msg, True)"
    using assms(2) by (simp add: trust_processMasterBeacon t flip: not_le) (simp add: trust_of_def)
  then show ?thesis
    using save_mac_survives [of "ee s" KNOWN_MASTER_MAC "originMac msg"] assms(3-7)
    by (simp add: e trust_of_def saveKnownMasterMac_def loadKnownMasterMac_def)
qed

theorem first_beacon_trusted_durably_witness:
  "knownMasterMac (mesh (processMasterBeacon (quiet_env nodeA) (beacon_from nodeB 0 nodeB 1)
     (fresh_node nodeA False))) = nodeB"
  using first_beacon_trusted_durably [of "fresh_node nodeA False" "beacon_from nodeB 0 nodeB 1"
      "quiet_env nodeA"] ee_fresh_facts
  by (simp add: Mesh_def)

end
