(* ===== verification/Mesh_Route_Props.thy ===== *)
theory Mesh_Route_Props
  imports Mesh_Props
begin

text \<open>
  Routing: how beacons set the route, when a route is dropped, what a transmission or a relay puts
  on the air, and that a beacon is relayed once.
\<close>

section \<open>Lemmas on routes\<close>

lemma update_route_distance:
  "distance (currentMaster (update_route msg m)) =
     (if distance (currentMaster m) = 0xFF \<or> masterMac (currentMaster m) \<noteq> originMac msg
         \<or> hopCount msg + 1 < distance (currentMaster m)
      then hopCount msg + 1 else distance (currentMaster m))"
  by (simp add: update_route_def Let_def)

lemma update_route_master:
  "distance (currentMaster m) = 0xFF \<or> masterMac (currentMaster m) = originMac msg
     \<Longrightarrow> masterMac (currentMaster (update_route msg m)) = originMac msg"
  by (simp add: update_route_def Let_def)

lemma update_route_via:
  "currentMaster (update_route msg m) = currentMaster m
   \<or> currentMaster (update_route msg m) = \<lparr>masterMac = originMac msg, distance = hopCount msg + 1,
        nextHop = lastHopMac msg\<rparr>"
  by (simp add: update_route_def Let_def)

lemma route_fold:
  assumes "\<forall>x \<in> set msgs. originMac x = a \<and> hopCount x < MAX_HOPS" and "msgs \<noteq> []"
    and "distance (currentMaster m) = 0xFF"
  shows "let r = currentMaster (fold update_route msgs m)
    in masterMac r = a \<and> (\<exists>x \<in> set msgs. distance r = hopCount x + 1 \<and> nextHop r = lastHopMac x)
       \<and> (\<forall>x \<in> set msgs. distance r \<le> hopCount x + 1)"
  using assms(1,2)
proof (induction msgs rule: rev_induct)
  case Nil
  then show ?case by simp
next
  case (snoc x xs)
  define m1 where "m1 = fold update_route xs m"
  have x: "originMac x = a" "hopCount x < 10" using snoc.prems by auto
  show ?case
  proof (cases "xs = []")
    case True
    with x assms(3) show ?thesis by (simp add: update_route_def Let_def)
  next
    case False
    with snoc have IH: "masterMac (currentMaster m1) = a"
      "\<exists>y \<in> set xs. distance (currentMaster m1) = hopCount y + 1
          \<and> nextHop (currentMaster m1) = lastHopMac y"
      "\<forall>y \<in> set xs. distance (currentMaster m1) \<le> hopCount y + 1"
      by (auto simp: m1_def Let_def)
    from IH(2) obtain y where y: "y \<in> set xs" "distance (currentMaster m1) = hopCount y + 1" by auto
    with snoc.prems have "distance (currentMaster m1) \<le> 10"
      using word_less_ten_cases(2) by auto
    then have known: "distance (currentMaster m1) \<noteq> 0xFF" by auto
    have step: "fold update_route (xs @ [x]) m = update_route x m1" by (simp add: m1_def)
    show ?thesis
    proof (cases "hopCount x + 1 < distance (currentMaster m1)")
      case True
      then have "\<forall>y \<in> set xs. hopCount x + 1 \<le> hopCount y + 1" using IH(3) by fastforce
      with True x show ?thesis unfolding step by (simp add: update_route_def Let_def)
    next
      case False
      with IH x known show ?thesis unfolding step
        by (auto simp: update_route_def Let_def not_less)
    qed
  qed
qed

lemma findNextHop_Some:
  assumes "findNextHopToMaster t m = Some p"
  shows "distance (currentMaster m) \<noteq> 0xFF" "peerMac p = nextHop (currentMaster m)"
    "peerMac p \<noteq> deviceMac m" "isPeerInRange t (peerMac p) m"
  using assms by (auto simp: findNextHopToMaster_def dest!: find_SomeD split: if_splits)

lemma find_index_from_None: "find_index_from k P xs = None \<longleftrightarrow> (\<forall>x \<in> set xs. \<not> P x)"
  by (induction xs arbitrary: k) auto

lemma isPeerInRange_known:
  assumes "isPeerInRange t a m"
  shows "\<exists>p \<in> set (peers m). peerMac p = a"
proof -
  obtain i where "findPeer a m = Some i"
    using assms by (auto simp: isPeerInRange_def split: option.splits)
  then have "i < length (peers m)" "peerMac (peers m ! i) = a"
    using find_index_from_Some [of 0 "\<lambda>p. peerMac p = a" "peers m" i] by (simp_all add: findPeer_def)
  then show ?thesis using nth_mem by blast
qed

definition has_route :: "u32 \<Rightarrow> mesh_state \<Rightarrow> bool" where
  "has_route t m \<longleftrightarrow> distance (currentMaster m) \<noteq> 0xFF
     \<and> nextHop (currentMaster m) \<noteq> deviceMac m \<and> isPeerInRange t (nextHop (currentMaster m)) m"

lemma findNextHop_None:
  "findNextHopToMaster t m = None \<longleftrightarrow> \<not> has_route t m"
proof (cases "isPeerInRange t (nextHop (currentMaster m)) m")
  case True
  then obtain p where "p \<in> set (peers m)" "peerMac p = nextHop (currentMaster m)"
    using isPeerInRange_known by blast
  with True show ?thesis
    by (fastforce simp: findNextHopToMaster_def has_route_def find_None_iff_all)
next
  case False
  then show ?thesis
    by (auto simp: findNextHopToMaster_def has_route_def find_None_iff_all)
qed

lemma route_message_log:
  assumes "\<And>bs. send_ok E (nextHop (currentMaster (mesh s))) bs" and "k \<noteq> MESH_TYPE_ADAPTER_DATA"
  shows "radio_log (route_message E k msg s) = radio_log s
    @ (if has_route (now s) (mesh s) then [(nextHop (currentMaster (mesh s)), message_bytes msg)]
       else [])"
proof (cases "findNextHopToMaster (now s) (mesh s)")
  case None
  moreover have "\<not> has_route (now s) (mesh s)" using None findNextHop_None by blast
  ultimately show ?thesis by (simp add: route_message_def Let_def)
next
  case (Some p)
  then have "has_route (now s) (mesh s)" using findNextHop_None [of "now s" "mesh s"] by simp
  with findNextHop_Some [OF Some] Some assms show ?thesis
    by (simp add: route_message_def Let_def sendMessage_def esp_now_send_def)
qed

section \<open>Routes are shortest paths\<close>

lemma update_route_cong:
  "currentMaster m = currentMaster m' \<Longrightarrow>
     currentMaster (update_route msg m) = currentMaster (update_route msg m')"
  by (simp add: update_route_def Let_def)

lemma known_beacon_step:
  assumes "trust_of (mesh s) = (originMac msg, True)" and "hopCount msg < MAX_HOPS"
  shows "currentMaster (mesh (processMasterBeacon E msg s)) =
      currentMaster (update_route msg (mesh s))"
    "trust_of (mesh (processMasterBeacon E msg s)) = trust_of (mesh s)"
proof -
  have t: "tofu_check msg s = Some s"
    using assms(1) by (simp add: tofu_check_def Let_def trust_of_def)
  show "currentMaster (mesh (processMasterBeacon E msg s)) =
      currentMaster (update_route msg (mesh s))"
    using assms(2)
    by (simp add: processMasterBeacon_def t Let_def schedule_relay_def update_route_def flip: not_le)
  show "trust_of (mesh (processMasterBeacon E msg s)) = trust_of (mesh s)"
    by (simp add: trust_processMasterBeacon t)
qed

lemma known_beacon_fold:
  assumes "\<forall>x \<in> set msgs. originMac x = a \<and> hopCount x < MAX_HOPS"
    and "trust_of (mesh s) = (a, True)" and "currentMaster m = currentMaster (mesh s)"
  shows "currentMaster (mesh (fold (processMasterBeacon E) msgs s))
    = currentMaster (fold update_route msgs m)"
  using assms
proof (induction msgs arbitrary: s m)
  case (Cons x xs)
  then have t: "trust_of (mesh s) = (originMac x, True)" "hopCount x < MAX_HOPS" by auto
  note step = known_beacon_step [OF t, of E]
  have "currentMaster (update_route x m) = currentMaster (mesh (processMasterBeacon E x s))"
    using step(1) update_route_cong [OF Cons.prems(3)] by simp
  from Cons.IH [OF _ _ this] Cons.prems(1,2) step(2) show ?case by simp
qed simp

text \<open>
  C8. Distance-vector routing: from a state without a route, after processing any non-empty
  sequence of beacons of the trusted master (each below the hop limit), the node's route is a
  shortest one heard: its distance is one more than the least hop count among the beacons, and
  the next hop is the last hop of a beacon that had it.
\<close>

theorem route_is_shortest_heard:
  assumes "msgs \<noteq> []" and "\<forall>x \<in> set msgs. originMac x = a \<and> hopCount x < MAX_HOPS"
    and "hasMasterMac (mesh s)" and "knownMasterMac (mesh s) = a"
    and "distance (currentMaster (mesh s)) = 0xFF"
  shows "let r = currentMaster (mesh (fold (processMasterBeacon E) msgs s))
    in masterMac r = a \<and> distance r = Min ((\<lambda>x. hopCount x + 1) ` set msgs)
       \<and> (\<exists>x \<in> set msgs. distance r = hopCount x + 1 \<and> nextHop r = lastHopMac x)"
proof -
  define r where "r = currentMaster (fold update_route msgs (mesh s))"
  have e: "currentMaster (mesh (fold (processMasterBeacon E) msgs s)) = r"
    unfolding r_def using assms by (intro known_beacon_fold) (auto simp: trust_of_def)
  have f: "masterMac r = a" "\<exists>x \<in> set msgs. distance r = hopCount x + 1 \<and> nextHop r = lastHopMac x"
    "\<forall>x \<in> set msgs. distance r \<le> hopCount x + 1"
    using route_fold [OF assms(2,1,5)] unfolding Let_def r_def by blast+
  have "Min ((\<lambda>x. hopCount x + 1) ` set msgs) = distance r"
    using f(2,3) by (intro Min_eqI) auto
  with f(1,2) show ?thesis unfolding Let_def e by simp
qed

theorem route_is_shortest_heard_witness:
  "distance (currentMaster (mesh (fold (processMasterBeacon (quiet_env nodeA))
     [beacon_from nodeB 4 nodeC 1, beacon_from nodeB 1 nodeC 1] (node_knowing nodeA nodeB)))) = 2"
  using route_is_shortest_heard [of "[beacon_from nodeB 4 nodeC 1, beacon_from nodeB 1 nodeC 1]"
      nodeB "node_knowing nodeA nodeB" "quiet_env nodeA"]
  by (simp add: node_knowing_def Mesh_def no_master_def Let_def)

section \<open>Relaying beacons\<close>

definition relay_of :: "mesh_state \<Rightarrow> u32 \<times> u16 \<times> mesh_message \<times> u32 \<times> bool" where
  "relay_of m = (lastRelayedEpoch m, lastRelayedSeqNum m, relayPendingMsg m, relayPendingAt m,
     relayPending m)"

definition keeps_relay :: "'a meshnode_scheme recv_callback \<Rightarrow> bool" where
  "keeps_relay cb \<longleftrightarrow> (\<forall>f msg s. cb = Some f \<longrightarrow> relay_of (mesh (f msg s)) = relay_of (mesh s))"

lemma relay_of_isNewer: "relay_of m = relay_of m' \<Longrightarrow> isNewer msg m = isNewer msg m'"
  by (simp add: relay_of_def isNewer_def)

lemma relay_processMasterBeacon:
  "relay_of (mesh (processMasterBeacon E msg s)) = relay_of (mesh s)
   \<or> (isNewer msg (mesh s) \<and> \<not> isMaster (mesh s)
      \<and> lastRelayedEpoch (mesh (processMasterBeacon E msg s)) = epochNum msg
      \<and> lastRelayedSeqNum (mesh (processMasterBeacon E msg s)) = seqNum msg)"
proof (cases "tofu_check msg s")
  case None
  then show ?thesis by (simp add: processMasterBeacon_def)
next
  case (Some s1)
  have "relay_of (mesh s1) = relay_of (mesh s)" "isMaster (mesh s1) = isMaster (mesh s)"
    using tofu_check_cases(5) [OF Some] by (auto simp: relay_of_def)
  then show ?thesis
    by (auto simp: processMasterBeacon_def Some Let_def schedule_relay_def update_route_def
        relay_of_def isNewer_def)
qed

lemma not_newer_step:
  assumes "\<not> isNewer x m" "isNewer y m" "lastRelayedEpoch m' = epochNum y"
    "lastRelayedSeqNum m' = seqNum y"
  shows "\<not> isNewer x m'"
  using assms by (auto simp: isNewer_def)

lemma relay_dispatch_mono:
  assumes "keeps_relay cb" and "\<not> isNewer msg (mesh s)"
  shows "\<not> isNewer msg (mesh (dispatch cb E x s))"
proof -
  have data: "relay_of (mesh (processAdapterData cb E x s)) = relay_of (mesh s)"
  proof -
    have "relay_of (mesh (deliver_local cb E x s)) = relay_of (mesh s)"
      unfolding deliver_local_def using assms(1)
      by (auto intro!: andthen_frame [where h = "\<lambda>s. relay_of (mesh s)"] simp: keeps_relay_def
          split: option.split)
    then show ?thesis by (simp add: processAdapterData_def Let_def)
  qed
  have join: "relay_of (mesh (processJoinAck E x s)) = relay_of (mesh s)"
    by (rule processJoinAck_frame) (simp add: relay_of_def)
  have enroll: "relay_of (processEnrollmentRequest x (mesh s)) = relay_of (mesh s)"
    by (simp add: processEnrollmentRequest_def relay_of_def)
  have beacon: "\<not> isNewer msg (mesh (processMasterBeacon E x s))"
    using relay_processMasterBeacon [of E x s] not_newer_step [OF assms(2)] assms(2)
      relay_of_isNewer by blast
  show ?thesis
    using assms(2) beacon relay_of_isNewer [OF data] relay_of_isNewer [OF join]
      relay_of_isNewer [OF enroll]
    by (simp add: dispatch_def)
qed

lemma relay_dispatch_fold:
  assumes "keeps_relay cb" and "\<not> isNewer msg (mesh s)"
  shows "\<not> isNewer msg (mesh (fold (dispatch cb E) xs s))"
  using assms(2) by (induction xs arbitrary: s) (simp_all add: relay_dispatch_mono [OF assms(1)])


lemma first_beacon_relay:
  "relay_of (mesh (processMasterBeacon (quiet_env nodeA) (beacon_from nodeB 0 nodeB 1)
     (fresh_node nodeA False))) \<noteq> relay_of (mesh (fresh_node nodeA False))"
  by (simp add: processMasterBeacon_def tofu_check_def Mesh_def Let_def schedule_relay_def
      update_route_def isNewer_def multi_master_check_def zero_mac_def no_master_def relay_of_def)


text \<open>
  A deferred beacon relay is unicast toward the master: whatever is pending, the only frame
  the dispatch puts on the air goes to the next hop of the route the node already has (and nothing
  is sent without a route), so nodes further out never receive the beacon from this relay.
\<close>

theorem beacon_relay_goes_to_next_hop:
  assumes "\<And>a bs. send_ok E a bs"
  shows "radio_log (relay_pending E s) = radio_log s
    @ (if relayPending (mesh s) \<and> relayPendingAt (mesh s) \<le> now s \<and> has_route (now s) (mesh s)
       then [(nextHop (currentMaster (mesh s)), message_bytes (relayPendingMsg (mesh s)))] else [])"
proof -
  have route: "has_route t (m\<lparr>relayPending := b\<rparr>) = has_route t m" for t b and m :: mesh_state
    by (simp add: has_route_def isPeerInRange_def findPeer_def peers_def split: option.split)
  show ?thesis
    using assms by (simp add: relay_pending_def transmitCore_def route_message_log route Let_def)
qed

theorem beacon_relay_goes_to_next_hop_witness:
  "radio_log (relay_pending (quiet_env nodeA) (fresh_node nodeA False)) = []"
  using beacon_relay_goes_to_next_hop [of "quiet_env nodeA" "fresh_node nodeA False"]
  by (simp add: Mesh_def)

section \<open>Losing the master\<close>

lemma findNextHop_seq [simp]: "findNextHopToMaster t (m\<lparr>txSeqNum := n\<rparr>) = findNextHopToMaster t m"
  by (simp add: findNextHopToMaster_def isPeerInRange_def findPeer_def peers_def
      cong: find_cong split: option.split)

lemma transmit_unrouted:
  assumes "\<not> isMaster (mesh s)" "64 \<le> length d" "\<not> has_route (now s) (mesh s)"
  shows "transmit E ty (Some d) s = fail COMM M_MESH 8 (on_mesh (\<lambda>m. m\<lparr>txSeqNum := txSeqNum m + 1\<rparr>) s)"
proof -
  have "findNextHopToMaster (now s) (mesh s) = None" using assms(3) findNextHop_None by blast
  then show ?thesis
    using assms(1,2) by (simp add: transmit_def transmitCore_def buildMessage_def route_message_def on_mesh_def Let_def)
qed

lemma transmit_log:
  assumes "\<not> isMaster (mesh s)" and "64 \<le> length d" and "\<And>a bs. send_ok E a bs"
  shows "has_route (now s) (mesh s) \<Longrightarrow>
      \<exists>msg. radio_log (transmit E ty (Some d) s) = radio_log s
        @ [(nextHop (currentMaster (mesh s)), message_bytes msg)]
      \<and> msgData msg = take 64 d \<and> dataType msg = ty \<and> messageType msg = MESH_TYPE_ADAPTER_DATA
      \<and> originMac msg = deviceMac (mesh s) \<and> hopCount msg = 0
      \<and> targetMac msg = masterMac (currentMaster (mesh s))
      \<and> epochNum msg = bootEpoch (mesh s) \<and> seqNum msg = txSeqNum (mesh s) + 1"
    and "\<not> has_route (now s) (mesh s) \<Longrightarrow> transmit E ty (Some d) s =
      fail COMM M_MESH 8 (on_mesh (\<lambda>m. m\<lparr>txSeqNum := txSeqNum m + 1\<rparr>) s)"
proof -
  obtain msg where b: "buildMessage ty (Some d) MESH_TYPE_ADAPTER_DATA (mesh s) =
      Some (msg, (mesh s)\<lparr>txSeqNum := txSeqNum (mesh s) + 1\<rparr>)"
    and m: "msgData msg = take 64 d" "dataType msg = ty" "messageType msg = MESH_TYPE_ADAPTER_DATA"
      "originMac msg = deviceMac (mesh s)" "hopCount msg = 0"
      "targetMac msg = masterMac (currentMaster (mesh s))"
      "epochNum msg = bootEpoch (mesh s)" "seqNum msg = txSeqNum (mesh s) + 1"
    using assms(2) by (simp add: buildMessage_def Let_def)
  define t where "t = on_mesh (\<lambda>m. m\<lparr>txSeqNum := txSeqNum m + 1\<rparr>) s"
  have tr: "transmit E ty (Some d) s = route_message E MESH_TYPE_ADAPTER_DATA msg t"
    using assms(1) b by (simp add: transmit_def transmitCore_def t_def on_mesh_def)
  have next_hop: "findNextHopToMaster (now t) (mesh t) = findNextHopToMaster (now s) (mesh s)"
    by (simp add: t_def)
  have m': "msg\<lparr>targetMac := masterMac (currentMaster (mesh t))\<rparr> = msg"
    using m(6) by (cases msg) (simp add: t_def)
  show "\<exists>msg. radio_log (transmit E ty (Some d) s) = radio_log s
        @ [(nextHop (currentMaster (mesh s)), message_bytes msg)]
      \<and> msgData msg = take 64 d \<and> dataType msg = ty \<and> messageType msg = MESH_TYPE_ADAPTER_DATA
      \<and> originMac msg = deviceMac (mesh s) \<and> hopCount msg = 0
      \<and> targetMac msg = masterMac (currentMaster (mesh s))
      \<and> epochNum msg = bootEpoch (mesh s) \<and> seqNum msg = txSeqNum (mesh s) + 1"
    if route: "has_route (now s) (mesh s)"
  proof -
    obtain p where p: "findNextHopToMaster (now s) (mesh s) = Some p"
      using route findNextHop_None [of "now s" "mesh s"] by auto
    have "radio_log (transmit E ty (Some d) s) = radio_log s
        @ [(nextHop (currentMaster (mesh s)), message_bytes msg)]"
      using findNextHop_Some [OF p] p assms(3) m'
      by (simp add: tr route_message_def Let_def next_hop sendMessage_def esp_now_send_def)
        (simp add: t_def)
    with m show ?thesis by blast
  qed
qed (rule transmit_unrouted [OF assms(1,2)])

text \<open>
  Sensor data of a node goes up: with a usable route the transmission puts exactly one frame
  on the air, addressed to the next hop and, in its header, to the master, stamped with the boot
  epoch and the next sequence number, carrying the 64 data bytes; without one it sends nothing and
  reports the "no route" error.
\<close>

theorem transmit_uses_route:
  assumes "\<not> isMaster (mesh s)" and "64 \<le> length d" and "\<And>a bs. send_ok E a bs"
  shows "if has_route (now s) (mesh s)
    then \<exists>msg. radio_log (transmit E ty (Some d) s) = radio_log s
        @ [(nextHop (currentMaster (mesh s)), message_bytes msg)]
      \<and> msgData msg = take 64 d \<and> dataType msg = ty \<and> messageType msg = MESH_TYPE_ADAPTER_DATA
      \<and> originMac msg = deviceMac (mesh s) \<and> hopCount msg = 0
      \<and> targetMac msg = masterMac (currentMaster (mesh s))
      \<and> epochNum msg = bootEpoch (mesh s) \<and> seqNum msg = txSeqNum (mesh s) + 1
    else radio_log (transmit E ty (Some d) s) = radio_log s
      \<and> status (transmit E ty (Some d) s) = status s
      \<and> transmit E ty (Some d) s
          = fail COMM M_MESH 8 (on_mesh (\<lambda>m. m\<lparr>txSeqNum := txSeqNum m + 1\<rparr>) s)"
  using transmit_log(1) [OF assms, of ty] transmit_log(2) [OF assms, of ty] by simp

definition routed_node :: meshnode where
  "routed_node = on_mesh (\<lambda>m. m\<lparr>peerMacs := (peerMacs m)[0 := \<lparr>peerMac = nodeB,
       publicKey = replicate 32 0, lastSeenMillis = 9000\<rparr>], peerCount := 1,
     currentMaster := \<lparr>masterMac = nodeC, distance = 2, nextHop = nodeB\<rparr>,
     hasMasterMac := True, knownMasterMac := nodeC, lastMasterBeaconReceivedMs := 9500\<rparr>)
     (fresh_node nodeA False)"

lemma one_peer_table:
  "take (Suc 0) ((replicate MAX_PEERS z)[0 := p]) = [p]" "(replicate MAX_PEERS z)[0 := p] ! 0 = p"
  by (simp_all add: numeral_eq_Suc)

lemma routed_node_simps [simp]:
  "now routed_node = 10000" "status routed_node = Running" "radio_log routed_node = []"
  "isMaster (mesh routed_node) = False" "deviceMac (mesh routed_node) = nodeA"
  "currentMaster (mesh routed_node) = \<lparr>masterMac = nodeC, distance = 2, nextHop = nodeB\<rparr>"
  "hasMasterMac (mesh routed_node)" "knownMasterMac (mesh routed_node) = nodeC"
  "peers (mesh routed_node) = [\<lparr>peerMac = nodeB, publicKey = replicate 32 0, lastSeenMillis = 9000\<rparr>]"
  "lastMasterBeaconReceivedMs (mesh routed_node) = 9500" "has_route 10000 (mesh routed_node)"
  by (simp_all add: routed_node_def Mesh_def peers_def has_route_def isPeerInRange_def findPeer_def
      one_peer_table)

theorem transmit_uses_route_witness:
  "\<exists>msg. radio_log (transmit (quiet_env nodeA) PIR_ADAPTER (Some (replicate 64 1)) routed_node)
     = [(nodeB, message_bytes msg)] \<and> msgData msg = replicate 64 1"
  using transmit_uses_route [of routed_node "replicate 64 1" "quiet_env nodeA" PIR_ADAPTER]
  by auto

text \<open>
  C12. A silent master is given up: the periodic check drops the route exactly when more than
  STALE_MASTER_THRESHOLD_MS has passed since the last accepted beacon (the clock difference is
  taken modulo 2^32, so the wrap of millis() does no harm); a node without a route then transmits
  nothing.
\<close>

theorem silent_master_given_up:
  assumes "\<not> isMaster (mesh s)" and "distance (currentMaster (mesh s)) \<noteq> 0xFF"
    and "64 \<le> length d" and "\<And>a bs. send_ok E a bs"
  shows "if now s - lastMasterBeaconReceivedMs (mesh s) > STALE_MASTER_THRESHOLD_MS
    then currentMaster (mesh (node_checkMasterTimeout s)) = no_master
      \<and> radio_log (transmit E ty (Some d) (node_checkMasterTimeout s)) = radio_log s
    else node_checkMasterTimeout s = s"
proof (cases "now s - lastMasterBeaconReceivedMs (mesh s) > STALE_MASTER_THRESHOLD_MS")
  case True
  let ?t = "node_checkMasterTimeout s"
  have c: "currentMaster (mesh ?t) = no_master" "isMaster (mesh ?t) = isMaster (mesh s)"
    using True assms(1,2) by (simp_all add: node_checkMasterTimeout_def checkMasterTimeout_def)
  then have "\<not> has_route (now ?t) (mesh ?t)" by (simp add: has_route_def no_master_def)
  then have "radio_log (transmit E ty (Some d) ?t) = radio_log ?t"
    using transmit_log(2) [of ?t d E ty] assms c(2) by simp
  then show ?thesis using True c(1) by (simp add: node_checkMasterTimeout_def)
next
  case False
  then have "checkMasterTimeout (now s) (mesh s) = mesh s" by (simp add: checkMasterTimeout_def)
  with False show ?thesis by (simp add: node_checkMasterTimeout_def on_mesh_def)
qed

theorem silent_master_given_up_witness:
  "currentMaster (mesh (node_checkMasterTimeout (delay_ms 10000 routed_node))) = no_master"
proof -
  have "mesh (delay_ms 10000 routed_node) = mesh routed_node" by (simp add: delay_ms_def)
  then show ?thesis
    using silent_master_given_up [of "delay_ms 10000 routed_node" "replicate 64 0" "quiet_env nodeA" 0]
    by simp
qed

section \<open>Downlink and local delivery\<close>



text \<open>
  Only the trusted master configures a node: adapter data that carries the configuration
  opcode and does not originate from the known master changes nothing and reaches no callback on a
  node it is addressed to, whoever forwarded it.
\<close>

theorem config_only_from_known_master:
  assumes "dataType msg = SERIAL_ADAPTER" and "msgData msg ! 0 = OP_CONFIG_SET (ops E)"
    and "hasMasterMac (mesh s)" and "originMac msg \<noteq> knownMasterMac (mesh s)"
    and "targetMac msg = deviceMac (mesh s) \<or> targetMac msg = broadcast_mac \<or> isMaster (mesh s)"
    and "messageType msg = MESH_TYPE_ADAPTER_DATA"
  shows "dispatch cb E msg s = s"
  using assms by (auto simp: dispatch_def processAdapterData_def Let_def)

definition config_msg :: "mac \<Rightarrow> mac \<Rightarrow> mesh_message" where
  "config_msg origin target = zero_message\<lparr>dataType := SERIAL_ADAPTER, originMac := origin,
     targetMac := target, msgData := 0xC1 # replicate 63 1\<rparr>"

theorem config_only_from_known_master_witness:
  "dispatch None (quiet_env nodeA) (config_msg nodeB nodeA) routed_node = routed_node"
  by (rule config_only_from_known_master)
    (simp_all add: config_msg_def documented_opcodes_def)

section \<open>The beacon rate\<close>

definition beacon_round :: "env \<Rightarrow> u32 \<Rightarrow> 'a meshnode_scheme \<Rightarrow> 'a meshnode_scheme" where
  "beacon_round E d s = broadcastMasterBeacon E (delay_ms d s)"

lemma delay_ms_mesh [simp]: "mesh (delay_ms d s) = mesh s"
  by (simp add: delay_ms_def)

lemma broadcast_early:
  "now s - lastBeaconMillis (mesh s) < MASTER_BEACON_INTERVAL_MS \<Longrightarrow> broadcastMasterBeacon E s = s"
  by (simp add: broadcastMasterBeacon_def)

lemma broadcast_due:
  assumes "\<not> now s - lastBeaconMillis (mesh s) < MASTER_BEACON_INTERVAL_MS"
  shows "now (broadcastMasterBeacon E s) = now s"
    "lastBeaconMillis (mesh (broadcastMasterBeacon E s)) = now s"
    "length (radio_log (broadcastMasterBeacon E s)) \<le> length (radio_log s) + 1"
  using assms by (simp_all add: broadcastMasterBeacon_def buildMessage_def Let_def esp_now_send_def)

lemma unat_diff_add_le: "unat (a + d - b) \<le> unat (a - b) + unat (d :: u32)"
proof -
  have "a + d - b = (a - b) + d" by simp
  then show ?thesis by (metis unat_word_ariths(1) mod_less_eq_dividend)
qed

lemma beacon_rounds_early:
  assumes "unat (now s - lastBeaconMillis (mesh s)) + sum_list (map unat ds) < 3000"
  shows "radio_log (fold (beacon_round E) ds s) = radio_log s"
  using assms
proof (induction ds arbitrary: s)
  case (Cons d ds)
  have le: "unat (now s + d - lastBeaconMillis (mesh s))
      \<le> unat (now s - lastBeaconMillis (mesh s)) + unat d"
    by (rule unat_diff_add_le)
  then have "now s + d - lastBeaconMillis (mesh s) < 3000"
    using Cons.prems by (simp add: word_less_nat_alt)
  then have "beacon_round E d s = delay_ms d s"
    by (simp add: beacon_round_def broadcast_early)
  with Cons.IH [of "delay_ms d s"] Cons.prems le show ?case by simp
qed simp

text \<open>
  C13. The beacon rate is bounded: however often the main loop of a master runs, within any
  3000 ms of clock time it broadcasts at most one beacon, also across the wrap of millis().
\<close>

theorem one_beacon_per_interval:
  assumes "sum_list (map unat ds) < 3000"
  shows "length (radio_log (fold (beacon_round E) ds s)) \<le> length (radio_log s) + 1"
  using assms
proof (induction ds arbitrary: s)
  case (Cons d ds)
  let ?t = "delay_ms d s"
  show ?case
  proof (cases "now ?t - lastBeaconMillis (mesh ?t) < MASTER_BEACON_INTERVAL_MS")
    case True
    then have "beacon_round E d s = ?t" by (simp add: beacon_round_def broadcast_early)
    with Cons.IH [of ?t] Cons.prems show ?thesis by simp
  next
    case False
    note due = broadcast_due [OF False, of E]
    have "radio_log (fold (beacon_round E) ds (broadcastMasterBeacon E ?t))
        = radio_log (broadcastMasterBeacon E ?t)"
      by (rule beacon_rounds_early) (use Cons.prems due(1,2) in simp)
    moreover have "beacon_round E d s = broadcastMasterBeacon E ?t" by (simp add: beacon_round_def)
    ultimately show ?thesis using due(3) by simp
  qed
qed simp

theorem one_beacon_per_interval_witness:
  "length (radio_log (fold (beacon_round (quiet_env nodeA)) [100, 700, 2000] (fresh_node nodeA True)))
     \<le> 1"
  using one_beacon_per_interval [of "[100, 700, 2000]" "quiet_env nodeA" "fresh_node nodeA True"]
  by simp

end
