(* ===== verification/Mesh_Peer_Props.thy ===== *)
theory Mesh_Peer_Props
  imports Mesh_Route_Props "HOL-Library.Multiset"
begin

text \<open>
  The peer table: a finite map from MAC addresses to public keys, its copy in the EEPROM, the
  enrollment handshake that fills it, and the link keys derived from it.
\<close>

section \<open>The table as a finite map\<close>

definition peer_pairs :: "mesh_state \<Rightarrow> (mac \<times> byte list) list" where
  "peer_pairs m = map (\<lambda>p. (peerMac p, publicKey p)) (peers m)"

definition peer_map :: "mesh_state \<Rightarrow> mac \<rightharpoonup> byte list" where
  "peer_map m = map_of (peer_pairs m)"

definition peers_distinct :: "mesh_state \<Rightarrow> bool" where
  "peers_distinct m \<longleftrightarrow> distinct (map peerMac (peers m))"

lemma keys_peer_pairs: "map fst (peer_pairs m) = map peerMac (peers m)"
  by (simp add: peer_pairs_def comp_def)

lemma map_of_drop:
  assumes "distinct (map fst (us @ x # vs))"
  shows "map_of (us @ vs) = (map_of (us @ x # vs))(fst x := None)"
proof
  fix k
  have "map_of us (fst x) = None" "map_of vs (fst x) = None"
    using assms by (auto simp: map_of_eq_None_iff)
  then show "map_of (us @ vs) k = ((map_of (us @ x # vs))(fst x := None)) k"
    by (cases x) (auto simp: map_add_def split: option.split)
qed

lemma split_at:
  assumes "i < length xs"
  obtains us x vs where "xs = us @ x # vs" "i = length us"
  using id_take_nth_drop [OF assms] assms by (metis length_take min.absorb4)

lemma swap_last_split:
  "butlast ((us @ x # vs)[length us := last (us @ x # vs)])
     = us @ (if vs = [] then [] else last vs # butlast vs)"
  by (cases vs rule: rev_cases) (simp_all add: butlast_append)

lemma map_of_swap_last:
  assumes d: "distinct (map fst xs)" and i: "i < length xs"
  shows "map_of (butlast (xs[i := last xs])) = (map_of xs)(fst (xs ! i) := None)"
    and "distinct (map fst (butlast (xs[i := last xs])))"
proof -
  obtain us x vs where xs: "xs = us @ x # vs" "i = length us" using split_at [OF i] .
  let ?ys = "us @ (if vs = [] then [] else last vs # butlast vs)"
  have ys: "butlast (xs[i := last xs]) = ?ys" unfolding xs by (rule swap_last_split)
  have d2: "distinct (map fst (us @ vs))" using d by (simp add: xs(1))
  have perm: "mset ?ys = mset (us @ vs)"
    by (cases vs rule: rev_cases) simp_all
  then have dys: "distinct (map fst ?ys)"
    using d2 by (metis mset_map mset_eq_imp_distinct_iff)
  then show "distinct (map fst (butlast (xs[i := last xs])))" by (simp only: ys)
  have "map_of ?ys = map_of (us @ vs)"
    using map_of_inject_set [OF dys d2] mset_eq_setD [OF perm] by simp
  then show "map_of (butlast (xs[i := last xs])) = (map_of xs)(fst (xs ! i) := None)"
    using map_of_drop [of us x vs] d by (simp only: ys) (simp add: xs)
qed

lemma map_of_update:
  assumes "distinct (map fst xs)" and "i < length xs"
  shows "map_of (xs[i := (fst (xs ! i), v)]) = (map_of xs)(fst (xs ! i) \<mapsto> v)"
proof -
  obtain us x vs where xs: "xs = us @ x # vs" "i = length us" using split_at [OF assms(2)] .
  have "map_of us (fst x) = None" using assms(1) xs(1) by (auto simp: map_of_eq_None_iff)
  then show ?thesis
    unfolding xs by (cases x) (auto simp: map_add_def fun_eq_iff split: option.split)
qed

lemma findPeer_None: "findPeer a m = None \<longleftrightarrow> a \<notin> dom (peer_map m)"
  by (force simp: findPeer_def find_index_from_None peer_map_def peer_pairs_def
      dom_map_of_conv_image_fst)

lemma appendPeer_peers:
  assumes "mesh_wf m" "peerCount m < MAX_PEERS"
  shows "peers (snd (appendPeer p m)) = peers m @ [p]"
  using assms by (simp add: appendPeer_def peers_def mesh_wf_def take_update_append)

lemma dropPeer_pairs:
  assumes "mesh_wf m" "findPeer a m = Some i"
  shows "peer_pairs (dropPeer a m) = butlast ((peer_pairs m)[i := last (peer_pairs m)])"
    "i < length (peer_pairs m)" "fst (peer_pairs m ! i) = a"
proof -
  note i = findPeer_Some [OF assms(2,1)]
  have len: "length (peers m) = peerCount m" "peers m \<noteq> []"
    using assms(1) i(1) by (auto simp: peers_def mesh_wf_def)
  have lst: "last (peers m) = peerMacs m ! (peerCount m - 1)"
    using len i(1) by (simp add: last_conv_nth) (simp add: peers_def)
  have "peers (dropPeer a m) = butlast ((peers m)[i := last (peers m)])"
    unfolding lst using assms i(1)
    by (simp add: dropPeer_def peers_def butlast_take take_update_swap mesh_wf_def butlast_list_update
        list_update_beyond)
  then show "peer_pairs (dropPeer a m) = butlast ((peer_pairs m)[i := last (peer_pairs m)])"
    using len(2) by (simp add: peer_pairs_def map_butlast map_update last_map)
  show "i < length (peer_pairs m)" using i(1) len by (simp add: peer_pairs_def)
  show "fst (peer_pairs m ! i) = a" using i len by (simp add: peer_pairs_def) (simp add: peers_def)
qed

lemma enroll_existing_pairs:
  assumes "mesh_wf m" "findPeer a m = Some i"
  shows "peer_pairs (m\<lparr>peerMacs := (peerMacs m)[i := (peerMacs m ! i)\<lparr>publicKey := pub\<rparr>]\<rparr>)
      = (peer_pairs m)[i := (a, pub)]" (is "?lhs = _")
proof -
  note i = findPeer_Some [OF assms(2,1)]
  have "?lhs = map (\<lambda>p. (peerMac p, publicKey p))
      ((peers m)[i := (peerMacs m ! i)\<lparr>publicKey := pub\<rparr>])"
    using i by (simp add: peer_pairs_def peers_def take_update_swap)
  then show ?thesis using i(3) by (simp add: peer_pairs_def map_update)
qed

lemma enroll_entry_map:
  assumes wf: "mesh_wf m" and d: "peers_distinct m" and e: "enroll_entry a pub m = Some m'"
  shows "peer_map m' = (peer_map m)(a \<mapsto> pub)" "peers_distinct m'"
proof -
  have dk: "distinct (map fst (peer_pairs m))" using d by (simp add: peers_distinct_def keys_peer_pairs)
  have "peer_map m' = (peer_map m)(a \<mapsto> pub) \<and> distinct (map fst (peer_pairs m'))"
  proof (cases "findPeer a m")
    case None
    then have new: "a \<notin> dom (peer_map m)" using findPeer_None by blast
    have "peerCount m < MAX_PEERS" using None e by (auto simp: enroll_entry_def split: if_splits)
    with wf None e have p: "peer_pairs m' = peer_pairs m @ [(a, pub)]"
      by (auto simp: enroll_entry_def peer_pairs_def appendPeer_peers)
    from new have n: "map_of (peer_pairs m) a = None" by (auto simp: peer_map_def)
    then have "peer_map m' = (peer_map m)(a \<mapsto> pub)"
      by (auto simp: p peer_map_def map_add_def split: option.split)
    moreover have "distinct (map fst (peer_pairs m'))"
      using n dk by (simp add: p map_of_eq_None_iff)
    ultimately show ?thesis by blast
  next
    case (Some i)
    note i = findPeer_Some [OF Some wf]
    have p: "peer_pairs m' = (peer_pairs m)[i := (a, pub)]"
      using e Some enroll_existing_pairs [OF wf Some, of pub] by (auto simp: enroll_entry_def)
    have "i < length (peer_pairs m)" "fst (peer_pairs m ! i) = a"
      using dropPeer_pairs(2,3) [OF wf Some] .
    with map_of_update [OF dk, of i pub] dk show ?thesis
      by (simp add: p peer_map_def map_update) (metis list_update_id nth_map)
  qed
  then show "peer_map m' = (peer_map m)(a \<mapsto> pub)" "peers_distinct m'"
    by (simp_all add: peers_distinct_def keys_peer_pairs)
qed

lemma dropPeer_map:
  assumes wf: "mesh_wf m" and d: "peers_distinct m"
  shows "peer_map (dropPeer a m) = (peer_map m)(a := None)" "peers_distinct (dropPeer a m)"
proof -
  have dk: "distinct (map fst (peer_pairs m))" using d by (simp add: peers_distinct_def keys_peer_pairs)
  have "peer_map (dropPeer a m) = (peer_map m)(a := None) \<and> peers_distinct (dropPeer a m)"
  proof (cases "findPeer a m")
    case None
    then have "a \<notin> dom (peer_map m)" using findPeer_None by blast
    then have "(peer_map m)(a := None) = peer_map m" by (auto simp: fun_eq_iff)
    with None d show ?thesis by (simp add: dropPeer_def)
  next
    case (Some i)
    note p = dropPeer_pairs [OF wf Some]
    from map_of_swap_last [OF dk p(2)] show ?thesis
      by (simp add: peer_map_def p(1,3) peers_distinct_def flip: keys_peer_pairs)
  qed
  then show "peer_map (dropPeer a m) = (peer_map m)(a := None)" "peers_distinct (dropPeer a m)"
    by simp_all
qed

text \<open>
  C14. The peer table implements a finite map from MAC address to public key: enrolling updates
  the entry of that MAC and nothing else, removing (the swap with the last entry) deletes that
  entry and nothing else, look-up finds exactly the MACs of the map, enrollment is refused exactly
  when the MAC is new and ten peers are stored, and no operation creates a duplicate.
\<close>

theorem peer_table_is_map:
  assumes "mesh_wf m" and "peers_distinct m"
  shows "(findPeer a m = None \<longleftrightarrow> peer_map m a = None)
    \<and> (enroll_entry a pub m = None \<longleftrightarrow> peer_map m a = None \<and> MAX_PEERS \<le> peerCount m)
    \<and> (\<forall>m'. enroll_entry a pub m = Some m' \<longrightarrow>
          peer_map m' = (peer_map m)(a \<mapsto> pub) \<and> peers_distinct m')
    \<and> peer_map (dropPeer a m) = (peer_map m)(a := None) \<and> peers_distinct (dropPeer a m)"
proof -
  have look: "findPeer a m = None \<longleftrightarrow> peer_map m a = None"
    using findPeer_None by (simp add: domIff)
  have refuse: "enroll_entry a pub m = None \<longleftrightarrow> peer_map m a = None \<and> MAX_PEERS \<le> peerCount m"
    unfolding look [symmetric] by (simp add: enroll_entry_def split: option.split)
  show ?thesis
    using look refuse enroll_entry_map [OF assms] dropPeer_map [OF assms] by blast
qed

lemma routed_node_wf [simp]: "mesh_wf (mesh routed_node)" "peers_distinct (mesh routed_node)"
  by (simp_all add: peers_distinct_def)
    (use mesh_wf_Mesh in \<open>simp add: routed_node_def mesh_wf_def Mesh_def zero_peer_def list_all_iff
      numeral_eq_Suc\<close>)

theorem peer_table_is_map_witness:
  "peer_map (dropPeer nodeB (mesh routed_node)) = (peer_map (mesh routed_node))(nodeB := None)"
  using peer_table_is_map [of "mesh routed_node" nodeB "replicate 32 1"] by simp

section \<open>The stored peer list\<close>

lemma length_record_bytes: "length (publicKey p) = 32 \<Longrightarrow> length (record_bytes p) = 38"
  by (simp add: record_bytes_def)

lemma record_round:
  "length (publicKey p) = 32 \<Longrightarrow> peer_of_record (record_bytes p) = p\<lparr>lastSeenMillis := 0\<rparr>"
  by (cases p) (simp add: peer_of_record_def record_bytes_def)

lemma chunk_at:
  assumes "\<forall>x \<in> set xs. length (f x) = k" and "i < length xs"
  shows "take k (drop (i * k) (concat (map f xs) @ rest)) = f (xs ! i)"
  using assms
proof (induction xs arbitrary: i)
  case (Cons x xs)
  then show ?case by (cases i) (simp_all add: drop_append)
qed simp

lemma chunks_length: "\<forall>x \<in> set xs. length (f x) = k \<Longrightarrow> length (concat (map f xs)) = length xs * k"
  by (induction xs) simp_all

lemma mac_pattern: "list_ex (\<lambda>b. b \<noteq> 0xFF) (mac_bytes a) \<longleftrightarrow> a \<noteq> broadcast_mac"
  by (cases a) (auto simp: mac_bytes_def broadcast_mac_def)

definition stored_peer :: "PeerInfo \<Rightarrow> PeerInfo" where
  "stored_peer p = p\<lparr>lastSeenMillis := 0\<rparr>"

lemma load_records_prefix:
  assumes "\<forall>p \<in> set ps. length (publicKey p) = 32 \<and> peerMac p \<noteq> broadcast_mac"
    and "recs = concat (map record_bytes ps) @ rest" and "n \<le> length ps" "length ps \<le> MAX_PEERS"
    and "mesh_wf m" "peerCount m = 0"
  shows "peers (fold (load_record recs) [0..<n] m) = map stored_peer (take n ps)
    \<and> mesh_wf (fold (load_record recs) [0..<n] m)"
  using assms(3)
proof (induction n)
  case 0
  with assms show ?case by (simp add: peers_def)
next
  case (Suc n)
  define m1 where "m1 = fold (load_record recs) [0..<n] m"
  have IH: "peers m1 = map stored_peer (take n ps)" "mesh_wf m1" using Suc by (simp_all add: m1_def)
  have n: "n < length ps" using Suc.prems by simp
  have p: "length (publicKey (ps ! n)) = 32" "peerMac (ps ! n) \<noteq> broadcast_mac"
    using assms(1) n nth_mem by blast+
  have rec: "take 38 (drop (n * 38) recs) = record_bytes (ps ! n)"
    unfolding assms(2) using assms(1) n by (intro chunk_at) (auto simp: length_record_bytes)
  have "load_record recs n m1 = snd (appendPeer (stored_peer (ps ! n)) m1)"
    using p by (simp add: load_record_def rec record_round stored_peer_def Let_def)
      (simp add: record_bytes_def mac_pattern)
  moreover have "peerCount m1 = n"
  proof -
    have "length (peers m1) = peerCount m1" using IH(2) by (simp add: peers_def mesh_wf_def)
    with IH(1) n show ?thesis by simp
  qed
  moreover have "length (publicKey (stored_peer (ps ! n))) = 32" using p(1) by (simp add: stored_peer_def)
  moreover have "mesh_wf (snd (appendPeer (stored_peer (ps ! n)) m1))"
    using IH(2) p(1)
    by (auto simp: appendPeer_def mesh_wf_def stored_peer_def intro!: list_all_update)
  ultimately show ?case
    using IH n assms(4) by (simp add: appendPeer_peers take_Suc_conv_app_nth flip: m1_def)
qed

lemma load_erased_records:
  assumes "\<forall>i \<in> set is. take 38 (drop (i * 38) recs) = replicate 38 0xFF"
  shows "fold (load_record recs) is m = m"
  using assms by (induction "is" arbitrary: m) (simp_all add: load_record_def list_ex_iff)

lemma peer_records_eq:
  assumes "mesh_wf m"
  shows "peer_records m = concat (map record_bytes (peers m))
      @ replicate (PEER_LIST_SIZE - PEER_RECORD_SIZE * length (peers m)) 0xFF"
    "length (peer_records m) = PEER_LIST_SIZE"
    "length (peers m) = peerCount m" "length (peers m) \<le> MAX_PEERS"
proof -
  show len: "length (peers m) = peerCount m" "length (peers m) \<le> MAX_PEERS"
    using assms by (simp_all add: peers_def mesh_wf_def)
  then show e: "peer_records m = concat (map record_bytes (peers m))
      @ replicate (PEER_LIST_SIZE - PEER_RECORD_SIZE * length (peers m)) 0xFF"
    by (simp add: peer_records_def Let_def)
  have "\<forall>p \<in> set (peers m). length (record_bytes p) = 38"
    using assms by (auto simp: peers_def mesh_wf_def list_all_iff length_record_bytes
        dest!: in_set_takeD)
  from chunks_length [OF this] show "length (peer_records m) = PEER_LIST_SIZE"
    using len(2) by (simp add: e)
qed

lemma savePeerList_region:
  assumes "ee_wf e" "ee_init e" "\<not> ee_dev e" "length recs = PEER_LIST_SIZE" "n \<le> MAX_PEERS"
    and "savePeerList recs n e = Some e'"
  shows "ee_reads PEER_LIST PEER_LIST_SIZE e' =
    take (n * PEER_RECORD_SIZE) recs @ replicate (PEER_LIST_SIZE - n * PEER_RECORD_SIZE) 0xFF"
proof -
  let ?d = "take (n * 38) recs"
  have e': "e' = markDirty (ee_writes PEER_LIST ?d (ee_fill PEER_LIST PEER_LIST_SIZE e))"
    using assms by (simp add: savePeerList_def ensureInitialized_def)
  have len: "length (ee_cells e) = TOTAL_SIZE" using assms(1) by (simp add: ee_wf_def)
  have ld: "length ?d = n * 38" using assms(4,5) by simp
  show ?thesis
  proof (rule nth_equalityI)
    fix i
    assume "i < length (ee_reads PEER_LIST PEER_LIST_SIZE e')"
    then have i: "i < 380" by simp
    have "ee_reads PEER_LIST PEER_LIST_SIZE e' ! i =
        ee_read (32 + i) (ee_writes PEER_LIST ?d (ee_fill PEER_LIST PEER_LIST_SIZE e))"
      using i by (simp add: ee_reads_def e')
    also have "\<dots> = (?d @ replicate (380 - n * 38) 0xFF) ! i"
    proof (cases "i < n * 38")
      case True
      then show ?thesis
        using ld len assms(4,5) by (subst ee_read_writes_inside) (auto simp: nth_append)
    next
      case False
      then show ?thesis
        using ld len i assms(5) by (simp add: ee_read_writes_outside ee_read_fill_inside nth_append)
    qed
    finally show "ee_reads PEER_LIST PEER_LIST_SIZE e' ! i = (?d @ replicate (380 - n * 38) 0xFF) ! i" .
  qed (use ld assms(5) in simp)
qed


lemma flushed_region_survives:
  assumes "ee_init e" "ee_dirty e" "ee_commitOk e" "ee_wf e"
    and "ee_read SCHEMA_VERSION e = CURRENT_SCHEMA_VERSION"
    and "a + n \<le> REBOOT_REASON \<or> REBOOT_COUNT < a"
  shows "ee_reads a n (eeprom_init (ee_power_cycle (forceFlush t e))) = ee_reads a n e"
proof -
  let ?p = "ee_power_cycle (forceFlush t e)"
  have rd: "ee_read x ?p = ee_read x e" for x
  proof -
    have "ee_flash (forceFlush t e) = ee_cells e"
      using assms(2,3) by (simp add: forceFlush_def ee_commit_def)
    then show ?thesis unfolding ee_read_power by (simp add: ee_read_def)
  qed
  have "\<not> ee_init ?p" by (simp add: ee_power_cycle_def)
  then show ?thesis
    using assms(5,6) by (intro ee_reads_cong) (auto simp: eeprom_init_current rd)
qed

text \<open>
  C15. The peer list survives a reboot: after \<open>savePeersToEEPROM\<close>, a flush, a power cycle and
  \<open>loadPeersFromEEPROM\<close> on the restarted node, the table holds the same peers in the same order
  with the same public keys (and a last-seen time of zero), provided the table is not empty and no
  peer has the broadcast address, which is the pattern of an erased record.
\<close>

theorem peers_survive_reboot:
  assumes "mesh_wf (mesh s)" and "peers (mesh s) \<noteq> []"
    and "\<forall>p \<in> set (peers (mesh s)). peerMac p \<noteq> broadcast_mac"
    and "ee_wf (ee s)" "ee_init (ee s)" "\<not> ee_dev (ee s)" "ee_commitOk (ee s)"
    and "ee_read SCHEMA_VERSION (ee s) = CURRENT_SCHEMA_VERSION"
    and "mesh_wf (mesh t)"
  shows "peers (mesh (loadPeersFromEEPROM
      (t\<lparr>ee := eeprom_init (ee_power_cycle (forceFlush millis (ee (savePeersToEEPROM s))))\<rparr>)))
    = map stored_peer (peers (mesh s))"
proof -
  let ?ps = "peers (mesh s)" and ?recs = "peer_records (mesh s)" and ?n = "peerCount (mesh s)"
  note pr = peer_records_eq [OF assms(1)]
  have n: "?n \<le> 10" "length ?ps = ?n" using pr(3,4) by simp_all
  obtain e where e: "savePeerList ?recs ?n (ee s) = Some e"
    using assms(5,6) n pr(2) by (simp add: savePeerList_def ensureInitialized_def)
  have s': "ee (savePeersToEEPROM s) = e" by (simp add: savePeersToEEPROM_def e)
  have eq: "e = markDirty (ee_writes PEER_LIST (take (?n * 38) ?recs) (ee_fill PEER_LIST PEER_LIST_SIZE (ee s)))"
    using e assms(5,6) n pr(2) by (simp add: savePeerList_def ensureInitialized_def)
  have len38: "\<forall>p \<in> set ?ps. length (record_bytes p) = 38"
    using assms(1) by (auto simp: peers_def mesh_wf_def list_all_iff length_record_bytes dest!: in_set_takeD)
  have lr: "length (concat (map record_bytes ?ps)) = ?n * 38"
    using chunks_length [OF len38] n(2) by simp
  have "ee_reads PEER_LIST PEER_LIST_SIZE e = ?recs"
    using savePeerList_region [OF assms(4-6) pr(2) n(1) e] lr n(2) by (simp add: pr(1) mult.commute)
  moreover have "ee_read SCHEMA_VERSION e = CURRENT_SCHEMA_VERSION"
    using assms(8) n pr(2) by (simp add: eq ee_read_writes_outside ee_read_fill_outside)
  moreover have "ee_wf e" "ee_init e" "ee_dirty e" "ee_commitOk e"
    using assms(4-7) by (simp_all add: eq ee_wf_def)
  ultimately have rd: "ee_reads PEER_LIST PEER_LIST_SIZE
      (eeprom_init (ee_power_cycle (forceFlush millis e))) = ?recs"
    by (simp add: flushed_region_survives)
  define m0 where "m0 = (mesh t)\<lparr>peerCount := 0\<rparr>"
  have m0: "mesh_wf m0" "peerCount m0 = 0" using assms(9) by (simp_all add: m0_def mesh_wf_def)
  have load: "loadPeerList MAX_PEERS (eeprom_init (ee_power_cycle (forceFlush millis e))) = Some ?recs"
    using rd by (simp add: loadPeerList_def ensureInitialized_def eeprom_init_init)
  have keys: "\<forall>p \<in> set ?ps. length (publicKey p) = 32 \<and> peerMac p \<noteq> broadcast_mac"
    using assms(1,3) by (auto simp: peers_def mesh_wf_def list_all_iff dest!: in_set_takeD)
  have "peers (fold (load_record ?recs) [0..<?n] m0) = map stored_peer ?ps
      \<and> mesh_wf (fold (load_record ?recs) [0..<?n] m0)"
    using load_records_prefix [OF keys pr(1) _ _ m0, of ?n] n by simp
  moreover have "fold (load_record ?recs) [?n..<10] m = m" for m
  proof (rule load_erased_records, rule ballI)
    fix i
    assume "i \<in> set [?n..<10]"
    then have "?n \<le> i" "i < 10" by auto
    then show "take 38 (drop (i * 38) ?recs) = replicate 38 0xFF"
      using lr n(2) by (simp add: pr(1) min_def)
  qed
  moreover have "fold (load_record ?recs) [0..<10] m0
      = fold (load_record ?recs) [?n..<10] (fold (load_record ?recs) [0..<?n] m0)"
    using n(1) upt_add_eq_append [of 0 ?n "10 - ?n"] by simp
  ultimately have loaded: "peers (fold (load_record ?recs) [0..<10] m0) = map stored_peer ?ps"
    by simp
  then have "peerCount (fold (load_record ?recs) [0..<10] m0) \<noteq> 0"
    using assms(2) by (metis map_is_Nil_conv peers_def take_0)
  with loaded load show ?thesis
    by (simp add: loadPeersFromEEPROM_def s' Let_def flip: m0_def del: upt_Suc upt_rec_numeral)
qed

theorem peers_survive_reboot_witness:
  "peers (mesh (loadPeersFromEEPROM ((fresh_node nodeA False)\<lparr>ee := eeprom_init (ee_power_cycle
      (forceFlush 7 (ee (savePeersToEEPROM routed_node))))\<rparr>)))
   = [\<lparr>peerMac = nodeB, publicKey = replicate 32 0, lastSeenMillis = 0\<rparr>]"
proof -
  have "ee routed_node = ee_fresh" by (simp add: routed_node_def)
  moreover have "mesh_wf (mesh (fresh_node nodeA False))" using mesh_ok_fresh by (simp add: mesh_ok_def)
  ultimately show ?thesis
    using peers_survive_reboot [of routed_node "fresh_node nodeA False" 7] ee_fresh_facts
    by (simp add: broadcast_mac_def stored_peer_def)
qed

end
