(* ===== verification/Mesh_Enroll_Props.thy ===== *)
theory Mesh_Enroll_Props
  imports Mesh_Peer_Props
begin

text \<open>
  Enrollment across two nodes, the link keys they then share, and the identity of messages.
\<close>

section \<open>Lemmas\<close>

lemma dispatch_enrollment:
  "dispatch cb E (enrollment_request m) s = on_mesh (processEnrollmentRequest (enrollment_request m)) s"
  by (simp add: dispatch_def enrollment_request_def)

lemma dispatch_join_ack: "dispatch cb E (join_ack a pub m) s = processJoinAck E (join_ack a pub m) s"
  by (simp add: dispatch_def join_ack_def)

lemma request_wf: "length (devicePublicKey m) = 32 \<Longrightarrow> message_wf (enrollment_request m)"
  by (simp add: enrollment_request_def message_wf_def)

lemma join_ack_wf: "4 \<le> length pub \<Longrightarrow> message_wf (join_ack a pub m)"
  by (simp add: join_ack_def message_wf_def)

lemma savePeers_runs:
  assumes "mesh_wf (mesh s)" and "status s = Running"
  shows "status (savePeersToEEPROM s) = Running"
proof -
  have "length (peer_records (mesh s)) = PEER_LIST_SIZE" "peerCount (mesh s) \<le> 10"
    using peer_records_eq [OF assms(1)] by simp_all
  then show ?thesis
    using assms(2) by (simp add: savePeersToEEPROM_def savePeerList_def split: option.split)
qed

lemma register_runs:
  assumes "status s = Running" "derivePeerLMK E priv pub = Inr lmk"
  shows "status (registerPeerWithEspNow E a priv pub s) = Running"
  using assms by (simp add: registerPeerWithEspNow_def esp_now_add_peer_def)

lemma del_peer_fields [simp]:
  "mesh (esp_now_del_peer E a s) = mesh s" "status (esp_now_del_peer E a s) = status s"
  "radio_log (esp_now_del_peer E a s) = radio_log s" "ee (esp_now_del_peer E a s) = ee s"
  by (simp_all add: esp_now_del_peer_def)

lemma enrollPeer_result:
  assumes "status s = Running" "enroll_entry a pub (mesh s) = Some m" "mesh_wf m"
    and "derivePeerLMK E (devicePrivateKey m) pub = Inr lmk" and "\<And>a bs. send_ok E a bs"
  shows "mesh (enrollPeer E a pub s) = m"
    "radio_log (enrollPeer E a pub s) = radio_log s @ [(broadcast_mac, message_bytes (join_ack a pub m))]"
    "status (enrollPeer E a pub s) = Running"
proof -
  define t where "t = savePeersToEEPROM (s\<lparr>mesh := m\<rparr>)"
  have t: "status t = Running" "mesh t = m" "radio_log t = radio_log s"
    using savePeers_runs [of "s\<lparr>mesh := m\<rparr>"] assms(1,3) by (simp_all add: t_def)
  define u where "u = (let t1 = (if esp_now_is_peer_exist a t then esp_now_del_peer E a t else t)
     in registerPeerWithEspNow E a (devicePrivateKey (mesh t1)) pub t1)"
  have u: "status u = Running" "mesh u = m" "radio_log u = radio_log s"
    using t assms(4) by (simp_all add: u_def Let_def register_runs)
  have "andthen savePeersToEEPROM
      (\<lambda>t. let t1 = (if esp_now_is_peer_exist a t then esp_now_del_peer E a t else t)
           in registerPeerWithEspNow E a (devicePrivateKey (mesh t1)) pub t1) (s\<lparr>mesh := m\<rparr>) = u"
    using t(1) by (subst andthen_running) (simp_all add: t_def u_def)
  then have r: "enrollPeer E a pub s = esp_now_send E broadcast_mac (join_ack a pub (mesh u)) u"
    using u(1) assms(2) by (simp add: enrollPeer_def)
  show "mesh (enrollPeer E a pub s) = m" "status (enrollPeer E a pub s) = Running"
    "radio_log (enrollPeer E a pub s) = radio_log s @ [(broadcast_mac, message_bytes (join_ack a pub m))]"
    using u assms(5) by (simp_all add: r esp_now_send_def)
qed

lemma enroll_entry_keys:
  assumes "enroll_entry a pub m = Some m'"
  shows "deviceMac m' = deviceMac m" "devicePrivateKey m' = devicePrivateKey m"
  using assms
  by (auto simp: enroll_entry_def appendPeer_def split: option.splits if_splits)

lemma enroll_wf:
  assumes "enroll_entry a pub m = Some m'" "mesh_wf m" "length pub = 32"
  shows "mesh_wf m'"
  using assms
  by (auto simp: enroll_entry_def appendPeer_def mesh_wf_def intro!: list_all_update
      split: option.splits if_splits)

section \<open>The handshake\<close>

text \<open>The three steps: the request arrives at a master, is approved there, and the answer arrives.\<close>

definition room_for_peer :: "'a meshnode_scheme \<Rightarrow> bool" where
  "room_for_peer k \<longleftrightarrow> mesh_wf (mesh k) \<and> peers_distinct (mesh k) \<and> status k = Running
     \<and> peerCount (mesh k) < MAX_PEERS"

definition awaits_ack :: "'a meshnode_scheme \<Rightarrow> bool" where
  "awaits_ack n \<longleftrightarrow> mesh_wf (mesh n) \<and> \<not> hasMasterMac (mesh n) \<and> ee_wf (ee n) \<and> ee_init (ee n)
     \<and> \<not> ee_dev (ee n) \<and> ee_commitOk (ee n)"

definition asked_by :: "mac \<Rightarrow> byte list \<Rightarrow> bool \<Rightarrow> mesh_state \<Rightarrow> mesh_state" where
  "asked_by a pub b m = m\<lparr>pendingEnrollmentMac := a, pendingEnrollmentPubKey := pub, pendingEnrollmentRelay := b\<rparr>"

lemma asked_by_fields [simp]:
  "pendingEnrollmentMac (asked_by a pub b m) = a" "pendingEnrollmentPubKey (asked_by a pub b m) = pub"
  "pendingEnrollmentRelay (asked_by a pub b m) = b" "deviceMac (asked_by a pub b m) = deviceMac m"
  "devicePrivateKey (asked_by a pub b m) = devicePrivateKey m" "isMaster (asked_by a pub b m) = isMaster m"
  "peerCount (asked_by a pub b m) = peerCount m" "peer_map (asked_by a pub b m) = peer_map m"
  "peers_distinct (asked_by a pub b m) = peers_distinct m"
  "length pub = 32 \<Longrightarrow> mesh_wf m \<Longrightarrow> mesh_wf (asked_by a pub b m)"
  by (simp_all add: asked_by_def mesh_wf_def peers_distinct_def peer_map_def peer_pairs_def peers_def)

lemma request_received:
  assumes "length (devicePublicKey m) = 32" "isMaster (mesh k)"
  shows "dispatch cb E (message_of_bytes (message_bytes (enrollment_request m))) k
    = on_mesh (asked_by (deviceMac m) (devicePublicKey m) True) k"
  using assms(2)
  by (simp add: request_wf [OF assms(1)] dispatch_enrollment on_mesh_def processEnrollmentRequest_def asked_by_def)
    (simp add: enrollment_request_def)

lemma enrollment_approved:
  assumes "room_for_peer k" "length pub = 32" "\<And>a bs. send_ok E a bs"
    and "derivePeerLMK E (devicePrivateKey (mesh k)) pub = Inr lmk"
  shows "peer_map (mesh (enrollPeer E a pub k)) = (peer_map (mesh k))(a \<mapsto> pub)
    \<and> status (enrollPeer E a pub k) = Running
    \<and> (\<exists>m. deviceMac m = deviceMac (mesh k)
         \<and> radio_log (enrollPeer E a pub k) = radio_log k @ [(broadcast_mac, message_bytes (join_ack a pub m))])"
proof -
  have k: "mesh_wf (mesh k)" "peers_distinct (mesh k)" "status k = Running" "peerCount (mesh k) < MAX_PEERS"
    using assms(1) by (simp_all add: room_for_peer_def)
  obtain m where m: "enroll_entry a pub (mesh k) = Some m"
    using k(4) by (cases "findPeer a (mesh k)") (auto simp: enroll_entry_def)
  note map = enroll_entry_map [OF k(1,2) m] and keys = enroll_entry_keys [OF m]
  have "derivePeerLMK E (devicePrivateKey m) pub = Inr lmk" using assms(4) keys(2) by simp
  note r = enrollPeer_result [OF k(3) m enroll_wf [OF m k(1) assms(2)] this assms(3)]
  show ?thesis using map(1) keys(1) r by auto
qed

lemma join_ack_accepted:
  assumes "awaits_ack n"
    and "n1 = dispatch cb E (message_of_bytes
        (message_bytes (join_ack (deviceMac (mesh n)) (devicePublicKey (mesh n)) m))) n"
  shows "isEnrolled n1 \<and> hasMasterMac (mesh n1) \<and> knownMasterMac (mesh n1) = deviceMac m
    \<and> ee_flash (ee n1) = ee_cells (ee n1)"
proof -
  let ?ack = "join_ack (deviceMac (mesh n)) (devicePublicKey (mesh n)) m"
  have n: "length (devicePublicKey (mesh n)) = 32" "\<not> hasMasterMac (mesh n)" "ee_wf (ee n)" "ee_init (ee n)"
    "\<not> ee_dev (ee n)" "ee_commitOk (ee n)"
    using assms(1) by (simp_all add: awaits_ack_def mesh_wf_def)
  have n1: "n1 = processJoinAck E ?ack n"
    using n(1) by (simp add: assms(2) dispatch_join_ack join_ack_wf)
  have "ee_read ENROLLED_FLAG (ee_write ENROLLED_FLAG 1 (ee n)) = 1"
    using n(3) by (simp add: ee_read_write_same ee_wf_def)
  then have "isEnrolled n1"
    using n by (simp add: n1 processJoinAck_def join_ack_def Let_def isEnrolled_def saveEnrolledFlag_def
        loadEnrolledFlag_def ensureInitialized_def saveKnownMasterMac_def save_mac_at_def
        ee_read_writes_outside)
  moreover have "hasMasterMac (mesh n1)" "knownMasterMac (mesh n1) = deviceMac m"
    using n(1,2) by (simp_all add: n1 processJoinAck_def join_ack_def Let_def)
  moreover have "ee_flash (ee n1) = ee_cells (ee n1)"
    using n by (simp add: n1 processJoinAck_def join_ack_def Let_def saveEnrolledFlag_def
        ensureInitialized_def saveKnownMasterMac_def save_mac_at_def) (simp add: ee_commit_def)
  ultimately show ?thesis by blast
qed

text \<open>
  The handshake when the approval is given at once: the master's table maps the node's address to its
  public key, and the node that hears the answer is enrolled and trusts the master's address, with
  both facts in flash.
\<close>

theorem enrollment_handshake:
  assumes "awaits_ack n" "room_for_peer k" "isMaster (mesh k)" "\<And>a bs. send_ok E a bs"
    and "derivePeerLMK E (devicePrivateKey (mesh k)) (devicePublicKey (mesh n)) = Inr lmk"
    and "k1 = dispatch cb E (message_of_bytes (message_bytes (enrollment_request (mesh n)))) k"
    and "k2 = enrollPeer E (pendingEnrollmentMac (mesh k1)) (pendingEnrollmentPubKey (mesh k1)) k1"
    and "n1 = dispatch cb' E' (message_of_bytes (snd (last (radio_log k2)))) n"
  shows "peer_map (mesh k2) = (peer_map (mesh k))(deviceMac (mesh n) \<mapsto> devicePublicKey (mesh n))
    \<and> fst (last (radio_log k2)) = broadcast_mac
    \<and> isEnrolled n1 \<and> hasMasterMac (mesh n1) \<and> knownMasterMac (mesh n1) = deviceMac (mesh k)
    \<and> ee_flash (ee n1) = ee_cells (ee n1)"
proof -
  let ?pub = "devicePublicKey (mesh n)"
  have pub: "length ?pub = 32" using assms(1) by (simp add: awaits_ack_def mesh_wf_def)
  have k1: "k1 = on_mesh (asked_by (deviceMac (mesh n)) ?pub True) k"
    by (simp add: assms(6) request_received [OF pub assms(3)])
  have "room_for_peer k1" using assms(2) pub by (simp add: room_for_peer_def k1)
  moreover have "derivePeerLMK E (devicePrivateKey (mesh k1)) ?pub = Inr lmk" using assms(5) by (simp add: k1)
  ultimately obtain m where "peer_map (mesh k2) = (peer_map (mesh k1))(deviceMac (mesh n) \<mapsto> ?pub)"
      "deviceMac m = deviceMac (mesh k1)"
      "radio_log k2 = radio_log k1 @ [(broadcast_mac, message_bytes (join_ack (deviceMac (mesh n)) ?pub m))]"
    using enrollment_approved [OF _ pub assms(4), of k1 lmk "deviceMac (mesh n)"]
    by (auto simp: assms(7)) (auto simp: k1)
  with join_ack_accepted [OF assms(1), of n1 cb' E' m] assms(8) show ?thesis by (simp add: k1)
qed

theorem enrollment_handshake_witness:
  "let n = fresh_node nodeA False; k = fresh_node nodeB True;
       k1 = dispatch None (quiet_env nodeB) (message_of_bytes (message_bytes (enrollment_request (mesh n)))) k;
       k2 = enrollPeer (quiet_env nodeB) (pendingEnrollmentMac (mesh k1)) (pendingEnrollmentPubKey (mesh k1)) k1;
       n1 = dispatch None (quiet_env nodeA) (message_of_bytes (snd (last (radio_log k2)))) n
   in isEnrolled n1 \<and> knownMasterMac (mesh n1) = nodeB"
proof -
  have wf: "mesh_wf (Mesh\<lparr>deviceMac := a, isMaster := b\<rparr>)" for a b
    using mesh_ok_fresh by (simp add: mesh_ok_def)
  have "awaits_ack (fresh_node nodeA False)"
    by (simp add: awaits_ack_def wf ee_fresh_facts) (simp add: Mesh_def)
  moreover have "room_for_peer (fresh_node nodeB True)"
    by (simp add: room_for_peer_def wf peers_distinct_def) (simp add: Mesh_def peers_def)
  moreover have "derivePeerLMK (quiet_env nodeB) x y = Inr (replicate 16 2)" for x y
    by (simp add: derivePeerLMK_def)
  ultimately show ?thesis
    using enrollment_handshake [OF _ _ _ _ _ refl refl refl, of "fresh_node nodeA False" "fresh_node nodeB True"
        "quiet_env nodeB" "replicate 16 2" None None "quiet_env nodeA"]
    by (simp add: Let_def)
qed

text \<open>
  Enrollment cannot be spoofed to a bystander: a join acknowledgement that is not addressed
  to this node, or whose fingerprint is not the first four bytes of this node's public key, leaves
  the enrolled flag and the trusted master as they are.
\<close>

theorem join_ack_needs_fingerprint:
  assumes "targetMac msg \<noteq> deviceMac (mesh s)
    \<or> take 4 (msgData msg) \<noteq> take 4 (devicePublicKey (mesh s))"
  shows "isEnrolled (processJoinAck E msg s) = isEnrolled s
    \<and> mesh (processJoinAck E msg s) = mesh s \<and> ee (processJoinAck E msg s) = ee s"
  using assms by (auto simp: processJoinAck_def isEnrolled_def)

theorem join_ack_needs_fingerprint_witness:
  "isEnrolled (processJoinAck (quiet_env nodeA) (join_ack nodeA (replicate 32 5) (mesh routed_node))
     (fresh_node nodeA False)) = isEnrolled (fresh_node nodeA False)"
proof -
  have "take 4 (msgData (join_ack nodeA (replicate 32 5) (mesh routed_node)))
      \<noteq> take 4 (devicePublicKey (mesh (fresh_node nodeA False)))"
    by (simp add: join_ack_def Mesh_def)
  then show ?thesis
    using join_ack_needs_fingerprint [of "join_ack nodeA (replicate 32 5) (mesh routed_node)"
        "fresh_node nodeA False"] by blast
qed

section \<open>Link keys\<close>

text \<open>
  Two enrolled nodes encrypt with the same key: if the Diffie-Hellman of the two key pairs
  agrees (the defining property of the exchange), the entries that the two nodes give to the radio
  driver for each other hold the same sixteen-byte key, and neither sends in clear.
\<close>

theorem link_keys_agree:
  assumes dh: "ecdh E privA pubB = ecdh E privB pubA" and lmk: "derivePeerLMK E privA pubB = Inr lmk"
    and keys: "list_ex (\<lambda>b. b \<noteq> 0) pubA" "list_ex (\<lambda>b. b \<noteq> 0) pubB"
    and new: "\<not> esp_now_is_peer_exist macB sa" "\<not> esp_now_is_peer_exist macA sb"
    and ok: "add_peer_ok E macA" "add_peer_ok E macB"
  shows "espPeers (registerPeerWithEspNow E macB privA pubB sa) = espPeers sa @ [(macB, Some lmk)]
    \<and> espPeers (registerPeerWithEspNow E macA privB pubA sb) = espPeers sb @ [(macA, Some lmk)]"
proof -
  have "derivePeerLMK E privB pubA = Inr lmk" using lmk dh by (simp add: derivePeerLMK_def)
  with assms show ?thesis
    by (simp add: registerPeerWithEspNow_def esp_now_add_peer_def check_esp_def)
qed

theorem link_keys_agree_witness:
  "espPeers (registerPeerWithEspNow (quiet_env nodeA) nodeB (replicate 32 3) (replicate 32 4)
     (fresh_node nodeA False)) = [(broadcast_mac, None), (nodeB, Some (replicate 16 2))]"
  using link_keys_agree [of "quiet_env nodeA" "replicate 32 3" "replicate 32 4" "replicate 32 7"
      "replicate 32 9" "replicate 16 2" nodeB "fresh_node nodeA False" nodeA "fresh_node nodeC False"]
  by (simp add: derivePeerLMK_def esp_now_is_peer_exist_def broadcast_mac_def list_ex_iff)

section \<open>Message identity\<close>

fun build_many :: "nat \<Rightarrow> mesh_state \<Rightarrow> mesh_message list" where
  "build_many 0 m = []"
| "build_many (Suc k) m =
     (case buildMessage 0 None MESH_TYPE_ADAPTER_DATA m of
        None \<Rightarrow> []
      | Some (msg, m') \<Rightarrow> msg # build_many k m')"

lemma build_many_nth:
  "i < k \<Longrightarrow> length (build_many k m) = k \<and> epochNum (build_many k m ! i) = bootEpoch m
     \<and> seqNum (build_many k m ! i) = txSeqNum m + of_nat (Suc i)
     \<and> originMac (build_many k m ! i) = deviceMac m"
proof (induction k arbitrary: i m)
  case (Suc k)
  let ?m = "m\<lparr>txSeqNum := txSeqNum m + 1\<rparr>"
  have len: "length (build_many j m') = j" for j and m' :: mesh_state
    by (induction j arbitrary: m') (simp_all add: buildMessage_def Let_def)
  show ?case
  proof (cases i)
    case 0
    then show ?thesis using len by (simp add: buildMessage_def Let_def)
  next
    case (Suc j)
    then show ?thesis
      using Suc.IH [of j ?m] Suc.prems len by (simp add: buildMessage_def Let_def algebra_simps)
  qed
qed simp

text \<open>
  A node's own messages are never mistaken for replays of each other: any 65535 consecutive
  messages it builds in one boot have pairwise different (origin, epoch, sequence) identities, far
  more than the sixteen a receiver remembers.
\<close>

theorem message_identities_distinct:
  assumes "k < 2 ^ 16"
  shows "distinct (map replay_id (build_many k m)) \<and> length (build_many k m) = k"
proof
  have len: "length (build_many k m) = k"
    using build_many_nth [of 0 k m] by (cases k) auto
  show "distinct (map replay_id (build_many k m))"
    unfolding distinct_conv_nth
  proof (intro allI impI)
    fix i j
    assume ij: "i < length (map replay_id (build_many k m))"
      "j < length (map replay_id (build_many k m))" "i \<noteq> j"
    then have b: "i < k" "j < k" using len by simp_all
    have "(of_nat (Suc i) :: u16) \<noteq> of_nat (Suc j)"
    proof
      assume "(of_nat (Suc i) :: u16) = of_nat (Suc j)"
      then have "unat (of_nat (Suc i) :: u16) = unat (of_nat (Suc j) :: u16)" by simp
      then show False using b assms ij(3) by (simp only: unat_of_nat) simp
    qed
    then show "map replay_id (build_many k m) ! i \<noteq> map replay_id (build_many k m) ! j"
      using build_many_nth [OF b(1), of m] build_many_nth [OF b(2), of m] ij
      by (simp add: replay_id_def)
  qed
  show "length (build_many k m) = k" by (rule len)
qed

theorem message_identities_distinct_witness: "distinct (map replay_id (build_many 3 Mesh))"
  using message_identities_distinct [of 3 Mesh] by simp

end
