(* ===== verification/Error_Props.thy ===== *)
theory Error_Props
  imports Error_Core
begin

text \<open>
  What an error report does: the code that the display shows, the blink pattern and its duration,
  when the device restarts, and what happens when the display does not answer.
\<close>

section \<open>The code on the display\<close>

text \<open>The first three digits of a number below 1000, by value.\<close>

lemma digits_of_code:
  fixes a b c :: int
  assumes "0 \<le> a" "a < 10" "0 \<le> b" "b < 10" "0 \<le> c" "c < 10"
  shows "digits4 (100 * a + 10 * b + c) = [0, a, b, c]"
proof -
  let ?v = "100 * a + 10 * b + c"
  have "?v div 10 = 10 * a + b" by (rule int_div_pos_eq [of _ _ _ c]) (use assms in simp_all)
  moreover have "?v div 100 = a"
    by (rule int_div_pos_eq [of _ _ _ "10 * b + c"]) (use assms in simp_all)
  moreover have "?v div 1000 = 0" by (rule div_pos_pos_trivial) (use assms in simp_all)
  moreover have "?v mod 10 = c" by (rule int_mod_pos_eq [of _ _ "10 * a + b"]) (use assms in simp_all)
  moreover have "(10 * a + b) mod 10 = b" by (rule int_mod_pos_eq [of _ _ a]) (use assms in simp_all)
  ultimately show ?thesis using assms by (simp add: digits4_def)
qed

lemma uint_makeErrorCode:
  "uint (makeErrorCode t m sub) = 100 * int (type_nat t) + 10 * int (module_nat m) + int (unat sub mod 10)"
  using unat_makeErrorCode [of t m sub] by (simp only: uint_nat)

lemma show_code:
  "show_segs (uint (makeErrorCode t m sub)) True =
     map encodeDigit [0, int (type_nat t), int (module_nat m), int (unat sub mod 10)]"
proof -
  have b: "int (type_nat t) < 10" "int (module_nat m) < 10" "int (unat sub mod 10) < 10"
    using type_nat_range [of t] module_nat_range [of m] by simp_all
  let ?v = "uint (makeErrorCode t m sub)"
  have v: "0 \<le> ?v" "?v \<le> 9999" using b by (simp_all add: uint_makeErrorCode)
  then have "show_digits ?v = digits4 ?v" by (simp add: show_digits_def clamp_display_def Let_def)
  also have "\<dots> = [0, int (type_nat t), int (module_nat m), int (unat sub mod 10)]"
    unfolding uint_makeErrorCode using b by (intro digits_of_code) simp_all
  finally have d: "show_digits ?v = [0, int (type_nat t), int (module_nat m), int (unat sub mod 10)]" .
  have u: "[0..<4] = [0, 1, 2, 3 :: nat]" by (simp add: upt_rec)
  show ?thesis unfolding show_segs_def d u using v(1) by (simp add: segment_at_def)
qed

text \<open>
  The display shows an error as "0", its type digit, its module digit and its sub-code digit,
  and two reports with sub-codes below ten look the same only if they are the same error: a fault
  can be read off the four digits without ambiguity.
\<close>

theorem error_code_readable:
  assumes "unat sub < 10" and "unat sub' < 10"
  shows "show_segs (uint (makeErrorCode t m sub)) True =
      map encodeDigit [0, int (type_nat t), int (module_nat m), int (unat sub)]
    \<and> (show_segs (uint (makeErrorCode t m sub)) True = show_segs (uint (makeErrorCode t' m' sub')) True
        \<longleftrightarrow> t = t' \<and> m = m' \<and> sub = sub')"
proof -
  let ?a = "[int (type_nat t), int (module_nat m), int (unat sub)]"
  let ?b = "[int (type_nat t'), int (module_nat m'), int (unat sub')]"
  have e: "show_segs (uint (makeErrorCode t m sub)) True = map encodeDigit (0 # ?a)"
    "show_segs (uint (makeErrorCode t' m' sub')) True = map encodeDigit (0 # ?b)"
    using assms by (simp_all add: show_code)
  have r: "set ?a \<subseteq> {0..<16}" "set ?b \<subseteq> {0..<16}"
    using assms type_nat_range [of t] module_nat_range [of m] type_nat_range [of t']
      module_nat_range [of m'] by (simp_all del: uint_nat of_nat_unat)
  have "map encodeDigit ?a = map encodeDigit ?b \<longleftrightarrow> ?a = ?b"
    by (rule inj_on_map_eq_map [OF inj_on_subset [OF encodeDigit_inj_on_hex]])
      (use r in blast)
  also have "\<dots> \<longleftrightarrow> t = t' \<and> m = m' \<and> sub = sub'" by (simp add: word_uint_eq_iff)
  finally show ?thesis using e by simp
qed

theorem error_code_readable_witness:
  "show_segs (uint (makeErrorCode COMM M_MESH 8)) True = [0x3F, 0x4F, 0x4F, 0x7F]"
  using error_code_readable [of 8 0 COMM M_MESH GENERIC M_CORE]
  by (simp add: encodeDigit_def FONT_def)

section \<open>The effect of a report\<close>

lemma blink_red_result:
  "0 < n \<Longrightarrow> now (blink_red n on off s) = now s + of_nat n * on + of_nat (n - 1) * off
     \<and> led_isOn (redLed (blink_red n on off s)) = False"
  by (auto simp: blink_red_def dest: blink_loop_result split: prod.splits)


definition lit_node :: node where
  "lit_node = \<lparr>now = 0, status = Running, out = [], redLed = (Led 33)\<lparr>led_initialized := True\<rparr>,
     greenLed = Led 26, errorLedSet = True, displaySet = True, ecInitialized = True,
     pendingBlink = False, pendingBlinkType = E_GENERIC, inCallbackContext = False\<rparr>"


section \<open>The display bus\<close>

text \<open>
  The chip receives what is sent: the bits it samples on the rising clock edges of
  \<open>writeByte\<close> are the eight bits of the byte, least significant first, then the released line of
  the acknowledge slot.
\<close>

theorem display_receives_byte:
  "sampled clk dio (writeByte b @ ws) = map (bit b) [0..<8] @ [True] @ sampled True True ws"
  by (simp add: writeByte_def sampled_write_bits)

text \<open>
  A display that answers shows the code after the seven bytes of the update, but one that does
  not answer (the driver is compiled in for a display the configuration calls optional) is fatal:
  the missing acknowledge is itself reported on the display, and the reports nest until the stack
  is exhausted, whatever its size.
\<close>

theorem silent_display_exhausts_stack:
  "signal_on_bus (Suc depth) (\<lambda>_. True) t k = (if shouldRestart t then BusRestart else Shown (k + 7))
   \<and> signal_on_bus depth (\<lambda>_. False) t k = StackOverflow"
  by (simp add: write_on_bus_live signal_on_bus_silent)

end
