(* ===== verification/Pb_Stream.thy ===== *)
theory Pb_Stream
  imports Prelude
begin

text \<open>
  The streams and primitive codings of the vendored protobuf library
  (Mesh/serialization/nanopb: pb_encode.c, pb_decode.c), for the buffer streams the firmware uses.
  An output stream is its capacity and the bytes written; one without a callback (\<open>sizing\<close>) has no
  capacity, and of what it is given only the length counts. An input stream is the bytes left. A
  function that returns \<open>false\<close> is \<open>None\<close>.
\<close>

section \<open>Streams\<close>

record pb_ostream =
  sizing :: bool
  max_size :: nat
  written :: "byte list"

definition pb_ostream_from_buffer :: "nat \<Rightarrow> pb_ostream" where
  "pb_ostream_from_buffer bufsize = \<lparr>sizing = False, max_size = bufsize, written = []\<rparr>"

definition pb_write :: "byte list \<Rightarrow> pb_ostream \<Rightarrow> pb_ostream option" where
  "pb_write buf s =
     (if length buf > 0 \<and> \<not> sizing s \<and> length (written s) + length buf > max_size s then None
      else Some (s\<lparr>written := written s @ buf\<rparr>))"

definition pb_read :: "nat \<Rightarrow> byte list \<Rightarrow> (byte list \<times> byte list) option" where
  "pb_read count bs =
     (if count = 0 then Some ([], bs) else if length bs < count then None
      else Some (take count bs, drop count bs))"

definition pb_readbyte :: "byte list \<Rightarrow> (byte \<times> byte list) option" where
  "pb_readbyte bs = (case bs of [] \<Rightarrow> None | b # rest \<Rightarrow> Some (b, rest))"

section \<open>Varints: encoding\<close>

text \<open>
  \<open>pb_encode_varint_32\<close> works on the two halves of the value. \<open>enc_low n\<close> is its first loop
  with \<open>n\<close> rounds left: the bytes put in the buffer, the pending byte, and what is left of
  \<open>low\<close>.
\<close>

fun enc_low :: "nat \<Rightarrow> byte \<Rightarrow> u32 \<Rightarrow> u32 \<Rightarrow> byte list \<times> byte" where
  "enc_low 0 b low high = ([], b)"
| "enc_low (Suc n) b low high =
     (if low \<noteq> 0 \<or> high \<noteq> 0
      then let (bs, b') = enc_low n (ucast (low AND 0x7F)) (drop_bit 7 low) high
           in ((b OR 0x80) # bs, b')
      else ([], b))"

lemma drop7_less: "h \<noteq> 0 \<Longrightarrow> unat (drop_bit 7 h) < unat (h :: u32)"
  unfolding unat_drop_bit_eq by (simp add: drop_bit_eq_div unat_gt_0)

text \<open>The loop over the upper half, from the pending byte.\<close>

function enc_high :: "byte \<Rightarrow> u32 \<Rightarrow> byte list" where
  "enc_high b high =
     (if high \<noteq> 0 then (b OR 0x80) # enc_high (ucast (high AND 0x7F)) (drop_bit 7 high) else [b])"
  by auto
termination by (relation "measure (\<lambda>(b, h). unat h)") (auto intro: drop7_less)

declare enc_high.simps [simp del]

definition varint_32_bytes :: "u32 \<Rightarrow> u32 \<Rightarrow> byte list" where
  "varint_32_bytes low high =
     (let (bs, b) = enc_low 4 (ucast (low AND 0x7F)) (drop_bit 7 low) high
      in bs @ (if high \<noteq> 0
               then enc_high (b OR ucast (push_bit 4 (high AND 0x07))) (drop_bit 3 high)
               else [b]))"

definition pb_encode_varint_32 :: "u32 \<Rightarrow> u32 \<Rightarrow> pb_ostream \<Rightarrow> pb_ostream option" where
  "pb_encode_varint_32 low high = pb_write (varint_32_bytes low high)"

definition pb_encode_varint :: "u64 \<Rightarrow> pb_ostream \<Rightarrow> pb_ostream option" where
  "pb_encode_varint value s =
     (if value \<le> 0x7F then pb_write [ucast value] s
      else pb_encode_varint_32 (ucast value) (ucast (drop_bit 32 value)) s)"

text \<open>\<open>value < 0\<close> is the sign bit of the 64-bit value.\<close>

definition zigzag :: "u64 \<Rightarrow> u64" where
  "zigzag value =
     (if bit value 63 then NOT (push_bit 1 (value AND drop_bit 1 (- 1))) else push_bit 1 value)"

definition pb_encode_svarint :: "u64 \<Rightarrow> pb_ostream \<Rightarrow> pb_ostream option" where
  "pb_encode_svarint value = pb_encode_varint (zigzag value)"

definition pb_encode_fixed32 :: "byte list \<Rightarrow> pb_ostream \<Rightarrow> pb_ostream option" where
  "pb_encode_fixed32 mem = pb_write (take 4 mem)"

definition pb_encode_fixed64 :: "byte list \<Rightarrow> pb_ostream \<Rightarrow> pb_ostream option" where
  "pb_encode_fixed64 mem = pb_write (take 8 mem)"

definition pb_encode_tag :: "byte \<Rightarrow> u32 \<Rightarrow> pb_ostream \<Rightarrow> pb_ostream option" where
  "pb_encode_tag wiretype field_number =
     pb_encode_varint (push_bit 3 (ucast field_number) OR ucast wiretype)"

definition pb_encode_string :: "byte list \<Rightarrow> pb_ostream \<Rightarrow> pb_ostream option" where
  "pb_encode_string buffer s =
     Option.bind (pb_encode_varint (of_nat (length buffer)) s) (pb_write buffer)"

section \<open>Varints: decoding\<close>

fun varint_loop :: "nat \<Rightarrow> u64 \<Rightarrow> byte list \<Rightarrow> (u64 \<times> byte list) option" where
  "varint_loop bitpos result [] = None"
| "varint_loop bitpos result (b # rest) =
     (if bitpos \<ge> 63 \<and> b AND 0xFE \<noteq> 0 then None
      else let result' = result OR push_bit bitpos (ucast (b AND 0x7F))
           in if b AND 0x80 \<noteq> 0 then varint_loop (bitpos + 7) result' rest
              else Some (result', rest))"

definition pb_decode_varint :: "byte list \<Rightarrow> (u64 \<times> byte list) option" where
  "pb_decode_varint = varint_loop 0 0"

text \<open>The multibyte case of \<open>pb_decode_varint32_eof\<close>.\<close>

fun varint32_loop :: "nat \<Rightarrow> u32 \<Rightarrow> byte list \<Rightarrow> (u32 \<times> byte list) option" where
  "varint32_loop bitpos result [] = None"
| "varint32_loop bitpos result (b # rest) =
     (let step = (if bitpos \<ge> 32 then
                    (let sign_extension = (if bitpos < 63 then 0xFF else 0x01);
                         valid_extension = (b AND 0x7F = 0 \<or> (drop_bit 31 result \<noteq> 0
                                              \<and> b = sign_extension))
                     in if bitpos \<ge> 64 \<or> \<not> valid_extension then None else Some result)
                  else if bitpos = 28 then
                    (if b AND 0x70 \<noteq> 0 \<and> b AND 0x78 \<noteq> 0x78 then None
                     else Some (result OR push_bit bitpos (ucast (b AND 0x0F))))
                  else Some (result OR push_bit bitpos (ucast (b AND 0x7F))))
      in case step of
           None \<Rightarrow> None
         | Some r \<Rightarrow> (if b AND 0x80 \<noteq> 0 then varint32_loop (bitpos + 7) r rest
                      else Some (r, rest)))"

text \<open>
  The first component is the end-of-file flag: set when the stream had no byte left at the start.
\<close>

definition pb_decode_varint32_eof :: "byte list \<Rightarrow> bool \<times> (u32 \<times> byte list) option" where
  "pb_decode_varint32_eof bs =
     (case pb_readbyte bs of
        None \<Rightarrow> (True, None)
      | Some (b, rest) \<Rightarrow>
          (False, if b AND 0x80 = 0 then Some (ucast b, rest)
                  else varint32_loop 7 (ucast (b AND 0x7F)) rest))"

definition pb_decode_varint32 :: "byte list \<Rightarrow> (u32 \<times> byte list) option" where
  "pb_decode_varint32 bs = snd (pb_decode_varint32_eof bs)"

definition unzigzag :: "u64 \<Rightarrow> u64" where
  "unzigzag value = (if value AND 1 \<noteq> 0 then NOT (drop_bit 1 value) else drop_bit 1 value)"

definition pb_decode_svarint :: "byte list \<Rightarrow> (u64 \<times> byte list) option" where
  "pb_decode_svarint bs = map_option (\<lambda>(v, rest). (unzigzag v, rest)) (pb_decode_varint bs)"

definition pb_decode_tag :: "byte list \<Rightarrow> bool \<times> (byte \<times> u32 \<times> byte list) option" where
  "pb_decode_tag bs =
     (let (eof, r) = pb_decode_varint32_eof bs
      in (eof, map_option (\<lambda>(temp, rest). (ucast (temp AND 7), drop_bit 3 temp, rest)) r))"

section \<open>Skipping\<close>

fun pb_skip_varint :: "byte list \<Rightarrow> byte list option" where
  "pb_skip_varint [] = None"
| "pb_skip_varint (b # rest) = (if b AND 0x80 \<noteq> 0 then pb_skip_varint rest else Some rest)"

definition pb_skip_string :: "byte list \<Rightarrow> byte list option" where
  "pb_skip_string bs =
     (case pb_decode_varint32 bs of
        None \<Rightarrow> None
      | Some (len, rest) \<Rightarrow> map_option snd (pb_read (unat len) rest))"

definition pb_skip_field :: "byte \<Rightarrow> byte list \<Rightarrow> byte list option" where
  "pb_skip_field wire_type bs =
     (if wire_type = 0 then pb_skip_varint bs
      else if wire_type = 1 then map_option snd (pb_read 8 bs)
      else if wire_type = 2 then pb_skip_string bs
      else if wire_type = 5 then map_option snd (pb_read 4 bs)
      else None)"

section \<open>Reference: base-128\<close>

fun leb128 :: "nat \<Rightarrow> byte list" where
  "leb128 n = (if n < 128 then [of_nat n] else of_nat (n mod 128 + 128) # leb128 (n div 128))"

declare leb128.simps [simp del]

end
