(* ===== verification/Pb_Lemmas.thy ===== *)
theory Pb_Lemmas
  imports Pb_Stream
begin

text \<open>
  The primitive codings against their reference: the split-in-halves encoder of
  \<open>pb_encode_varint\<close> writes the base-128 string of the value, both varint decoders read it
  back, and zigzag is undone by its inverse.
\<close>

section \<open>Words\<close>

lemma high_bits_clear: 
  assumes "unat (x :: 'a::len word) < 2 ^ n" "n \<le> k" shows "\<not> bit x k"
proof
  assume "bit x k"
  then have "bit (unat x) k" by (simp add: bit_unsigned_iff)
  moreover have "unat x < 2 ^ k" using assms(1) power_increasing [OF assms(2), of "2::nat"] by linarith
  ultimately show False by (simp add: bit_iff_odd)
qed

lemma or_push_add:
  "unat (x :: 'a::len word) < 2 ^ n \<Longrightarrow> x OR push_bit n y = x + push_bit n y"
  by (rule disjunctive_add_eq_or [symmetric], rule bit_word_eqI) (auto simp: bit_simps dest: high_bits_clear)

lemma or_80: "unat (b :: byte) < 128 \<Longrightarrow> b OR 0x80 = of_nat (unat b + 128)"
  using or_push_add [of b 7 1] by simp
lemma and_mask_mod: "unat (x AND mask n) = unat (x :: 'a::len word) mod 2 ^ n"
  unfolding take_bit_eq_mask [symmetric] unsigned_take_bit_eq by (rule take_bit_eq_mod)
lemma and_7f: "unat (x AND 0x7F) = unat (x :: 'a::len word) mod 128"
  using and_mask_mod [of x 7] by (simp add: mask_eq_decr_exp)
lemma unat_drop: "unat (drop_bit n x) = unat (x :: 'a::len word) div 2 ^ n"
  unfolding unat_drop_bit_eq by (simp add: drop_bit_eq_div)
lemma unat_to_byte: "unat (ucast (x :: 'a::len word) :: byte) = unat x mod 256"
  by (simp add: unsigned_ucast_eq take_bit_eq_mod)
lemma low7_byte: "unat (ucast (x AND 0x7F) :: byte) = unat (x :: 'a::len word) mod 128"
  by (simp only: unat_to_byte and_7f) simp

section \<open>The encoder writes base 128\<close>

lemma enc_high_leb: "unat b < 128 \<Longrightarrow> enc_high b h = leb128 (unat b + 128 * unat h)"
proof (induction b h rule: enc_high.induct)
  case (1 b h)
  show ?case
  proof (cases "h = 0")
    case True
    with 1 show ?thesis by (simp add: enc_high.simps leb128.simps)
  next
    case False
    have "enc_high (ucast (h AND 0x7F)) (drop_bit 7 h) = leb128 (unat h mod 128 + 128 * (unat h div 128))"
      using 1(1) [OF False] by (simp only: unat_drop low7_byte) simp
    then have r: "enc_high (ucast (h AND 0x7F)) (drop_bit 7 h) = leb128 (unat h)" by simp
    have "0 < unat h" using False by (simp add: unat_gt_0)
    with 1(2) False r show ?thesis
      by (subst enc_high.simps, subst leb128.simps) (simp add: or_80)
  qed
qed

text \<open>The rest of the code after the first loop.\<close>
definition enc_finish :: "byte \<Rightarrow> u32 \<Rightarrow> byte list" where
  "enc_finish b high = (if high \<noteq> 0
      then enc_high (b OR ucast (push_bit 4 (high AND 0x07))) (drop_bit 3 high) else [b])"

lemma ucast_push_bit: "(ucast (push_bit n (y :: u32)) :: byte) = push_bit n (ucast y)"
  by (rule bit_word_eqI) (auto simp: bit_simps)

lemma enc_finish_leb:
  assumes "unat b < 128" "high = 0 \<or> unat b < 16"
  shows "enc_finish b high = leb128 (unat b + 16 * unat high)"
proof (cases "high = 0")
  case True
  with assms show ?thesis by (simp add: enc_finish_def leb128.simps)
next
  case False
  then have b: "unat b < 2 ^ 4" using assms(2) by simp
  have h7: "unat (high AND 7) = unat high mod 8"
    using and_mask_mod [of high 3] by (simp add: mask_eq_decr_exp)
  have u: "unat (ucast (high AND 7) :: byte) = unat high mod 8"
    by (simp only: unat_to_byte h7) simp
  define y :: byte where "y = ucast (high AND 7)"
  have p: "unat (b OR push_bit 4 y) = unat b + 16 * (unat high mod 8)"
    unfolding or_push_add [OF b]
    using b u by (simp add: push_bit_eq_mult unat_word_ariths y_def)
  then have lt: "unat (b OR push_bit 4 y) < 128" using b by simp
  have e: "unat b + 16 * (unat high mod 8) + 128 * (unat high div 8) = unat b + 16 * unat high"
  proof -
    have "unat high mod 8 + 8 * (unat high div 8) = unat high" by simp
    then show ?thesis by linarith
  qed
  have "enc_finish b high = enc_high (b OR push_bit 4 y) (drop_bit 3 high)"
    unfolding y_def ucast_push_bit [symmetric] using False by (simp only: enc_finish_def if_True simp_thms)
  also have "\<dots> = leb128 (unat b + 16 * (unat high mod 8) + 128 * (unat high div 8))"
    using enc_high_leb [OF lt, of "drop_bit 3 high"] by (simp only: p unat_drop) simp
  finally show ?thesis by (simp only: e)
qed

lemma leb128_step: "0 < r \<Longrightarrow> b < 128 \<Longrightarrow> leb128 (b + 128 * r) = of_nat (b + 128) # leb128 r"
  by (subst leb128.simps) simp

lemma enc_low_leb:
  assumes "unat b < 128" and "unat low < 2 ^ (7 * Suc n - 3)"
  shows "(let (bs, b') = enc_low (Suc n) b low high in bs @ enc_finish b' high)
    = leb128 (unat b + 128 * (unat low + 2 ^ (7 * Suc n - 3) * unat high))"
  using assms
proof (induction n arbitrary: b low)
  case 0
  show ?case
  proof (cases "low \<noteq> 0 \<or> high \<noteq> 0")
    case True
    have l: "unat low < 16" using 0(2) by simp
    have "unat (ucast (low AND 0x7F) :: byte) = unat low" using l by (simp only: low7_byte) simp
    then have "enc_finish (ucast (low AND 0x7F)) high = leb128 (unat low + 16 * unat high)"
      using enc_finish_leb [of "ucast (low AND 0x7F)" high] l by simp
    moreover have pos: "0 < unat low + 2 ^ (7 * Suc 0 - 3) * unat high"
      using True by (auto simp: unat_gt_0)
    ultimately show ?thesis
      unfolding leb128_step [OF pos 0(1)] using True by (simp add: or_80 [OF 0(1)])
  next
    case False
    with 0 enc_finish_leb [of b high] show ?thesis by simp
  qed
next
  case (Suc n)
  show ?case
  proof (cases "low \<noteq> 0 \<or> high \<noteq> 0")
    case True
    let ?b = "ucast (low AND 0x7F) :: byte" and ?low = "drop_bit 7 low"
    have b: "unat ?b = unat low mod 128" by (rule low7_byte)
    have e: "7 * Suc (Suc n) - 3 = 7 + (7 * Suc n - 3)" by simp
    have lt: "unat ?low < 2 ^ (7 * Suc n - 3)"
      using Suc.prems(2) unfolding unat_drop e power_add by (simp add: less_mult_imp_div_less mult.commute)
    have sum: "unat low mod 128 + 128 * (unat low div 128 + 2 ^ (7 * Suc n - 3) * unat high)
        = unat low + 2 ^ (7 * Suc (Suc n) - 3) * unat high"
      unfolding e power_add by (simp add: algebra_simps)
    have b128: "unat ?b < 128" by (simp add: b)
    have drop7: "unat ?low = unat low div 128" by (simp add: unat_drop)
    have IH: "(let (bs, b') = enc_low (Suc n) ?b ?low high in bs @ enc_finish b' high)
        = leb128 (unat low + 2 ^ (7 * Suc (Suc n) - 3) * unat high)"
      by (rule Suc.IH [OF b128 lt, unfolded b drop7 sum])
    have pos: "0 < unat low + 2 ^ (7 * Suc (Suc n) - 3) * unat high" using True by (auto simp: unat_gt_0)
    have step: "enc_low (Suc (Suc n)) b low high
        = (let (bs, b') = enc_low (Suc n) ?b ?low high in ((b OR 0x80) # bs, b'))"
      by (subst enc_low.simps(2)) (simp only: if_P [OF True])
    show ?thesis
      unfolding leb128_step [OF pos Suc.prems(1)] IH [symmetric] step
      by (simp add: or_80 [OF Suc.prems(1)] Let_def split_beta del: enc_low.simps)
  next
    case False
    with Suc.prems enc_finish_leb [of b high] show ?thesis by simp
  qed
qed

lemma varint_32_leb: "varint_32_bytes low high = leb128 (unat low + 2 ^ 32 * unat high)"
proof -
  let ?b = "ucast (low AND 0x7F) :: byte" and ?low = "drop_bit 7 low"
  have b: "unat ?b = unat low mod 128" by (rule low7_byte)
  have b128: "unat ?b < 128" by (simp add: b)
  have drop7: "unat ?low = unat low div 128" by (simp add: unat_drop)
  have "unat low < 2 ^ 32" using unsigned_less [of low, where 'a = nat] by simp
  then have lt: "unat ?low < 2 ^ (7 * Suc 3 - 3)" unfolding drop7 by (simp add: less_mult_imp_div_less)
  have "unat low mod 128 + 128 * (unat low div 128) = unat low" by simp
  then have sum: "unat low mod 128 + 128 * (unat low div 128 + 2 ^ (7 * Suc 3 - 3) * unat high)
      = unat low + 2 ^ 32 * unat high" by simp
  have four: "enc_low 4 = enc_low (Suc 3)" by (rule arg_cong [of _ _ enc_low]) simp
  show ?thesis
    unfolding varint_32_bytes_def enc_finish_def [symmetric] four
    using enc_low_leb [OF b128 lt, of high] by (simp only: b drop7 sum)
qed

lemma u64_halves: "unat (ucast v :: u32) + 2 ^ 32 * unat (ucast (drop_bit 32 v) :: u32) = unat (v :: u64)"
proof -
  have "unat v < 2 ^ 64" using unsigned_less [of v, where 'a = nat] by simp
  then have "unat v div 2 ^ 32 < 2 ^ 32" by (simp add: less_mult_imp_div_less)
  then show ?thesis
    by (simp add: unsigned_ucast_eq take_bit_eq_mod unat_drop)
qed

lemma pb_encode_varint_leb128: "pb_encode_varint v s = pb_write (leb128 (unat v)) s"
proof (cases "v \<le> 0x7F")
  case True
  then have "unat v < 128" by (simp add: word_le_nat_alt)
  then have "leb128 (unat v) = [ucast v]"
    by (simp add: leb128.simps)
  with True show ?thesis by (simp add: pb_encode_varint_def)
next
  case False
  then show ?thesis
    using u64_halves [of v] by (simp add: pb_encode_varint_def pb_encode_varint_32_def varint_32_leb)
qed

section \<open>The decoders read it back\<close>

lemma or_of_nat:
  assumes "r < 2 ^ bp" and "r < 2 ^ LENGTH('a)"
  shows "(of_nat r :: 'a::len word) OR push_bit bp (of_nat m) = of_nat (r + 2 ^ bp * m)"
proof -
  have "unat (of_nat r :: 'a word) = r" using assms(2) by (simp add: unsigned_of_nat take_bit_nat_eq_self)
  then have "(of_nat r :: 'a word) OR push_bit bp (of_nat m) = of_nat r + push_bit bp (of_nat m)"
    using assms(1) by (intro or_push_add) simp
  then show ?thesis by (simp add: push_bit_eq_mult mult.commute)
qed

lemma unat_of_nat_byte: "n < 256 \<Longrightarrow> unat (of_nat n :: byte) = n"
  by (simp add: unsigned_of_nat take_bit_nat_eq_self)

lemma byte_low7: "n < 256 \<Longrightarrow> (ucast ((of_nat n :: byte) AND 0x7F) :: 'a::len word) = of_nat (n mod 128)"
proof -
  assume n: "n < 256"
  have "unat ((of_nat n :: byte) AND 0x7F) = n mod 128" by (simp only: and_7f unat_of_nat_byte [OF n])
  then show ?thesis by (metis of_nat_unat)
qed

lemma byte_cont: 
  assumes "n < 256" shows "(of_nat n :: byte) AND 0x80 = 0 \<longleftrightarrow> n < 128"
proof -
  have "(of_nat n :: byte) AND 0x80 = 0 \<longleftrightarrow> \<not> bit (of_nat n :: byte) 7"
    using and_exp_eq_0_iff_not_bit [of "of_nat n :: byte" 7] by simp
  also have "\<dots> \<longleftrightarrow> \<not> bit (unat (of_nat n :: byte)) 7"
    by (simp only: bit_unsigned_iff) simp
  also have "\<dots> \<longleftrightarrow> \<not> bit n 7" by (simp only: unat_of_nat_byte [OF assms])
  also have "\<dots> \<longleftrightarrow> n < 128"
  proof (cases "n < 128")
    case False
    then have "n div 128 = 1" using assms by (intro div_nat_eqI) auto
    with False show ?thesis by (simp add: bit_iff_odd)
  qed (simp add: bit_iff_odd)
  finally show ?thesis .
qed

lemma acc_bound:
  assumes "r < (2 :: nat) ^ (7 * k)"
  shows "r + 2 ^ (7 * k) * (n mod 128) < 2 ^ (7 * Suc k)"
proof -
  have "Suc (n mod 128) \<le> 128" by (simp add: Suc_leI)
  then have "2 ^ (7 * k) * Suc (n mod 128) \<le> 2 ^ (7 * k) * 128" by (rule mult_le_mono2)
  moreover have "2 ^ (7 * Suc k) = 2 ^ (7 * k) * (128 :: nat)" by (simp add: power_add)
  ultimately show ?thesis using assms by (simp only: mult_Suc_right)
qed

lemma acc_sum: "r + 2 ^ (7 * k) * (n mod 128) + 2 ^ (7 * Suc k) * (n div 128) = r + 2 ^ (7 * k) * (n :: nat)"
proof -
  have "2 ^ (7 * Suc k) = 2 ^ (7 * k) * (128 :: nat)" by (simp add: power_add)
  then have "2 ^ (7 * k) * (n mod 128) + 2 ^ (7 * Suc k) * (n div 128)
      = 2 ^ (7 * k) * (n mod 128 + 128 * (n div 128))"
    by (simp only: distrib_left mult.assoc)
  moreover have "n mod 128 + 128 * (n div 128) = n" by simp
  ultimately show ?thesis by (simp only: add.assoc)
qed

lemma varint_loop_leb128:
  assumes "r < 2 ^ (7 * k)" and "r + 2 ^ (7 * k) * n < 2 ^ 64"
  shows "varint_loop (7 * k) (of_nat r) (leb128 n @ rest) = Some (of_nat (r + 2 ^ (7 * k) * n), rest)"
  using assms
proof (induction n arbitrary: r k rule: leb128.induct)
  case (1 n)
  let ?m = "if n < 128 then n else n mod 128 + 128"
  have m: "?m < 256" "?m mod 128 = n mod 128" "?m < 128 \<longleftrightarrow> n < 128" by auto
  have head: "leb128 n @ rest = of_nat ?m # (if n < 128 then rest else leb128 (n div 128) @ rest)"
    by (subst leb128.simps) simp
  have r64: "r < 2 ^ LENGTH(64)" using 1(3) by simp
  have guard: "\<not> (63 \<le> 7 * k \<and> (of_nat ?m :: byte) AND 0xFE \<noteq> 0)"
  proof (cases "63 \<le> 7 * k")
    case True
    have "(2::nat) ^ 63 \<le> 2 ^ (7 * k)" using True by (intro power_increasing) auto
    then have "2 ^ 63 * 2 \<le> 2 ^ (7 * k) * n" if "2 \<le> n" using that by (rule mult_le_mono)
    then have "n < 2" using 1(3) by (cases "2 \<le> n") simp_all
    then have "n = 0 \<or> n = 1" by auto
    then show ?thesis by auto
  qed simp
  have acc: "(of_nat r :: u64) OR push_bit (7 * k) (ucast ((of_nat ?m :: byte) AND 0x7F))
      = of_nat (r + 2 ^ (7 * k) * (n mod 128))"
    unfolding byte_low7 [OF m(1)] m(2) by (rule or_of_nat [OF 1(2) r64])
  show ?case
  proof (cases "n < 128")
    case True
    then show ?thesis
      unfolding head using guard acc byte_cont [OF m(1)] by (simp add: Let_def)
  next
    case False
    note r' = acc_bound [OF 1(2), of n]
    note sum = acc_sum [of r k n]
    have "varint_loop (7 * Suc k) (of_nat (r + 2 ^ (7 * k) * (n mod 128))) (leb128 (n div 128) @ rest)
        = Some (of_nat (r + 2 ^ (7 * k) * n), rest)"
      using 1(1) [OF False r', unfolded sum, OF 1(3)] .
    moreover have "7 * k + 7 = 7 * Suc k" by simp
    ultimately show ?thesis
      unfolding head using False guard acc byte_cont [OF m(1)] m(3)
      by (simp only: varint_loop.simps if_False if_True Let_def simp_thms)
  qed
qed

lemma pb_decode_varint_leb128:
  "n < 2 ^ 64 \<Longrightarrow> pb_decode_varint (leb128 n @ rest) = Some (of_nat n, rest)"
  using varint_loop_leb128 [of 0 0 n rest] by (simp add: pb_decode_varint_def)

lemma byte_low4: "n < 16 \<Longrightarrow> (ucast ((of_nat n :: byte) AND 0x0F) :: 'a::len word) = of_nat n"
proof -
  assume n: "n < 16"
  have "unat ((of_nat n :: byte) AND 0x0F) = n"
    using and_mask_mod [of "of_nat n :: byte" 4] n by (simp add: mask_eq_decr_exp unat_of_nat_byte)
  then show ?thesis by (metis of_nat_unat)
qed

lemma and_high_bits: "unat (b :: byte) < 2 ^ n \<Longrightarrow> b AND push_bit n x = 0"
  by (intro bit_word_eqI) (auto simp: bit_simps dest: high_bits_clear)

lemma byte_high3: "n < 16 \<Longrightarrow> (of_nat n :: byte) AND 0x70 = 0"
  using and_high_bits [of "of_nat n" 4 7] by (simp add: unat_of_nat_byte)

lemma varint32_loop_last:
  assumes "r < 2 ^ 28" and "n < 16"
  shows "varint32_loop 28 (of_nat r) (leb128 n @ rest) = Some (of_nat (r + 2 ^ 28 * n), rest)"
proof -
  have "(of_nat r :: u32) OR push_bit 28 (of_nat n) = of_nat (r + 2 ^ 28 * n)"
    using assms by (intro or_of_nat) simp_all
  moreover have "leb128 n = [of_nat n]" using assms by (simp add: leb128.simps)
  moreover have "(of_nat n :: byte) AND 0x80 = 0" using byte_cont [of n] assms by simp
  ultimately show ?thesis
    by (simp add: byte_high3 [OF assms(2)] byte_low4 [OF assms(2)])
qed

lemma varint32_loop_leb128:
  assumes "r < 2 ^ (7 * k)" and "r + 2 ^ (7 * k) * n < 2 ^ 32" and "k \<le> 4"
  shows "varint32_loop (7 * k) (of_nat r) (leb128 n @ rest) = Some (of_nat (r + 2 ^ (7 * k) * n), rest)"
  using assms
proof (induction n arbitrary: r k rule: leb128.induct)
  case (1 n)
  let ?m = "if n < 128 then n else n mod 128 + 128"
  have m: "?m < 256" "?m mod 128 = n mod 128" "?m < 128 \<longleftrightarrow> n < 128" by auto
  have head: "leb128 n @ rest = of_nat ?m # (if n < 128 then rest else leb128 (n div 128) @ rest)"
    by (subst leb128.simps) simp
  have r32: "r < 2 ^ LENGTH(32)" using 1(3) by simp
  show ?case
  proof (cases "k = 4")
    case True
    with 1(3) have "n < 16" by simp
    with varint32_loop_last [of r n rest] 1(2) True show ?thesis by simp
  next
    case False
    with 1(4) have k: "k < 4" by simp
    then have pos: "\<not> 7 * k \<ge> 32" "7 * k \<noteq> 28" by auto
    have acc: "(of_nat r :: u32) OR push_bit (7 * k) (ucast ((of_nat ?m :: byte) AND 0x7F))
        = of_nat (r + 2 ^ (7 * k) * (n mod 128))"
      unfolding byte_low7 [OF m(1)] m(2) by (rule or_of_nat [OF 1(2) r32])
    show ?thesis
    proof (cases "n < 128")
      case True
      then show ?thesis
        unfolding head using pos acc byte_cont [OF m(1)] by (simp add: Let_def)
    next
      case False
      note r' = acc_bound [OF 1(2), of n]
      note sum = acc_sum [of r k n]
      have "varint32_loop (7 * Suc k) (of_nat (r + 2 ^ (7 * k) * (n mod 128))) (leb128 (n div 128) @ rest)
          = Some (of_nat (r + 2 ^ (7 * k) * n), rest)"
        using 1(1) [OF False r', unfolded sum, OF 1(3)] k by simp
      moreover have "7 * k + 7 = 7 * Suc k" by simp
      ultimately show ?thesis
        unfolding head using False pos acc byte_cont [OF m(1)] m(3)
        by (simp only: varint32_loop.simps if_False if_True Let_def simp_thms option.case)
    qed
  qed
qed

lemma pb_decode_varint32_leb128:
  assumes "n < 2 ^ 32"
  shows "pb_decode_varint32_eof (leb128 n @ rest) = (False, Some (of_nat n, rest))"
proof (cases "n < 128")
  case True
  then have "leb128 n = [of_nat n]" "(of_nat n :: byte) AND 0x80 = 0"
    using byte_cont [of n] by (simp_all add: leb128.simps)
  moreover have "(ucast (of_nat n :: byte) :: u32) = of_nat n"
  proof -
    have "unat (of_nat n :: byte) = n" using True by (intro unat_of_nat_byte) simp
    then show ?thesis by (metis of_nat_unat)
  qed
  ultimately show ?thesis by (simp add: pb_decode_varint32_eof_def pb_readbyte_def)
next
  case False
  let ?m = "n mod 128 + 128"
  have m: "?m < 256" "?m mod 128 = n mod 128" by auto
  have head: "leb128 n @ rest = of_nat ?m # leb128 (n div 128) @ rest"
    using False by (subst leb128.simps) simp
  have "varint32_loop (7 * 1) (of_nat (n mod 128)) (leb128 (n div 128) @ rest) = Some (of_nat n, rest)"
    using varint32_loop_leb128 [of "n mod 128" 1 "n div 128" rest] assms by simp
  then show ?thesis
    unfolding head using byte_cont [OF m(1)]
    by (simp only: pb_decode_varint32_eof_def pb_readbyte_def byte_low7 [OF m(1), unfolded m(2)]
        list.case option.case prod.case mult_1_right if_False append_Cons) simp
qed

section \<open>Zigzag\<close>

lemma and_one_bit0: "(x :: 'a::len word) AND 1 \<noteq> 0 \<longleftrightarrow> bit x 0"
  by (simp add: and_one_eq bit_0 odd_iff_mod_2_eq_one)

lemma bit_zigzag:
  "bit (zigzag v) n \<longleftrightarrow> n < 64 \<and> (if n = 0 then bit v 63 else bit v (n - 1) \<noteq> bit v 63)"
proof -
  have d: "bit (drop_bit 1 (- 1 :: u64)) k \<longleftrightarrow> k < 63" for k by (auto simp: bit_mask_iff)
  have p: "bit (push_bit 1 (x :: u64)) n \<longleftrightarrow> 0 < n \<and> n < 64 \<and> bit x (n - 1)" for x
    by (simp only: bit_push_bit_iff possible_bit_word) auto
  show ?thesis
  proof (cases "bit v 63")
    case True
    have "bit (zigzag v) n \<longleftrightarrow> n < 64 \<and> \<not> (0 < n \<and> n < 64 \<and> bit v (n - 1) \<and> n - 1 < 63)"
      by (simp only: zigzag_def True if_True bit_not_iff bit_and_iff p d possible_bit_word) simp
    with True show ?thesis by auto
  next
    case False
    then show ?thesis by (simp only: zigzag_def False if_False p) auto
  qed
qed

lemma zigzag_inverse: "unzigzag (zigzag v) = v"
proof (rule bit_word_eqI)
  fix n assume "n < LENGTH(64)"
  then have n: "n < 64" by simp
  have sign: "zigzag v AND 1 \<noteq> 0 \<longleftrightarrow> bit v 63" unfolding and_one_bit0 by (simp add: bit_zigzag)
  have shifted: "bit (drop_bit 1 (zigzag v)) n \<longleftrightarrow> n < 63 \<and> bit v n \<noteq> bit v 63"
    unfolding bit_drop_bit_eq comp_def bit_zigzag using n by auto
  have flipped: "bit (NOT (drop_bit 1 (zigzag v))) n \<longleftrightarrow> \<not> (n < 63 \<and> bit v n \<noteq> bit v 63)"
    unfolding bit_not_iff shifted using n by simp
  have top: "n < 63 \<or> n = 63" using n by auto
  show "bit (unzigzag (zigzag v)) n = bit v n"
  proof (cases "bit v 63")
    case True
    with sign have "unzigzag (zigzag v) = NOT (drop_bit 1 (zigzag v))" by (simp only: unzigzag_def if_True)
    with flipped True top show ?thesis by auto
  next
    case False
    with sign have "unzigzag (zigzag v) = drop_bit 1 (zigzag v)" by (simp only: unzigzag_def if_False)
    with shifted False top show ?thesis by auto
  qed
qed

end
