(* ===== verification/Pb_Codec.thy ===== *)
theory Pb_Codec
  imports Pb_Lemmas
begin

text \<open>
  The message encoder and decoder of nanopb (pb_encode.c, pb_decode.c, pb_common.c) for
  descriptors of static scalar, bytes and string fields, which is what \<open>mesh.proto\<close> declares:
  no repeated or oneof field, no submessage, extension, callback or pointer, and no descriptor
  default values. A field is its descriptor entry; the C structure is one cell per field, the
  memory at \<open>pData\<close> (\<open>data_size\<close> bytes, little-endian as on the ESP32) and the \<open>has\<close>
  flag at \<open>pSize\<close>.
\<close>

section \<open>Descriptors and cells\<close>

datatype pb_ltype = BOOL | VARINT | UVARINT | SVARINT | FIXED32 | FIXED64 | BYTES | STRING
  | FIXED_LENGTH_BYTES

text \<open>\<open>SINGULAR\<close> has the code of \<open>OPTIONAL\<close>; it differs by having no \<open>has\<close> flag.\<close>

datatype pb_htype = REQUIRED | OPTIONAL

record pb_field =
  ftag :: u32
  ltype :: pb_ltype
  htype :: pb_htype
  data_size :: nat
  has_psize :: bool

record pb_cell =
  has_value :: bool
  pData :: "byte list"

definition packable :: "pb_ltype \<Rightarrow> bool" where
  "packable t \<longleftrightarrow> t \<in> set [BOOL, VARINT, UVARINT, SVARINT, FIXED32, FIXED64]"

text \<open>\<open>pb_bytes_array_t\<close>: a 16-bit count and the bytes.\<close>

definition bytes_size :: "byte list \<Rightarrow> u16" where
  "bytes_size mem = le_word (take 2 mem)"

section \<open>Encoding a field\<close>

definition pb_check_proto3_default_value :: "pb_field \<Rightarrow> pb_cell \<Rightarrow> bool" where
  "pb_check_proto3_default_value fd c =
     (if htype fd = REQUIRED then False
      else if has_psize fd then \<not> has_value c
      else if packable (ltype fd) then list_all (\<lambda>b. b = 0) (take (data_size fd) (pData c))
      else if ltype fd = BYTES then bytes_size (pData c) = 0
      else if ltype fd = STRING then pData c ! 0 = 0
      else data_size fd = 0)"

fun wire_type_of :: "pb_ltype \<Rightarrow> byte" where
  "wire_type_of BOOL = 0"
| "wire_type_of VARINT = 0"
| "wire_type_of UVARINT = 0"
| "wire_type_of SVARINT = 0"
| "wire_type_of FIXED32 = 5"
| "wire_type_of FIXED64 = 1"
| "wire_type_of BYTES = 2"
| "wire_type_of STRING = 2"
| "wire_type_of FIXED_LENGTH_BYTES = 2"

definition pb_encode_tag_for_field :: "pb_field \<Rightarrow> pb_ostream \<Rightarrow> pb_ostream option" where
  "pb_encode_tag_for_field fd = pb_encode_tag (wire_type_of (ltype fd)) (ftag fd)"

definition pb_enc_bool :: "pb_cell \<Rightarrow> pb_ostream \<Rightarrow> pb_ostream option" where
  "pb_enc_bool c = pb_encode_varint (if pData c ! 0 \<noteq> 0 then 1 else 0)"

text \<open>The value of an integer field of 1, 2, 4 or 8 bytes, zero- or sign-extended to 64 bits.\<close>

definition unsigned_value :: "nat \<Rightarrow> byte list \<Rightarrow> u64 option" where
  "unsigned_value len mem =
     (if len = 1 \<or> len = 2 \<or> len = 4 \<or> len = 8 then Some (le_word (take len mem)) else None)"

definition signed_value :: "nat \<Rightarrow> byte list \<Rightarrow> u64 option" where
  "signed_value len mem =
     (if len = 1 then Some (scast (le_word (take 1 mem) :: byte))
      else if len = 2 then Some (scast (le_word (take 2 mem) :: u16))
      else if len = 4 then Some (scast (le_word (take 4 mem) :: u32))
      else if len = 8 then Some (le_word (take 8 mem))
      else None)"

definition pb_enc_varint :: "pb_field \<Rightarrow> pb_cell \<Rightarrow> pb_ostream \<Rightarrow> pb_ostream option" where
  "pb_enc_varint fd c s =
     (if ltype fd = UVARINT
      then Option.bind (unsigned_value (data_size fd) (pData c)) (\<lambda>v. pb_encode_varint v s)
      else Option.bind (signed_value (data_size fd) (pData c))
             (\<lambda>v. if ltype fd = SVARINT then pb_encode_svarint v s else pb_encode_varint v s))"

definition pb_enc_fixed :: "pb_field \<Rightarrow> pb_cell \<Rightarrow> pb_ostream \<Rightarrow> pb_ostream option" where
  "pb_enc_fixed fd c s =
     (if data_size fd = 4 then pb_encode_fixed32 (pData c) s
      else if data_size fd = 8 then pb_encode_fixed64 (pData c) s
      else None)"

definition pb_enc_bytes :: "pb_field \<Rightarrow> pb_cell \<Rightarrow> pb_ostream \<Rightarrow> pb_ostream option" where
  "pb_enc_bytes fd c s =
     (let len = unat (bytes_size (pData c))
      in if len > data_size fd - 2 then None
         else pb_encode_string (take len (drop 2 (pData c))) s)"

text \<open>The \<open>strnlen\<close> loop stops at the first NUL or after \<open>data_size - 1\<close> characters.\<close>

definition pb_enc_string :: "pb_field \<Rightarrow> pb_cell \<Rightarrow> pb_ostream \<Rightarrow> pb_ostream option" where
  "pb_enc_string fd c s =
     (if data_size fd = 0 then None
      else let str = takeWhile (\<lambda>b. b \<noteq> 0) (take (data_size fd - 1) (pData c))
           in if pData c ! length str \<noteq> 0 then None else pb_encode_string str s)"

definition pb_enc_fixed_length_bytes :: "pb_field \<Rightarrow> pb_cell \<Rightarrow> pb_ostream \<Rightarrow> pb_ostream option" where
  "pb_enc_fixed_length_bytes fd c = pb_encode_string (take (data_size fd) (pData c))"

fun enc_value :: "pb_ltype \<Rightarrow> pb_field \<Rightarrow> pb_cell \<Rightarrow> pb_ostream \<Rightarrow> pb_ostream option" where
  "enc_value BOOL fd c = pb_enc_bool c"
| "enc_value VARINT fd c = pb_enc_varint fd c"
| "enc_value UVARINT fd c = pb_enc_varint fd c"
| "enc_value SVARINT fd c = pb_enc_varint fd c"
| "enc_value FIXED32 fd c = pb_enc_fixed fd c"
| "enc_value FIXED64 fd c = pb_enc_fixed fd c"
| "enc_value BYTES fd c = pb_enc_bytes fd c"
| "enc_value STRING fd c = pb_enc_string fd c"
| "enc_value FIXED_LENGTH_BYTES fd c = pb_enc_fixed_length_bytes fd c"

definition encode_basic_field :: "pb_field \<Rightarrow> pb_cell \<Rightarrow> pb_ostream \<Rightarrow> pb_ostream option" where
  "encode_basic_field fd c s =
     Option.bind (pb_encode_tag_for_field fd s) (enc_value (ltype fd) fd c)"

definition encode_field :: "pb_field \<Rightarrow> pb_cell \<Rightarrow> pb_ostream \<Rightarrow> pb_ostream option" where
  "encode_field fd c s =
     (if htype fd = OPTIONAL \<and> has_psize fd \<and> \<not> has_value c then Some s
      else if htype fd = OPTIONAL \<and> \<not> has_psize fd \<and> pb_check_proto3_default_value fd c then Some s
      else encode_basic_field fd c s)"

text \<open>\<open>pb_encode\<close>: the fields in descriptor order, the first failure ends it.\<close>

fun pb_encode :: "pb_field list \<Rightarrow> pb_cell list \<Rightarrow> pb_ostream \<Rightarrow> pb_ostream option" where
  "pb_encode (fd # fds) (c # cs) s = Option.bind (encode_field fd c s) (pb_encode fds cs)"
| "pb_encode _ _ s = Some s"

section \<open>Finding a field\<close>

text \<open>
  The iterator is an index into the descriptor; its loaded values are those of that entry
  whenever a caller sees them. \<open>largest\<close> is the descriptor's \<open>largest_tag\<close>.
\<close>

definition advance_iterator :: "pb_field list \<Rightarrow> nat \<Rightarrow> nat" where
  "advance_iterator fds i = (if i + 1 \<ge> length fds then 0 else i + 1)"

text \<open>
  The search loop, at most \<open>fuel\<close> rounds: every round moves on by one entry and the loop ends
  when it is back at \<open>start\<close>, so \<open>length fds\<close> rounds are enough.
\<close>

fun find_loop :: "nat \<Rightarrow> pb_field list \<Rightarrow> nat \<Rightarrow> nat \<Rightarrow> u32 \<Rightarrow> nat option" where
  "find_loop 0 fds i start tag = None"
| "find_loop (Suc fuel) fds i start tag =
     (let j = advance_iterator fds i
      in if ftag (fds ! j) AND 0x3F = tag AND 0x3F \<and> ftag (fds ! j) = tag then Some j
         else if j = start then None
         else find_loop fuel fds j start tag)"

definition pb_field_iter_find :: "pb_field list \<Rightarrow> u32 \<Rightarrow> nat \<Rightarrow> u32 \<Rightarrow> nat option" where
  "pb_field_iter_find fds largest i tag =
     (if ftag (fds ! i) = tag then Some i
      else if tag > largest then None
      else find_loop (length fds) fds (if tag < ftag (fds ! i) then length fds else i) i tag)"

section \<open>Decoding a field\<close>

definition pb_decode_bool :: "byte list \<Rightarrow> (bool \<times> byte list) option" where
  "pb_decode_bool bs = map_option (\<lambda>(v, rest). (v \<noteq> 0, rest)) (pb_decode_varint32 bs)"

definition pb_dec_bool :: "byte list \<Rightarrow> byte list \<Rightarrow> (byte list \<times> byte list) option" where
  "pb_dec_bool bs mem =
     map_option (\<lambda>(v, rest). (mem[0 := if v then 1 else 0], rest)) (pb_decode_bool bs)"

text \<open>
  An integer is stored in the low \<open>len\<close> bytes and is too large if it does not read back.
\<close>

definition store_int :: "nat \<Rightarrow> (nat \<Rightarrow> byte list \<Rightarrow> u64 option) \<Rightarrow> u64 \<Rightarrow> byte list
    \<Rightarrow> byte list option" where
  "store_int len readback v mem =
     (let mem' = le_bytes len v @ drop len mem
      in if readback len mem' = Some v then Some mem' else None)"

definition narrow_varint :: "nat \<Rightarrow> u64 \<Rightarrow> u64" where
  "narrow_varint len v = (if len = 8 then v else scast (ucast v :: u32))"

definition pb_dec_varint :: "pb_field \<Rightarrow> byte list \<Rightarrow> byte list \<Rightarrow> (byte list \<times> byte list) option" where
  "pb_dec_varint fd bs mem =
     (let len = data_size fd;
          with_rest = (\<lambda>rest. map_option (\<lambda>mem'. (mem', rest)))
      in if ltype fd = UVARINT then
           Option.bind (pb_decode_varint bs)
             (\<lambda>(v, rest). with_rest rest (store_int len unsigned_value v mem))
         else if ltype fd = SVARINT then
           Option.bind (pb_decode_svarint bs)
             (\<lambda>(v, rest). with_rest rest (store_int len signed_value v mem))
         else
           Option.bind (pb_decode_varint bs)
             (\<lambda>(v, rest). with_rest rest (store_int len signed_value (narrow_varint len v) mem)))"

definition pb_dec_fixed :: "nat \<Rightarrow> byte list \<Rightarrow> byte list \<Rightarrow> (byte list \<times> byte list) option" where
  "pb_dec_fixed n bs mem = map_option (\<lambda>(u, rest). (u @ drop n mem, rest)) (pb_read n bs)"

definition pb_dec_bytes :: "pb_field \<Rightarrow> byte list \<Rightarrow> byte list \<Rightarrow> (byte list \<times> byte list) option" where
  "pb_dec_bytes fd bs mem =
     Option.bind (pb_decode_varint32 bs) (\<lambda>(len, rest).
       if len > 0xFFFF then None
       else if unat len + 2 > data_size fd then None
       else map_option (\<lambda>(d, rest'). (le_bytes 2 len @ d @ drop (unat len + 2) mem, rest'))
              (pb_read (unat len) rest))"

definition pb_dec_string :: "pb_field \<Rightarrow> byte list \<Rightarrow> byte list \<Rightarrow> (byte list \<times> byte list) option" where
  "pb_dec_string fd bs mem =
     Option.bind (pb_decode_varint32 bs) (\<lambda>(len, rest).
       if len = - 1 then None
       else if unat len + 1 > data_size fd then None
       else map_option (\<lambda>(d, rest'). (d @ [0] @ drop (unat len + 1) mem, rest'))
              (pb_read (unat len) rest))"

definition pb_dec_fixed_length_bytes :: "pb_field \<Rightarrow> byte list \<Rightarrow> byte list
    \<Rightarrow> (byte list \<times> byte list) option" where
  "pb_dec_fixed_length_bytes fd bs mem =
     Option.bind (pb_decode_varint32 bs) (\<lambda>(len, rest).
       if len > 0xFFFF then None
       else if len = 0 then Some (replicate (data_size fd) 0, rest)
       else if unat len \<noteq> data_size fd then None
       else pb_read (data_size fd) rest)"

text \<open>Wire type \<open>PB_WT_PACKED\<close> (0xFF) only arises inside packed arrays.\<close>

fun decode_basic_field :: "pb_ltype \<Rightarrow> byte \<Rightarrow> pb_field \<Rightarrow> byte list \<Rightarrow> byte list
    \<Rightarrow> (byte list \<times> byte list) option" where
  "decode_basic_field BOOL wt fd bs mem =
     (if wt \<noteq> 0 \<and> wt \<noteq> 0xFF then None else pb_dec_bool bs mem)"
| "decode_basic_field VARINT wt fd bs mem =
     (if wt \<noteq> 0 \<and> wt \<noteq> 0xFF then None else pb_dec_varint fd bs mem)"
| "decode_basic_field UVARINT wt fd bs mem =
     (if wt \<noteq> 0 \<and> wt \<noteq> 0xFF then None else pb_dec_varint fd bs mem)"
| "decode_basic_field SVARINT wt fd bs mem =
     (if wt \<noteq> 0 \<and> wt \<noteq> 0xFF then None else pb_dec_varint fd bs mem)"
| "decode_basic_field FIXED32 wt fd bs mem =
     (if wt \<noteq> 5 \<and> wt \<noteq> 0xFF then None else pb_dec_fixed 4 bs mem)"
| "decode_basic_field FIXED64 wt fd bs mem =
     (if wt \<noteq> 1 \<and> wt \<noteq> 0xFF then None else pb_dec_fixed 8 bs mem)"
| "decode_basic_field BYTES wt fd bs mem = (if wt \<noteq> 2 then None else pb_dec_bytes fd bs mem)"
| "decode_basic_field STRING wt fd bs mem = (if wt \<noteq> 2 then None else pb_dec_string fd bs mem)"
| "decode_basic_field FIXED_LENGTH_BYTES wt fd bs mem =
     (if wt \<noteq> 2 then None else pb_dec_fixed_length_bytes fd bs mem)"

definition decode_static_field :: "byte \<Rightarrow> pb_field \<Rightarrow> byte list \<Rightarrow> pb_cell
    \<Rightarrow> (pb_cell \<times> byte list) option" where
  "decode_static_field wt fd bs c =
     (let c1 = (if htype fd = OPTIONAL \<and> has_psize fd then c\<lparr>has_value := True\<rparr> else c)
      in map_option (\<lambda>(mem, rest). (c1\<lparr>pData := mem\<rparr>, rest))
           (decode_basic_field (ltype fd) wt fd bs (pData c1)))"

section \<open>Decoding a message\<close>

definition pb_field_set_to_default :: "pb_field \<Rightarrow> pb_cell \<Rightarrow> pb_cell" where
  "pb_field_set_to_default fd c =
     (let c1 = (if htype fd = OPTIONAL \<and> has_psize fd then c\<lparr>has_value := False\<rparr> else c)
      in c1\<lparr>pData := replicate (data_size fd) 0\<rparr>)"

definition pb_message_set_to_defaults :: "pb_field list \<Rightarrow> pb_cell list \<Rightarrow> pb_cell list" where
  "pb_message_set_to_defaults fds cs = map2 pb_field_set_to_default fds cs"

record pb_descriptor =
  field_list :: "pb_field list"
  largest_tag :: u32

text \<open>
  One round of the loop of \<open>pb_decode_inner\<close>: \<open>None\<close> fails, otherwise the iterator, the cells,
  the fields seen and the rest of the stream. A required field seen is recorded by its index.
\<close>

definition decode_round :: "pb_descriptor \<Rightarrow> nat \<Rightarrow> pb_cell list \<Rightarrow> nat list \<Rightarrow> byte list
    \<Rightarrow> (nat \<times> pb_cell list \<times> nat list \<times> byte list) option" where
  "decode_round D i cs seen bs =
     (case snd (pb_decode_tag bs) of
        None \<Rightarrow> (if fst (pb_decode_tag bs) then Some (i, cs, seen, []) else None)
      | Some (wt, tag, rest) \<Rightarrow>
          (if tag = 0 then None
           else case pb_field_iter_find (field_list D) (largest_tag D) i tag of
             None \<Rightarrow> map_option (\<lambda>rest'. (i, cs, seen, rest')) (pb_skip_field wt rest)
           | Some j \<Rightarrow>
               map_option
                 (\<lambda>(c, rest'). (j, cs[j := c],
                    (if htype (field_list D ! j) = REQUIRED then j # seen else seen), rest'))
                 (decode_static_field wt (field_list D ! j) rest (cs ! j))))"

text \<open>
  The loop, at most \<open>fuel\<close> rounds: every round takes at least the byte of a tag off the
  stream, so as many rounds as there are bytes are enough.
\<close>

fun decode_loop :: "nat \<Rightarrow> pb_descriptor \<Rightarrow> nat \<Rightarrow> pb_cell list \<Rightarrow> nat list \<Rightarrow> byte list
    \<Rightarrow> (pb_cell list \<times> nat list) option" where
  "decode_loop fuel D i cs seen [] = Some (cs, seen)"
| "decode_loop 0 D i cs seen bs = None"
| "decode_loop (Suc fuel) D i cs seen bs =
     (case decode_round D i cs seen bs of
        None \<Rightarrow> None
      | Some (j, cs', seen', rest) \<Rightarrow> decode_loop fuel D j cs' seen' rest)"

text \<open>Every required field (at most 64 of them are tracked) must have been seen.\<close>

definition required_seen :: "pb_field list \<Rightarrow> nat list \<Rightarrow> bool" where
  "required_seen fds seen \<longleftrightarrow>
     list_all (\<lambda>j. j \<in> set seen) (take 64 (filter (\<lambda>j. htype (fds ! j) = REQUIRED) [0..<length fds]))"

definition pb_decode :: "pb_descriptor \<Rightarrow> pb_cell list \<Rightarrow> byte list \<Rightarrow> pb_cell list option" where
  "pb_decode D cs bs =
     (case decode_loop (length bs) D 0 (pb_message_set_to_defaults (field_list D) cs) [] bs of
        None \<Rightarrow> None
      | Some (cs', seen) \<Rightarrow> if required_seen (field_list D) seen then Some cs' else None)"

end
