(* ===== verification/Pb_Round.thy ===== *)
theory Pb_Round
  imports Pb_Codec
begin

text \<open>
  What the encoder writes, field by field, and that the decoder reads it back: the descriptor
  search finds exactly the field of a tag, a field's bytes give its cell, and a message of
  canonical cells survives the round trip. The loop of the decoder needs no more rounds than the
  stream has bytes.
\<close>

section \<open>Bytes and words\<close>

lemma nth_le_bytes: "i < n \<Longrightarrow> le_bytes n (w :: 'a::len word) ! i = ucast (drop_bit (8 * i) w)"
proof (induction n arbitrary: i w)
  case (Suc n)
  then show ?case by (cases i) (simp_all add: drop_bit_drop_bit add.commute)
qed simp

lemma bit_le_word:
  "bit (le_word bs :: 'a::len word) k \<longleftrightarrow>
     k < LENGTH('a) \<and> k < 8 * length bs \<and> bit (bs ! (k div 8)) (k mod 8)"
proof (induction bs arbitrary: k)
  case (Cons b bs)
  show ?case
  proof (cases "k < 8")
    case True
    then show ?thesis by (auto simp: bit_simps)
  next
    case False
    then obtain m where m: "k = 8 + m" using le_Suc_ex not_less by blast
    have "\<not> bit b (8 + m)" using bit_imp_le_length [of b "8 + m"] by auto
    moreover have "(8 + m) div 8 = Suc (m div 8)" by simp
    ultimately show ?thesis
      by (simp add: m bit_simps Cons.IH) auto
  qed
qed simp

lemma le_bytes_eqI:
  assumes "length bs = n"
    and "\<And>i j. i < n \<Longrightarrow> j < 8 \<Longrightarrow> bit w (8 * i + j) = bit (bs ! i) j"
  shows "le_bytes n (w :: 'a::len word) = bs"
proof (rule nth_equalityI)
  fix i assume "i < length (le_bytes n w)"
  then have i: "i < n" by simp
  show "le_bytes n w ! i = bs ! i"
  proof (rule bit_word_eqI)
    fix j assume "j < LENGTH(8)"
    then have "j < 8" by simp
    then show "bit (le_bytes n w ! i) j = bit (bs ! i) j"
      by (simp add: nth_le_bytes [OF i] bit_simps assms(2) [OF i])
  qed
qed (simp add: assms)

lemma le_bytes_le_word:
  assumes "length bs = n" and "8 * n \<le> LENGTH('a)"
  shows "le_bytes n (le_word bs :: 'a::len word) = bs"
proof (rule le_bytes_eqI [OF assms(1)])
  fix i j :: nat assume ij: "i < n" "j < 8"
  then have "8 * i + j < 8 * n" by simp
  with ij assms show "bit (le_word bs :: 'a word) (8 * i + j) = bit (bs ! i) j"
    by (simp add: bit_le_word)
qed

lemma le_bytes_scast:
  assumes "length bs = n" and "8 * n = LENGTH('a)" and "LENGTH('a) \<le> LENGTH('b)"
  shows "le_bytes n (scast (le_word bs :: 'a::len word) :: 'b::len word) = bs"
proof (rule le_bytes_eqI [OF assms(1)])
  fix i j :: nat assume ij: "i < n" "j < 8"
  then have lt: "8 * i + j < LENGTH('a)" using assms(2) by simp
  have "min (LENGTH('a) - Suc 0) (8 * i + j) = 8 * i + j" using lt by simp
  with lt ij assms show "bit (scast (le_word bs :: 'a word) :: 'b word) (8 * i + j) = bit (bs ! i) j"
    by (simp add: bit_signed_iff bit_le_word)
qed

section \<open>Writing is appending\<close>

lemma pb_write_append: "Option.bind (pb_write a s) (pb_write b) = pb_write (a @ b) s"
  by (auto simp: pb_write_def)

lemma pb_write_bind:
  "(\<And>s. f s = pb_write b s) \<Longrightarrow> Option.bind (pb_write a s) f = pb_write (a @ b) s"
  using pb_write_append [of a s b] by (simp add: ext [of f "pb_write b"])

lemma pb_write_nil [simp]: "pb_write [] s = Some s"
  by (simp add: pb_write_def)

lemma pb_encode_string_bytes:
  assumes "length buf < 2 ^ 64"
  shows "pb_encode_string buf s = pb_write (leb128 (length buf) @ buf) s"
proof -
  have "unat (of_nat (length buf) :: u64) = length buf"
    using assms by (simp add: unsigned_of_nat take_bit_nat_eq_self)
  then show ?thesis
    by (simp add: pb_encode_string_def pb_encode_varint_leb128 pb_write_append)
qed

definition tag_bytes :: "byte \<Rightarrow> u32 \<Rightarrow> byte list" where
  "tag_bytes wt tag = leb128 (8 * unat tag + unat wt)"

lemma pb_encode_tag_bytes:
  assumes "unat wt < 8"
  shows "pb_encode_tag wt tag s = pb_write (tag_bytes wt tag) s"
proof -
  have t: "unat tag < 2 ^ 32" using unsigned_less [of tag, where 'a = nat] by simp
  have w: "unat (ucast wt :: u64) = unat wt" using unat_byte_less [of wt] 
    by (simp add: unsigned_ucast_eq take_bit_nat_eq_self)
  have f: "unat (ucast tag :: u64) = unat tag" using t
    by (simp add: unsigned_ucast_eq take_bit_nat_eq_self)
  have "(push_bit 3 (ucast tag) OR ucast wt :: u64) = ucast wt + push_bit 3 (ucast tag)"
    using or_push_add [of "ucast wt :: u64" 3 "ucast tag"] assms by (simp add: w or.commute)
  moreover have "unat (ucast wt + push_bit 3 (ucast tag) :: u64) = 8 * unat tag + unat wt"
    using t assms by (simp add: push_bit_eq_mult unat_word_ariths w f)
  ultimately show ?thesis
    by (simp add: pb_encode_tag_def pb_encode_varint_leb128 tag_bytes_def)
qed

lemma pb_decode_tag_bytes:
  assumes "unat wt < 8" and "unat tag < 2 ^ 29"
  shows "pb_decode_tag (tag_bytes wt tag @ rest) = (False, Some (wt, tag, rest))"
proof -
  let ?n = "8 * unat tag + unat wt"
  have n: "?n < 2 ^ 32" using assms by simp
  then have u: "unat (of_nat ?n :: u32) = ?n" by (simp add: unsigned_of_nat take_bit_nat_eq_self del: of_nat_add of_nat_mult)
  have "unat ((of_nat ?n :: u32) AND 7) = unat wt"
    using and_mask_mod [of "of_nat ?n :: u32" 3] assms(1) unfolding u by (simp add: mask_eq_decr_exp)
  then have "ucast ((of_nat ?n :: u32) AND 7) = wt" by (metis of_nat_unat ucast_id)
  moreover have "unat (drop_bit 3 (of_nat ?n :: u32)) = unat tag"
    unfolding unat_drop u using assms(1) by simp
  then have "drop_bit 3 (of_nat ?n :: u32) = tag" by (simp only: unsigned_word_eqI)
  ultimately show ?thesis
    using pb_decode_varint32_leb128 [OF n, of rest]
    by (simp only: pb_decode_tag_def tag_bytes_def prod.case option.map Let_def)
qed

section \<open>Canonical cells\<close>

text \<open>
  The cells a program builds: an integer of a C width, a byte array within its capacity with the
  unused rest zero, a terminated string, a \<open>has\<close> flag only where the field has one.
\<close>

definition bytes_ok :: "nat \<Rightarrow> byte list \<Rightarrow> bool" where
  "bytes_ok n mem \<longleftrightarrow> 2 \<le> n \<and> unat (bytes_size mem) + 2 \<le> n
     \<and> drop (unat (bytes_size mem) + 2) mem = replicate (n - (unat (bytes_size mem) + 2)) 0"

definition string_ok :: "nat \<Rightarrow> byte list \<Rightarrow> bool" where
  "string_ok n mem \<longleftrightarrow> (let k = length (takeWhile (\<lambda>b. b \<noteq> 0) mem)
     in k < n \<and> n < 2 ^ 32 \<and> drop k mem = replicate (n - k) 0)"

fun value_ok :: "pb_ltype \<Rightarrow> nat \<Rightarrow> byte list \<Rightarrow> bool" where
  "value_ok BOOL n mem = (n = 1 \<and> (mem = [0] \<or> mem = [1]))"
| "value_ok VARINT n mem = (n \<in> set [1, 2, 4, 8])"
| "value_ok UVARINT n mem = (n \<in> set [1, 2, 4, 8])"
| "value_ok SVARINT n mem = (n \<in> set [1, 2, 4, 8])"
| "value_ok FIXED32 n mem = (n = 4)"
| "value_ok FIXED64 n mem = (n = 8)"
| "value_ok BYTES n mem = bytes_ok n mem"
| "value_ok STRING n mem = string_ok n mem"
| "value_ok FIXED_LENGTH_BYTES n mem = (0 < n \<and> n < 65536)"

definition cell_ok :: "pb_field \<Rightarrow> pb_cell \<Rightarrow> bool" where
  "cell_ok fd c \<longleftrightarrow> length (pData c) = data_size fd \<and> value_ok (ltype fd) (data_size fd) (pData c)
     \<and> (if htype fd = OPTIONAL \<and> has_psize fd
        then \<not> has_value c \<longrightarrow> pData c = replicate (data_size fd) 0 else \<not> has_value c)"

definition string_of :: "byte list \<Rightarrow> byte list" where
  "string_of mem = takeWhile (\<lambda>b. b \<noteq> 0) mem"

fun value_bytes :: "pb_ltype \<Rightarrow> nat \<Rightarrow> byte list \<Rightarrow> byte list" where
  "value_bytes BOOL n mem = leb128 (if mem ! 0 \<noteq> 0 then 1 else 0)"
| "value_bytes VARINT n mem = leb128 (unat (the (signed_value n mem)))"
| "value_bytes UVARINT n mem = leb128 (unat (the (unsigned_value n mem)))"
| "value_bytes SVARINT n mem = leb128 (unat (zigzag (the (signed_value n mem))))"
| "value_bytes FIXED32 n mem = take 4 mem"
| "value_bytes FIXED64 n mem = take 8 mem"
| "value_bytes BYTES n mem =
     leb128 (unat (bytes_size mem)) @ take (unat (bytes_size mem)) (drop 2 mem)"
| "value_bytes STRING n mem = leb128 (length (string_of mem)) @ string_of mem"
| "value_bytes FIXED_LENGTH_BYTES n mem = leb128 n @ take n mem"

definition omitted :: "pb_field \<Rightarrow> pb_cell \<Rightarrow> bool" where
  "omitted fd c \<longleftrightarrow> htype fd = OPTIONAL \<and>
     (if has_psize fd then \<not> has_value c else pb_check_proto3_default_value fd c)"

definition field_bytes :: "pb_field \<Rightarrow> pb_cell \<Rightarrow> byte list" where
  "field_bytes fd c = (if omitted fd c then []
     else tag_bytes (wire_type_of (ltype fd)) (ftag fd)
          @ value_bytes (ltype fd) (data_size fd) (pData c))"

lemma wire_type_bound: "unat (wire_type_of t) < 8"
  by (cases t) simp_all

lemma signed_value_some: "n \<in> set [1, 2, 4, 8] \<Longrightarrow> signed_value n mem \<noteq> None"
  by (auto simp: signed_value_def)

lemma unsigned_value_some: "n \<in> set [1, 2, 4, 8] \<Longrightarrow> unsigned_value n mem \<noteq> None"
  by (auto simp: unsigned_value_def)

lemma unat_u16_less: "unat (w :: u16) < 65536"
  using unsigned_less [of w, where 'a = nat] by simp

lemma string_of_append: "takeWhile (\<lambda>b. b \<noteq> 0) (string_of mem @ replicate m 0) = string_of mem"
proof -
  have "x \<noteq> 0" if "x \<in> set (string_of mem)" for x
    using that unfolding string_of_def by (blast dest: set_takeWhileD)
  then show ?thesis by (cases m) (simp_all add: takeWhile_append2)
qed

lemma string_split:
  assumes "length mem = n" and "string_ok n mem"
  shows "mem = string_of mem @ replicate (n - length (string_of mem)) 0"
    and "length (string_of mem) < n" and "n < 2 ^ 32"
proof -
  let ?k = "length (string_of mem)"
  have "take ?k mem = string_of mem" unfolding string_of_def by (rule takeWhile_eq_take [symmetric])
  moreover have "drop ?k mem = replicate (n - ?k) 0" "?k < n" "n < 2 ^ 32"
    using assms(2) by (simp_all add: string_ok_def string_of_def Let_def)
  ultimately show "mem = string_of mem @ replicate (n - ?k) 0" "?k < n" "n < 2 ^ 32"
    by (metis append_take_drop_id)+
qed

lemma enc_value_bytes:
  assumes "cell_ok fd c"
  shows "enc_value (ltype fd) fd c s = pb_write (value_bytes (ltype fd) (data_size fd) (pData c)) s"
proof -
  have len: "length (pData c) = data_size fd" and ok: "value_ok (ltype fd) (data_size fd) (pData c)"
    using assms by (auto simp: cell_ok_def)
  note enc = pb_encode_varint_leb128
  show ?thesis
  proof (cases "ltype fd")
    case VARINT
    then obtain v where "signed_value (data_size fd) (pData c) = Some v"
      using ok signed_value_some [of "data_size fd" "pData c"] by fastforce
    with VARINT show ?thesis by (simp add: pb_enc_varint_def enc)
  next
    case UVARINT
    then obtain v where "unsigned_value (data_size fd) (pData c) = Some v"
      using ok unsigned_value_some [of "data_size fd" "pData c"] by fastforce
    with UVARINT show ?thesis by (simp add: pb_enc_varint_def enc)
  next
    case SVARINT
    then obtain v where "signed_value (data_size fd) (pData c) = Some v"
      using ok signed_value_some [of "data_size fd" "pData c"] by fastforce
    with SVARINT show ?thesis by (simp add: pb_enc_varint_def pb_encode_svarint_def enc)
  next
    case BYTES
    define k where "k = unat (bytes_size (pData c))"
    have k: "k + 2 \<le> data_size fd" "k < 65536"
      using ok BYTES unat_u16_less [of "bytes_size (pData c)"] by (simp_all add: bytes_ok_def k_def)
    then have "length (take k (drop 2 (pData c))) = k" "\<not> k > data_size fd - 2" using len by simp_all
    with k show ?thesis
      by (simp add: BYTES pb_enc_bytes_def k_def [symmetric] pb_encode_string_bytes Let_def)
  next
    case STRING
    define k where "k = length (string_of (pData c))"
    have k: "k < data_size fd" "data_size fd < 2 ^ 32" "drop k (pData c) = replicate (data_size fd - k) 0"
      using ok STRING by (simp_all add: string_ok_def k_def string_of_def Let_def)
    note str = string_split [OF len ok [unfolded STRING value_ok.simps], folded k_def]
    have "pData c ! k = 0" by (subst str(1)) (use k in \<open>simp add: nth_append k_def [symmetric]\<close>)
    moreover have "takeWhile (\<lambda>b. b \<noteq> 0) (take (data_size fd - 1) (pData c)) = string_of (pData c)"
      by (subst str(1)) (use k in \<open>simp add: string_of_append k_def [symmetric]\<close>)
    ultimately show ?thesis
      using k by (simp add: STRING pb_enc_string_def pb_encode_string_bytes k_def [symmetric] Let_def)
  next
    case FIXED_LENGTH_BYTES
    with ok len show ?thesis by (simp add: pb_enc_fixed_length_bytes_def pb_encode_string_bytes)
  qed (use ok len in \<open>simp_all add: pb_enc_bool_def enc pb_enc_fixed_def pb_encode_fixed32_def pb_encode_fixed64_def\<close>)
qed

lemma encode_field_bytes:
  assumes "cell_ok fd c"
  shows "encode_field fd c s = pb_write (field_bytes fd c) s"
proof (cases "omitted fd c")
  case True
  then show ?thesis by (simp add: encode_field_def field_bytes_def omitted_def split: if_splits)
next
  case False
  then have "encode_field fd c s = encode_basic_field fd c s"
    by (auto simp: encode_field_def omitted_def split: if_splits)
  also have "\<dots> = pb_write (field_bytes fd c) s"
    using False by (simp add: encode_basic_field_def pb_encode_tag_for_field_def
        pb_encode_tag_bytes [OF wire_type_bound] field_bytes_def pb_write_bind [OF enc_value_bytes [OF assms]])
  finally show ?thesis .
qed

definition message_bytes_pb :: "pb_field list \<Rightarrow> pb_cell list \<Rightarrow> byte list" where
  "message_bytes_pb fds cs = concat (map2 field_bytes fds cs)"

lemma pb_encode_bytes:
  "list_all2 cell_ok fds cs \<Longrightarrow> pb_encode fds cs s = pb_write (message_bytes_pb fds cs) s"
proof (induction fds cs arbitrary: s rule: list_all2_induct)
  case Nil
  show ?case by (simp add: message_bytes_pb_def)
next
  case (Cons fd fds c cs)
  then show ?case
    by (simp add: encode_field_bytes pb_write_bind message_bytes_pb_def)
qed

section \<open>Reading back\<close>

lemma store_back:
  assumes "n \<in> set [1, 2, 4, 8]" and "length pd = n" and "length mem = n"
  shows "store_int n unsigned_value (the (unsigned_value n pd)) mem = Some pd"
    and "store_int n signed_value (the (signed_value n pd)) mem = Some pd"
proof -
  have u: "unsigned_value n pd = Some (le_word pd)"
    using assms by (auto simp: unsigned_value_def)
  have n8: "8 * n \<le> LENGTH(64)" using assms(1) by auto
  have "le_bytes n (le_word pd :: u64) = pd" by (rule le_bytes_le_word [OF assms(2) n8])
  then show "store_int n unsigned_value (the (unsigned_value n pd)) mem = Some pd"
    using u assms(3) by (simp add: store_int_def)
  obtain v where v: "signed_value n pd = Some v"
    using signed_value_some [OF assms(1)] by fastforce
  have "le_bytes n v = pd"
  proof -
    have "n = 1 \<Longrightarrow> le_bytes n (scast (le_word pd :: byte) :: u64) = pd"
      "n = 2 \<Longrightarrow> le_bytes n (scast (le_word pd :: u16) :: u64) = pd"
      "n = 4 \<Longrightarrow> le_bytes n (scast (le_word pd :: u32) :: u64) = pd"
      "le_bytes n (le_word pd :: u64) = pd"
      by (rule le_bytes_scast [OF assms(2)] le_bytes_le_word [OF assms(2) n8]; simp)+
    then show ?thesis
      using v assms(1,2) unfolding signed_value_def
      by (auto simp del: le_bytes.simps split: if_splits)
  qed
  then show "store_int n signed_value (the (signed_value n pd)) mem = Some pd"
    using v assms(3) by (simp add: store_int_def)
qed

lemma scast_via_32:
  "LENGTH('a) \<le> 32 \<Longrightarrow> scast (ucast (scast (w :: 'a::len word) :: u64) :: u32) = (scast w :: u64)"
  by (rule bit_word_eqI) (auto simp: bit_simps min_def)

lemma narrow_signed:
  assumes "n \<in> set [1, 2, 4, 8]"
  shows "narrow_varint n (the (signed_value n pd)) = the (signed_value n pd)"
  using assms by (auto simp: narrow_varint_def signed_value_def scast_via_32)

lemma decode_leb128_word: "pb_decode_varint (leb128 (unat v) @ rest) = Some (v, rest)"
  using pb_decode_varint_leb128 [of "unat v" rest] unsigned_less [of v, where 'a = nat] by simp

lemma decode_leb128_len:
  "n < 2 ^ 32 \<Longrightarrow> pb_decode_varint32 (leb128 n @ rest) = Some (of_nat n, rest)"
  by (simp add: pb_decode_varint32_def pb_decode_varint32_leb128)

lemma unat_of_nat_u32: "n < 2 ^ 32 \<Longrightarrow> unat (of_nat n :: u32) = n"
  by (simp add: unsigned_of_nat take_bit_nat_eq_self)

lemma pb_read_prefix: "length xs = n \<Longrightarrow> pb_read n (xs @ rest) = Some (xs, rest)"
  by (auto simp: pb_read_def)

lemma le_bytes_2_of_nat:
  "k < 65536 \<Longrightarrow> le_bytes 2 (of_nat k :: u32) = le_bytes 2 (of_nat k :: u16)"
  by (rule le_bytes_eqI) (auto simp: nth_le_bytes bit_simps)

lemma bytes_split:
  assumes "length mem = n" and "bytes_ok n mem" and "k = unat (bytes_size mem)"
  shows "mem = le_bytes 2 (bytes_size mem) @ take k (drop 2 mem) @ replicate (n - (k + 2)) 0"
    and "length (take k (drop 2 mem)) = k" and "k + 2 \<le> n" and "k < 65536"
proof -
  have k: "k + 2 \<le> n" "drop (k + 2) mem = replicate (n - (k + 2)) 0" "2 \<le> n"
    using assms by (simp_all add: bytes_ok_def)
  have two: "le_bytes 2 (bytes_size mem) = take 2 mem"
    unfolding bytes_size_def using assms(1) k by (intro le_bytes_le_word) simp_all
  have "mem = take 2 mem @ take k (drop 2 mem) @ drop (k + 2) mem"
    by (metis append_take_drop_id drop_drop)
  then show "mem = le_bytes 2 (bytes_size mem) @ take k (drop 2 mem) @ replicate (n - (k + 2)) 0"
    unfolding two k(2) .
  show "length (take k (drop 2 mem)) = k" using k assms(1) by simp
  show "k + 2 \<le> n" by (rule k(1))
  show "k < 65536" using assms(3) unat_u16_less by simp
qed

lemma decode_bytes_value:
  assumes ok: "length pd = data_size fd" "bytes_ok (data_size fd) pd"
    and mem: "mem = replicate (data_size fd) 0"
  shows "pb_dec_bytes fd (value_bytes BYTES (data_size fd) pd @ rest) mem = Some (pd, rest)"
proof -
  define k where "k = unat (bytes_size pd)"
  note p = bytes_split [OF ok k_def]
  have k32: "k < 2 ^ 32" using p(4) by simp
  have "(of_nat k :: u32) \<le> 0xFFFF"
    using p(4) unat_of_nat_u32 [OF k32] by (simp add: word_le_nat_alt)
  then have small: "\<not> (of_nat k :: u32) > 0xFFFF" by simp
  have size: "of_nat k = bytes_size pd" by (simp add: k_def)
  have "le_bytes 2 (of_nat k :: u32) @ take k (drop 2 pd) @ drop (k + 2) mem = pd"
    unfolding le_bytes_2_of_nat [OF p(4)] size mem by (subst (3) p(1)) simp
  then show ?thesis
    using p(3) small
    by (simp add: pb_dec_bytes_def k_def [symmetric] decode_leb128_len [OF k32]
        unat_of_nat_u32 [OF k32] pb_read_prefix [OF p(2)] del: of_nat_unat)
qed

lemma decode_string_value:
  assumes ok: "length pd = data_size fd" "string_ok (data_size fd) pd"
    and mem: "mem = replicate (data_size fd) 0"
  shows "pb_dec_string fd (value_bytes STRING (data_size fd) pd @ rest) mem = Some (pd, rest)"
proof -
  define k where "k = length (string_of pd)"
  note p = string_split [OF ok, folded k_def]
  have k32: "k < 2 ^ 32" and k32': "k < 2 ^ 32 - 1" using p(2,3) by simp_all
  have "(of_nat k :: u32) \<noteq> - 1"
  proof
    assume "(of_nat k :: u32) = - 1"
    then have "unat (of_nat k :: u32) = unat (- 1 :: u32)" by simp
    moreover have "unat (- 1 :: u32) = 2 ^ 32 - 1"
      by (simp add: unsigned_minus_1_eq_mask mask_eq_exp_minus_1)
    ultimately show False using k32' unat_of_nat_u32 [OF k32] by simp
  qed
  moreover have "string_of pd @ [0] @ drop (k + 1) mem = pd"
  proof -
    have "[0] @ drop (k + 1) mem = replicate (data_size fd - k) (0 :: byte)"
      using p(2) unfolding mem by (simp add: replicate_Suc [symmetric] Suc_diff_Suc)
    then show ?thesis by (subst (2) p(1)) simp
  qed
  ultimately show ?thesis
    using p(2)
    by (simp add: pb_dec_string_def k_def [symmetric] decode_leb128_len [OF k32]
        unat_of_nat_u32 [OF k32] pb_read_prefix [OF k_def [symmetric]])
qed

lemma decode_value:
  assumes "cell_ok fd c" and mem: "mem = replicate (data_size fd) 0"
  shows "decode_basic_field (ltype fd) (wire_type_of (ltype fd)) fd
           (value_bytes (ltype fd) (data_size fd) (pData c) @ rest) mem = Some (pData c, rest)"
proof -
  have len: "length (pData c) = data_size fd" and ok: "value_ok (ltype fd) (data_size fd) (pData c)"
    using assms(1) by (auto simp: cell_ok_def)
  have lm: "length mem = data_size fd" by (simp add: mem)
  note rb = store_back [OF _ len lm]
  show ?thesis
  proof (cases "ltype fd")
    case BOOL
    with ok mem show ?thesis
      by (auto simp: pb_dec_bool_def pb_decode_bool_def decode_leb128_len)
  next
    case VARINT
    with ok have n: "data_size fd \<in> set [1, 2, 4, 8]" by simp
    show ?thesis
      by (simp add: VARINT pb_dec_varint_def decode_leb128_word narrow_signed [OF n] rb(2) [OF n])
  next
    case UVARINT
    with ok have n: "data_size fd \<in> set [1, 2, 4, 8]" by simp
    show ?thesis
      by (simp add: UVARINT pb_dec_varint_def decode_leb128_word rb(1) [OF n])
  next
    case SVARINT
    with ok have n: "data_size fd \<in> set [1, 2, 4, 8]" by simp
    show ?thesis
      by (simp add: SVARINT pb_dec_varint_def pb_decode_svarint_def decode_leb128_word zigzag_inverse
          rb(2) [OF n])
  next
    case BYTES
    with ok decode_bytes_value [OF len _ mem] show ?thesis by simp
  next
    case STRING
    with ok decode_string_value [OF len _ mem] show ?thesis by simp
  next
    case FIXED_LENGTH_BYTES
    with ok have n: "0 < data_size fd" "data_size fd < 65536" by simp_all
    then have n32: "data_size fd < 2 ^ 32" by simp
    have "unat (of_nat (data_size fd) :: u32) = data_size fd" by (rule unat_of_nat_u32 [OF n32])
    then have "(of_nat (data_size fd) :: u32) \<noteq> 0" "\<not> (of_nat (data_size fd) :: u32) > 0xFFFF"
      using n by (auto simp: word_less_nat_alt)
    then show ?thesis
      using len by (simp add: FIXED_LENGTH_BYTES pb_dec_fixed_length_bytes_def decode_leb128_len [OF n32]
          unat_of_nat_u32 [OF n32] pb_read_prefix)
  qed (use ok len lm in \<open>simp_all add: pb_dec_fixed_def pb_read_prefix\<close>)
qed

section \<open>Searching the descriptor\<close>

definition tags_sorted :: "pb_field list \<Rightarrow> bool" where
  "tags_sorted fds \<longleftrightarrow> sorted_wrt (<) (map ftag fds)"

definition descriptor_ok :: "pb_descriptor \<Rightarrow> bool" where
  "descriptor_ok D \<longleftrightarrow> field_list D \<noteq> [] \<and> tags_sorted (field_list D)
     \<and> list_all (\<lambda>fd. 0 < ftag fd \<and> unat (ftag fd) < 2 ^ 29) (field_list D)
     \<and> largest_tag D = ftag (last (field_list D))"

lemma tags_less:
  "tags_sorted fds \<Longrightarrow> i < j \<Longrightarrow> j < length fds \<Longrightarrow> ftag (fds ! i) < ftag (fds ! j)"
  by (auto simp: tags_sorted_def sorted_wrt_iff_nth_less)

lemma tags_inject:
  "tags_sorted fds \<Longrightarrow> i < length fds \<Longrightarrow> j < length fds \<Longrightarrow> ftag (fds ! i) = ftag (fds ! j) \<Longrightarrow> i = j"
  by (metis tags_less linorder_neqE_nat less_irrefl)

lemma find_loop_forward:
  assumes "i < k" "k < length fds" "ftag (fds ! k) = tag" "k - i \<le> fuel"
    and "\<And>j. i < j \<Longrightarrow> j < k \<Longrightarrow> ftag (fds ! j) \<noteq> tag \<and> j \<noteq> start"
  shows "find_loop fuel fds i start tag = Some k"
  using assms
proof (induction fuel arbitrary: i)
  case (Suc fuel)
  have step: "advance_iterator fds i = Suc i" using Suc.prems(1,2) by (simp add: advance_iterator_def)
  show ?case
  proof (cases "Suc i = k")
    case True
    with step Suc.prems(3) show ?thesis by simp
  next
    case False
    with Suc.prems have "find_loop fuel fds (Suc i) start tag = Some k" by (intro Suc.IH) auto
    moreover have "ftag (fds ! Suc i) \<noteq> tag" "Suc i \<noteq> start" using Suc.prems(5) [of "Suc i"] Suc.prems(1) False by auto
    ultimately show ?thesis using step by (simp add: Let_def)
  qed
qed simp

lemma find_loop_SomeD:
  "find_loop fuel fds i start tag = Some k \<Longrightarrow> fds \<noteq> [] \<Longrightarrow> k < length fds \<and> ftag (fds ! k) = tag"
proof (induction fuel arbitrary: i)
  case (Suc fuel)
  have "advance_iterator fds i < length fds" using Suc.prems(2) by (auto simp: advance_iterator_def)
  with Suc show ?case by (auto simp: Let_def split: if_splits)
qed simp

lemma find_loop_restart:
  assumes "fds \<noteq> []" "k < start" "start < length fds" "ftag (fds ! k) = tag" "tags_sorted fds"
  shows "find_loop (length fds) fds (length fds) start tag = Some k"
proof -
  obtain fuel where fuel: "length fds = Suc fuel" using assms(1) by (cases fds) auto
  have adv: "advance_iterator fds (length fds) = 0" by (simp add: advance_iterator_def)
  have others: "ftag (fds ! j) \<noteq> tag" if "j < k" for j
    using tags_less [OF assms(5) that] assms(2-4) by force
  show ?thesis
  proof (cases k)
    case 0
    with assms(4) adv show ?thesis by (simp add: fuel)
  next
    case (Suc m)
    have "find_loop fuel fds 0 start tag = Some k"
      by (rule find_loop_forward) (use assms(2-4) Suc fuel others in auto)
    moreover have "ftag (fds ! 0) \<noteq> tag" "0 \<noteq> start" using others [of 0] Suc assms(2) by auto
    ultimately show ?thesis using adv by (simp add: fuel Let_def)
  qed
qed

lemma last_tag_largest:
  assumes "tags_sorted fds" "k < length fds"
  shows "ftag (fds ! k) \<le> ftag (last fds)"
proof (cases "k = length fds - 1")
  case True
  with assms show ?thesis by (simp add: last_conv_nth [of fds] flip: length_greater_0_conv)
next
  case False
  with assms(2) have "k < length fds - 1" "length fds - 1 < length fds" by auto
  from tags_less [OF assms(1) this] show ?thesis by (subst last_conv_nth) (use assms(2) in auto)
qed

lemma field_iter_find_exact:
  assumes D: "descriptor_ok D" and i: "i < length (field_list D)"
  shows "pb_field_iter_find (field_list D) (largest_tag D) i tag = Some k
     \<longleftrightarrow> k < length (field_list D) \<and> ftag (field_list D ! k) = tag"
proof -
  let ?fds = "field_list D"
  have ne: "?fds \<noteq> []" and sorted: "tags_sorted ?fds" and large: "largest_tag D = ftag (last ?fds)"
    using D by (simp_all add: descriptor_ok_def)
  show ?thesis
  proof
    assume "pb_field_iter_find ?fds (largest_tag D) i tag = Some k"
    then show "k < length ?fds \<and> ftag (?fds ! k) = tag"
      using i find_loop_SomeD [OF _ ne] by (auto simp: pb_field_iter_find_def split: if_splits)
  next
    assume k: "k < length ?fds \<and> ftag (?fds ! k) = tag"
    have le: "\<not> tag > largest_tag D" using last_tag_largest [OF sorted] k large by (auto simp: not_less)
    consider "i = k" | "i < k" | "k < i" by linarith
    then show "pb_field_iter_find ?fds (largest_tag D) i tag = Some k"
    proof cases
      case 1
      with k show ?thesis by (simp add: pb_field_iter_find_def)
    next
      case 2
      have lt: "ftag (?fds ! i) < tag" using tags_less [OF sorted 2] k by simp
      have "find_loop (length ?fds) ?fds i i tag = Some k"
      proof (rule find_loop_forward [OF 2])
        fix j assume "i < j" "j < k"
        with tags_less [OF sorted, of j k] k show "ftag (?fds ! j) \<noteq> tag \<and> j \<noteq> i" by force
      qed (use k in auto)
      moreover have "\<not> tag < ftag (?fds ! i)" "ftag (?fds ! i) \<noteq> tag" using lt by auto
      ultimately show ?thesis using le by (simp add: pb_field_iter_find_def)
    next
      case 3
      have lt: "tag < ftag (?fds ! i)" using tags_less [OF sorted 3 i] k by simp
      then have "ftag (?fds ! i) \<noteq> tag" by auto
      with lt le find_loop_restart [OF ne 3 i _ sorted] k show ?thesis
        by (simp add: pb_field_iter_find_def)
    qed
  qed
qed

section \<open>Reading a message back\<close>

definition default_cells :: "pb_field list \<Rightarrow> pb_cell list" where
  "default_cells fds = map (\<lambda>fd. \<lparr>has_value = False, pData = replicate (data_size fd) 0\<rparr>) fds"

lemma set_to_defaults:
  assumes "list_all2 cell_ok fds cs"
  shows "pb_message_set_to_defaults fds cs = default_cells fds"
  using assms
proof (induction fds cs rule: list_all2_induct)
  case (Cons fd fds c cs)
  have "pb_field_set_to_default fd c = \<lparr>has_value = False, pData = replicate (data_size fd) 0\<rparr>"
    using Cons.hyps(1) by (cases c) (auto simp: pb_field_set_to_default_def cell_ok_def split: if_splits)
  with Cons.IH show ?case by (simp add: pb_message_set_to_defaults_def default_cells_def)
qed (simp add: pb_message_set_to_defaults_def default_cells_def)

lemma zeros: "length xs = n \<Longrightarrow> list_all (\<lambda>b. b = 0) xs \<Longrightarrow> xs = replicate n 0"
  by (induction xs arbitrary: n) auto

lemma omitted_is_default:
  assumes "cell_ok fd c" and "omitted fd c"
  shows "c = \<lparr>has_value = False, pData = replicate (data_size fd) 0\<rparr>"
proof -
  have len: "length (pData c) = data_size fd" and ok: "value_ok (ltype fd) (data_size fd) (pData c)"
    using assms(1) by (auto simp: cell_ok_def)
  have has: "\<not> has_value c"
    using assms by (auto simp: cell_ok_def omitted_def split: if_splits)
  have "pData c = replicate (data_size fd) 0"
  proof (cases "has_psize fd")
    case True
    with assms show ?thesis by (auto simp: cell_ok_def omitted_def split: if_splits)
  next
    case False
    then have d: "pb_check_proto3_default_value fd c" and o: "htype fd = OPTIONAL"
      using assms(2) by (auto simp: omitted_def)
    show ?thesis
    proof (cases "packable (ltype fd)")
      case True
      with d o False len show ?thesis by (simp add: pb_check_proto3_default_value_def zeros)
    next
      case np: False
      then consider "ltype fd = BYTES" | "ltype fd = STRING" | "ltype fd = FIXED_LENGTH_BYTES"
        by (cases "ltype fd") (auto simp: packable_def)
      then show ?thesis
      proof cases
        case 1
        with d o False np have z: "bytes_size (pData c) = 0"
          by (simp add: pb_check_proto3_default_value_def packable_def)
        have b: "bytes_ok (data_size fd) (pData c)" using ok 1 by simp
        have "le_bytes 2 (0 :: u16) = replicate 2 0" by (simp add: le_bytes_u16 numeral_2_eq_2)
        then have "pData c = replicate 2 0 @ replicate (data_size fd - 2) 0"
          using bytes_split(1) [OF len b refl] unfolding z by simp
        moreover have "2 \<le> data_size fd" using b by (simp add: bytes_ok_def)
        ultimately show ?thesis by (metis le_add_diff_inverse replicate_add)
      next
        case 2
        with d o False np have "pData c ! 0 = 0"
          by (simp add: pb_check_proto3_default_value_def packable_def)
        moreover have "pData c \<noteq> []" using ok 2 len by (auto simp: string_ok_def Let_def)
        ultimately have "string_of (pData c) = []" by (cases "pData c") (auto simp: string_of_def)
        with string_split(1) [OF len] ok 2 show ?thesis by simp
      next
        case 3
        with d o False np ok show ?thesis by (simp add: pb_check_proto3_default_value_def packable_def)
      qed
    qed
  qed
  with has show ?thesis by (cases c) simp
qed

lemma decode_round_field:
  assumes D: "descriptor_ok D" and i: "i < length (field_list D)" and k: "k < length (field_list D)"
    and fd: "fd = field_list D ! k" and ok: "cell_ok fd c" and sent: "\<not> omitted fd c"
    and cell: "cs ! k = \<lparr>has_value = False, pData = replicate (data_size fd) 0\<rparr>"
  shows "decode_round D i cs seen (field_bytes fd c @ rest)
    = Some (k, cs[k := c], if htype fd = REQUIRED then k # seen else seen, rest)"
proof -
  have tag: "0 < ftag fd" "unat (ftag fd) < 2 ^ 29"
    using D k by (auto simp: descriptor_ok_def list_all_length fd)
  let ?v = "value_bytes (ltype fd) (data_size fd) (pData c)"
  have bytes: "field_bytes fd c @ rest = tag_bytes (wire_type_of (ltype fd)) (ftag fd) @ ?v @ rest"
    using sent by (simp add: field_bytes_def)
  have find: "pb_field_iter_find (field_list D) (largest_tag D) i (ftag fd) = Some k"
    using field_iter_find_exact [OF D i, of "ftag fd" k] k fd by simp
  have "decode_static_field (wire_type_of (ltype fd)) fd (?v @ rest) (cs ! k) = Some (c, rest)"
    using ok sent decode_value [OF ok refl, of rest]
    by (cases c) (auto simp: decode_static_field_def cell Let_def cell_ok_def omitted_def split: if_splits)
  then show ?thesis
    unfolding bytes using pb_decode_tag_bytes [OF wire_type_bound tag(2)] tag(1) find
    by (simp add: decode_round_def fd [symmetric])
qed

lemma leb128_not_empty [simp]: "leb128 n \<noteq> []"
  by (subst leb128.simps) simp

lemma field_bytes_not_empty: "\<not> omitted fd c \<Longrightarrow> 0 < length (field_bytes fd c)"
  by (simp add: field_bytes_def tag_bytes_def)

lemma message_bytes_drop:
  assumes "length cs = length fds" and "k < length fds"
  shows "message_bytes_pb (drop k fds) (drop k cs)
    = field_bytes (fds ! k) (cs ! k) @ message_bytes_pb (drop (Suc k) fds) (drop (Suc k) cs)"
proof -
  have "drop k fds = fds ! k # drop (Suc k) fds" "drop k cs = cs ! k # drop (Suc k) cs"
    using assms by (simp_all add: Cons_nth_drop_Suc)
  then show ?thesis by (simp add: message_bytes_pb_def)
qed

lemma take_default_step:
  assumes "length ds = length cs" "k < length cs"
  shows "(take k cs @ drop k ds)[k := cs ! k] = take (Suc k) cs @ drop (Suc k) ds"
  using assms by (simp add: list_update_append take_Suc_conv_app_nth Cons_nth_drop_Suc [symmetric])

lemma decode_loop_reads:
  assumes D: "descriptor_ok D" and ok: "list_all2 cell_ok (field_list D) cs"
    and "i < length (field_list D)" "k \<le> length (field_list D)"
    and "length (message_bytes_pb (drop k (field_list D)) (drop k cs)) \<le> fuel"
  shows "\<exists>seen'. decode_loop fuel D i (take k cs @ drop k (default_cells (field_list D))) seen
      (message_bytes_pb (drop k (field_list D)) (drop k cs)) = Some (cs, seen')
    \<and> set seen \<subseteq> set seen'
    \<and> (\<forall>j. k \<le> j \<and> j < length (field_list D) \<and> htype (field_list D ! j) = REQUIRED \<longrightarrow> j \<in> set seen')"
  using assms(3-5)
proof (induction "length (field_list D) - k" arbitrary: k i fuel seen)
  case 0
  then have "k = length (field_list D)" by simp
  moreover have "length cs = length (field_list D)" using ok by (simp add: list_all2_lengthD)
  ultimately show ?case by (auto simp: message_bytes_pb_def default_cells_def)
next
  case (Suc m)
  let ?fds = "field_list D" and ?ds = "default_cells (field_list D)"
  define fd c where "fd = ?fds ! k" and "c = cs ! k"
  have k: "k < length ?fds" using Suc.hyps(2) by simp
  have m: "m = length ?fds - Suc k" using Suc.hyps(2) by simp
  have len: "length cs = length ?fds" "length ?ds = length ?fds"
    using ok by (simp_all add: list_all2_lengthD default_cells_def)
  have cok: "cell_ok fd c" using ok k by (simp add: fd_def c_def list_all2_nthD)
  let ?rest = "message_bytes_pb (drop (Suc k) ?fds) (drop (Suc k) cs)"
  let ?dk = "\<lparr>has_value = False, pData = replicate (data_size fd) 0\<rparr>"
  have stream: "message_bytes_pb (drop k ?fds) (drop k cs) = field_bytes fd c @ ?rest"
    using message_bytes_drop [OF len(1) k] by (simp add: fd_def c_def)
  have cell: "(take k cs @ drop k ?ds) ! k = ?dk"
    using k len by (simp add: nth_append default_cells_def fd_def)
  have upd: "(take k cs @ drop k ?ds)[k := c] = take (Suc k) cs @ drop (Suc k) ?ds"
    unfolding c_def using take_default_step [of ?ds cs k] len k by simp
  show ?case
  proof (cases "omitted fd c")
    case True
    then have nil: "field_bytes fd c = []" and "c = ?dk" and req: "htype fd \<noteq> REQUIRED"
      using omitted_is_default [OF cok] by (auto simp: field_bytes_def omitted_def)
    then have same: "take k cs @ drop k ?ds = take (Suc k) cs @ drop (Suc k) ?ds"
      using upd cell by (metis list_update_id)
    obtain seen' where IH: "decode_loop fuel D i (take (Suc k) cs @ drop (Suc k) ?ds) seen ?rest = Some (cs, seen')"
      "set seen \<subseteq> set seen'"
      "\<forall>j. Suc k \<le> j \<and> j < length ?fds \<and> htype (?fds ! j) = REQUIRED \<longrightarrow> j \<in> set seen'"
      using Suc.hyps(1) [OF m Suc.prems(1), of fuel seen] Suc.prems(3) k unfolding stream nil by auto
    have "j \<in> set seen'" if "k \<le> j \<and> j < length ?fds \<and> htype (?fds ! j) = REQUIRED" for j
      using IH(3) that req by (cases "j = k") (auto simp: fd_def)
    with IH(1,2) show ?thesis unfolding stream nil same by auto
  next
    case False
    note round = decode_round_field [OF D Suc.prems(1) k fd_def cok False cell, of seen ?rest, unfolded upd]
    define seen1 where "seen1 = (if htype fd = REQUIRED then k # seen else seen)"
    obtain b bs where ne: "field_bytes fd c @ ?rest = b # bs"
      using field_bytes_not_empty [OF False] by (cases "field_bytes fd c") auto
    have "length ?rest < fuel"
      using Suc.prems(3) field_bytes_not_empty [OF False] unfolding stream length_append by linarith
    then obtain f where f: "fuel = Suc f" and le: "length ?rest \<le> f" by (cases fuel) auto
    obtain seen' where IH: "decode_loop f D k (take (Suc k) cs @ drop (Suc k) ?ds) seen1 ?rest = Some (cs, seen')"
      "set seen1 \<subseteq> set seen'"
      "\<forall>j. Suc k \<le> j \<and> j < length ?fds \<and> htype (?fds ! j) = REQUIRED \<longrightarrow> j \<in> set seen'"
      using Suc.hyps(1) [OF m k, of f seen1] k le by auto
    have "j \<in> set seen'" if "k \<le> j \<and> j < length ?fds \<and> htype (?fds ! j) = REQUIRED" for j
      using IH(2,3) that by (cases "j = k") (auto simp: fd_def seen1_def)
    moreover have "set seen \<subseteq> set seen'" using IH(2) by (auto simp: seen1_def split: if_splits)
    moreover have "decode_loop fuel D i (take k cs @ drop k ?ds) seen (field_bytes fd c @ ?rest) = Some (cs, seen')"
      using round IH(1) unfolding ne f seen1_def by simp
    ultimately show ?thesis unfolding stream by blast
  qed
qed

lemma pb_decode_reads:
  assumes "descriptor_ok D" and "list_all2 cell_ok (field_list D) cs"
    and "list_all2 cell_ok (field_list D) cs0"
  shows "pb_decode D cs0 (message_bytes_pb (field_list D) cs) = Some cs"
proof -
  let ?fds = "field_list D"
  have "0 < length ?fds" using assms(1) by (simp add: descriptor_ok_def)
  from decode_loop_reads [OF assms(1,2) this, of 0 "length (message_bytes_pb ?fds cs)" "[]"]
  obtain seen where "decode_loop (length (message_bytes_pb ?fds cs)) D 0 (default_cells ?fds) []
      (message_bytes_pb ?fds cs) = Some (cs, seen)"
    and req: "\<forall>j. j < length ?fds \<and> htype (?fds ! j) = REQUIRED \<longrightarrow> j \<in> set seen"
    by auto
  moreover have "required_seen ?fds seen"
    using req unfolding required_seen_def list_all_iff by (auto dest!: in_set_takeD)
  ultimately show ?thesis by (simp add: pb_decode_def set_to_defaults [OF assms(3)])
qed

section \<open>Every round of the decoder takes bytes off the stream\<close>

lemma varint_loop_shorter: "varint_loop p r bs = Some (v, rest) \<Longrightarrow> length rest < length bs"
  by (induction p r bs rule: varint_loop.induct) (auto simp: Let_def split: if_splits)

lemma varint32_loop_shorter: "varint32_loop p r bs = Some (v, rest) \<Longrightarrow> length rest < length bs"
proof (induction bs arbitrary: p r)
  case (Cons b bs)
  then show ?case
    by (auto simp: Let_def split: option.splits if_splits dest!: Cons.IH)
qed simp

lemma decode_varint_shorter: "pb_decode_varint bs = Some (v, rest) \<Longrightarrow> length rest < length bs"
  unfolding pb_decode_varint_def by (rule varint_loop_shorter)

lemma decode_varint32_shorter: "pb_decode_varint32 bs = Some (v, rest) \<Longrightarrow> length rest < length bs"
  by (auto simp: pb_decode_varint32_def pb_decode_varint32_eof_def pb_readbyte_def
      dest!: varint32_loop_shorter split: list.splits if_splits)

lemma decode_tag_shorter: "snd (pb_decode_tag bs) = Some (wt, tag, rest) \<Longrightarrow> length rest < length bs"
  using decode_varint32_shorter [of bs]
  by (auto simp: pb_decode_tag_def pb_decode_varint32_def split: prod.splits)

lemma pb_read_shorter: "pb_read n bs = Some (d, rest) \<Longrightarrow> length rest \<le> length bs"
  by (auto simp: pb_read_def split: if_splits)

lemma skip_varint_shorter: "pb_skip_varint bs = Some rest \<Longrightarrow> length rest \<le> length bs"
  by (induction bs rule: pb_skip_varint.induct) (auto split: if_splits)

lemma skip_field_shorter: "pb_skip_field wt bs = Some rest \<Longrightarrow> length rest \<le> length bs"
  by (auto simp: pb_skip_field_def pb_skip_string_def split: if_splits option.splits
      dest!: skip_varint_shorter pb_read_shorter decode_varint32_shorter)

lemma dec_varint_shorter: "pb_dec_varint fd bs mem = Some (mem', rest) \<Longrightarrow> length rest \<le> length bs"
  by (auto simp: pb_dec_varint_def pb_decode_svarint_def Let_def split: if_splits bind_splits
      dest!: decode_varint_shorter)

lemma decode_basic_shorter:
  "decode_basic_field t wt fd bs mem = Some (mem', rest) \<Longrightarrow> length rest \<le> length bs"
  by (cases t)
    (auto simp: pb_dec_bool_def pb_decode_bool_def pb_dec_fixed_def pb_dec_bytes_def pb_dec_string_def
      pb_dec_fixed_length_bytes_def split: if_splits bind_splits
      dest!: dec_varint_shorter decode_varint32_shorter pb_read_shorter)

lemma decode_round_shorter:
  "decode_round D i cs seen (b # bs) = Some (j, cs', seen', rest) \<Longrightarrow> length rest < length (b # bs)"
  by (auto simp: decode_round_def decode_static_field_def Let_def split: option.splits if_splits
      dest!: decode_tag_shorter skip_field_shorter decode_basic_shorter)

lemma decode_loop_fuel:
  "length bs \<le> fuel \<Longrightarrow> decode_loop fuel D i cs seen bs = decode_loop (length bs) D i cs seen bs"
proof (induction fuel arbitrary: i cs seen bs rule: less_induct)
  case (less fuel)
  show ?case
  proof (cases bs)
    case (Cons b bs')
    with less.prems obtain f where f: "fuel = Suc f" by (cases fuel) auto
    show ?thesis
    proof (cases "decode_round D i cs seen bs")
      case None
      then show ?thesis by (simp add: f Cons)
    next
      case (Some r)
      obtain j cs' seen' rest where r: "r = (j, cs', seen', rest)" by (cases r) auto
      have short: "length rest \<le> length bs'"
        using decode_round_shorter [of D i cs seen b bs' j cs' seen' rest] Some r Cons by simp
      have "decode_loop f D j cs' seen' rest = decode_loop (length rest) D j cs' seen' rest"
        by (rule less.IH) (use f short less.prems Cons in auto)
      moreover have "decode_loop (length bs') D j cs' seen' rest = decode_loop (length rest) D j cs' seen' rest"
        by (cases "length bs' < fuel") (use less.IH [of "length bs'"] short f less.prems Cons in auto)
      ultimately show ?thesis using Some r by (simp add: f Cons)
    qed
  qed simp
qed
end
