(* ===== verification/Mesh_Pb.thy ===== *)
theory Mesh_Pb
  imports Pb_Round Mesh_Message
begin

text \<open>
  The generated protobuf message of the serial link (Mesh/serialization/mesh.pb.h) and its
  conversion from and to the wire struct of the mesh: \<open>encodeMeshMessage\<close> and
  \<open>decodeMeshMessage\<close> of Adapter/Serial_Adapter/Serial_Adapter.cpp.
\<close>

section \<open>The generated message\<close>

text \<open>A \<open>PB_BYTES_ARRAY_T(n)\<close> is its 16-bit count and its \<open>n\<close> bytes.\<close>

record mesh_MeshMessage =
  pb_messageType :: u32
  pb_dataType :: u32
  pb_originMacAddress :: mac
  pb_targetMacAddress :: mac
  pb_lastHopMacAddress :: mac
  pb_has_data :: bool
  pb_data :: "u16 \<times> byte list"
  pb_hopCount :: u32
  pb_epochNum :: u32
  pb_seqNum :: u32
  pb_protoVersion :: u32
  pb_has_public_key :: bool
  pb_public_key :: "u16 \<times> byte list"

definition mesh_MeshMessage_init_zero :: mesh_MeshMessage where
  "mesh_MeshMessage_init_zero = \<lparr>pb_messageType = 0, pb_dataType = 0,
     pb_originMacAddress = zero_mac, pb_targetMacAddress = zero_mac,
     pb_lastHopMacAddress = zero_mac, pb_has_data = False, pb_data = (0, replicate 64 0),
     pb_hopCount = 0, pb_epochNum = 0, pb_seqNum = 0, pb_protoVersion = 0,
     pb_has_public_key = False, pb_public_key = (0, replicate 32 0)\<rparr>"

definition singular :: "u32 \<Rightarrow> pb_ltype \<Rightarrow> nat \<Rightarrow> pb_field" where
  "singular tag t n = \<lparr>ftag = tag, ltype = t, htype = OPTIONAL, data_size = n, has_psize = False\<rparr>"

definition optional :: "u32 \<Rightarrow> pb_ltype \<Rightarrow> nat \<Rightarrow> pb_field" where
  "optional tag t n = \<lparr>ftag = tag, ltype = t, htype = OPTIONAL, data_size = n, has_psize = True\<rparr>"

definition mesh_MeshMessage_fields :: pb_descriptor where
  "mesh_MeshMessage_fields = \<lparr>field_list = [
     singular 1 UVARINT 4,
     singular 2 SVARINT 4,
     singular 3 FIXED_LENGTH_BYTES 6,
     singular 4 FIXED_LENGTH_BYTES 6,
     singular 5 FIXED_LENGTH_BYTES 6,
     optional 6 BYTES 66,
     singular 7 UVARINT 4,
     singular 8 UVARINT 4,
     singular 9 UVARINT 4,
     singular 10 UVARINT 4,
     optional 11 BYTES 34], largest_tag = 11\<rparr>"

text \<open>The structure as the cells that the descriptor's offsets point to, and back.\<close>

definition u32_cell :: "u32 \<Rightarrow> pb_cell" where
  "u32_cell w = \<lparr>has_value = False, pData = le_bytes 4 w\<rparr>"

definition mac_cell :: "mac \<Rightarrow> pb_cell" where
  "mac_cell m = \<lparr>has_value = False, pData = mac_bytes m\<rparr>"

definition bytes_cell :: "bool \<Rightarrow> u16 \<times> byte list \<Rightarrow> pb_cell" where
  "bytes_cell has b = \<lparr>has_value = has, pData = le_bytes 2 (fst b) @ snd b\<rparr>"

definition mesh_cells :: "mesh_MeshMessage \<Rightarrow> pb_cell list" where
  "mesh_cells m = [u32_cell (pb_messageType m), u32_cell (pb_dataType m),
     mac_cell (pb_originMacAddress m), mac_cell (pb_targetMacAddress m),
     mac_cell (pb_lastHopMacAddress m), bytes_cell (pb_has_data m) (pb_data m),
     u32_cell (pb_hopCount m), u32_cell (pb_epochNum m), u32_cell (pb_seqNum m),
     u32_cell (pb_protoVersion m), bytes_cell (pb_has_public_key m) (pb_public_key m)]"

definition mesh_of_cells :: "pb_cell list \<Rightarrow> mesh_MeshMessage" where
  "mesh_of_cells cs =
     (let d = (\<lambda>i. pData (cs ! i)) in
      \<lparr>pb_messageType = le_word (d 0), pb_dataType = le_word (d 1),
       pb_originMacAddress = mac_of_bytes (d 2), pb_targetMacAddress = mac_of_bytes (d 3),
       pb_lastHopMacAddress = mac_of_bytes (d 4), pb_has_data = has_value (cs ! 5),
       pb_data = (le_word (take 2 (d 5)), drop 2 (d 5)), pb_hopCount = le_word (d 6),
       pb_epochNum = le_word (d 7), pb_seqNum = le_word (d 8), pb_protoVersion = le_word (d 9),
       pb_has_public_key = has_value (cs ! 10),
       pb_public_key = (le_word (take 2 (d 10)), drop 2 (d 10))\<rparr>)"

section \<open>Conversion\<close>

definition to_pb :: "mesh_message \<Rightarrow> mesh_MeshMessage" where
  "to_pb msg =
     (let pb = mesh_MeshMessage_init_zero
        \<lparr>pb_messageType := ucast (messageType msg), pb_dataType := dataType msg,
         pb_hopCount := ucast (hopCount msg), pb_epochNum := epochNum msg,
         pb_seqNum := ucast (seqNum msg), pb_protoVersion := ucast (protoVersion msg),
         pb_originMacAddress := originMac msg, pb_targetMacAddress := targetMac msg,
         pb_lastHopMacAddress := lastHopMac msg, pb_has_data := True,
         pb_data := (64, msgData msg)\<rparr>
      in if (messageType msg = MESH_TYPE_ENROLLMENT \<or> messageType msg = MESH_TYPE_JOIN_ACK)
            \<and> list_ex (\<lambda>b. b \<noteq> 0) (enrollmentPublicKey msg)
         then pb\<lparr>pb_has_public_key := True, pb_public_key := (32, enrollmentPublicKey msg)\<rparr>
         else pb)"

text \<open>The bytes written to \<open>out\<close>; the returned size 0 is the empty list.\<close>

definition encodeMeshMessage :: "mesh_message \<Rightarrow> nat \<Rightarrow> byte list" where
  "encodeMeshMessage msg outCap =
     (case pb_encode (field_list mesh_MeshMessage_fields) (mesh_cells (to_pb msg))
             (pb_ostream_from_buffer outCap) of
        None \<Rightarrow> []
      | Some s \<Rightarrow> written s)"

text \<open>
  At most 12 bytes of \<open>data\<close> are copied; 32 bytes of \<open>public_key\<close> are, whatever its size.
  \<open>own\<close> is the MAC that \<open>readOwnMac\<close> reads.
\<close>

definition of_pb :: "mac \<Rightarrow> mesh_MeshMessage \<Rightarrow> mesh_message" where
  "of_pb own pb =
     (let n = (if unat (fst (pb_data pb)) < 12 then unat (fst (pb_data pb)) else 12);
          m = zero_message
        \<lparr>messageType := ucast (pb_messageType pb), dataType := pb_dataType pb,
         hopCount := ucast (pb_hopCount pb), epochNum := pb_epochNum pb,
         seqNum := ucast (pb_seqNum pb), protoVersion := ucast (pb_protoVersion pb),
         targetMac := pb_targetMacAddress pb,
         msgData := (if pb_has_data pb then take n (snd (pb_data pb)) @ replicate (64 - n) 0
                     else replicate 64 0),
         enrollmentPublicKey := (if pb_has_public_key pb then take 32 (snd (pb_public_key pb))
                                 else replicate 32 0)\<rparr>
      in if messageType m \<noteq> MESH_TYPE_JOIN_ACK \<and> messageType m \<noteq> MESH_TYPE_SERIAL_CMD_BROADCAST
         then m\<lparr>originMac := own, lastHopMac := own\<rparr>
         else m\<lparr>originMac := pb_originMacAddress pb, lastHopMac := pb_lastHopMacAddress pb\<rparr>)"

definition decodeMeshMessage :: "mac \<Rightarrow> byte list \<Rightarrow> mesh_message option" where
  "decodeMeshMessage own data =
     map_option (\<lambda>cs. of_pb own (mesh_of_cells cs))
       (pb_decode mesh_MeshMessage_fields (mesh_cells mesh_MeshMessage_init_zero) data)"

end
