(* ===== verification/Mesh_Pb_Lemmas.thy ===== *)
theory Mesh_Pb_Lemmas
  imports Mesh_Pb
begin

text \<open>
  The generated descriptor is one the decoder handles, the structures the firmware builds are
  canonical cells, and how long their encodings are.
\<close>

section \<open>The descriptor and the cells\<close>

lemma mesh_fields_simps:
  "field_list mesh_MeshMessage_fields = [
     singular 1 UVARINT 4, singular 2 SVARINT 4, singular 3 FIXED_LENGTH_BYTES 6,
     singular 4 FIXED_LENGTH_BYTES 6, singular 5 FIXED_LENGTH_BYTES 6, optional 6 BYTES 66,
     singular 7 UVARINT 4, singular 8 UVARINT 4, singular 9 UVARINT 4, singular 10 UVARINT 4,
     optional 11 BYTES 34]"
  "largest_tag mesh_MeshMessage_fields = 11"
  by (simp_all add: mesh_MeshMessage_fields_def)

lemma field_simps_pb [simp]:
  "ftag (singular tag t n) = tag" "ltype (singular tag t n) = t" "htype (singular tag t n) = OPTIONAL"
  "data_size (singular tag t n) = n" "has_psize (singular tag t n) = False"
  "ftag (optional tag t n) = tag" "ltype (optional tag t n) = t" "htype (optional tag t n) = OPTIONAL"
  "data_size (optional tag t n) = n" "has_psize (optional tag t n) = True"
  by (simp_all add: singular_def optional_def)

lemma mesh_descriptor_ok: "descriptor_ok mesh_MeshMessage_fields"
  by (simp add: descriptor_ok_def tags_sorted_def mesh_fields_simps)

definition bytes_field_ok :: "nat \<Rightarrow> bool \<Rightarrow> u16 \<times> byte list \<Rightarrow> bool" where
  "bytes_field_ok n has b \<longleftrightarrow> length (snd b) = n \<and> unat (fst b) \<le> n
     \<and> drop (unat (fst b)) (snd b) = replicate (n - unat (fst b)) 0
     \<and> (\<not> has \<longrightarrow> b = (0, replicate n 0))"

definition pb_ok :: "mesh_MeshMessage \<Rightarrow> bool" where
  "pb_ok m \<longleftrightarrow> bytes_field_ok 64 (pb_has_data m) (pb_data m)
     \<and> bytes_field_ok 32 (pb_has_public_key m) (pb_public_key m)"

lemma bytes_size_cell [simp]: "bytes_size (le_bytes 2 c @ d) = c"
  by (simp add: bytes_size_def)

lemma bytes_cell_ok:
  assumes "bytes_field_ok n has b" and "n < 65536" and "k = n + 2"
  shows "cell_ok (optional tag BYTES k) (bytes_cell has b)"
proof -
  have b: "length (snd b) = n" "unat (fst b) \<le> n"
    "drop (unat (fst b)) (snd b) = replicate (n - unat (fst b)) 0"
    "\<not> has \<Longrightarrow> b = (0, replicate n 0)"
    using assms(1) by (auto simp: bytes_field_ok_def)
  have "le_bytes 2 (0 :: u16) @ replicate n 0 = replicate (n + 2) 0"
    by (simp add: le_bytes_u16 numeral_2_eq_2)
  then show ?thesis
    using b by (auto simp: cell_ok_def bytes_cell_def bytes_ok_def assms(3))
qed

lemma u32_cell_ok: "t = UVARINT \<or> t = SVARINT \<Longrightarrow> cell_ok (singular tag t 4) (u32_cell w)"
  by (auto simp: cell_ok_def u32_cell_def)

lemma mac_cell_ok: "cell_ok (singular tag FIXED_LENGTH_BYTES 6) (mac_cell m)"
  by (auto simp: cell_ok_def mac_cell_def)

lemma mesh_cells_ok: "pb_ok m \<Longrightarrow> list_all2 cell_ok (field_list mesh_MeshMessage_fields) (mesh_cells m)"
  using bytes_cell_ok [of 64 "pb_has_data m" "pb_data m" 66 6]
    bytes_cell_ok [of 32 "pb_has_public_key m" "pb_public_key m" 34 11]
  by (simp add: mesh_fields_simps mesh_cells_def u32_cell_ok mac_cell_ok pb_ok_def)

lemma mesh_of_mesh_cells: "mesh_of_cells (mesh_cells m) = m"
  by (cases m) (simp add: mesh_of_cells_def mesh_cells_def u32_cell_def mac_cell_def bytes_cell_def)

lemma init_zero_ok: "pb_ok mesh_MeshMessage_init_zero"
  by (simp add: pb_ok_def bytes_field_ok_def mesh_MeshMessage_init_zero_def)

lemma to_pb_ok: "message_wf msg \<Longrightarrow> pb_ok (to_pb msg)"
  by (auto simp: to_pb_def Let_def pb_ok_def bytes_field_ok_def mesh_MeshMessage_init_zero_def
      message_wf_def)

section \<open>How long an encoding is\<close>

lemma leb128_length: "n < 128 ^ Suc k \<Longrightarrow> length (leb128 n) \<le> Suc k"
proof (induction k arbitrary: n)
  case 0
  then show ?case by (simp add: leb128.simps)
next
  case (Suc k)
  have "n div 128 < 128 ^ Suc k" using Suc.prems by (simp add: less_mult_imp_div_less)
  from Suc.IH [OF this] show ?case by (subst leb128.simps) simp
qed

lemma leb128_u32_length: "length (leb128 (unat (w :: u32))) \<le> 5"
  using unsigned_less [of w, where 'a = nat] leb128_length [of "unat w" 4] by simp

lemma zigzag_small:
  "unat (zigzag (scast (w :: u32))) < 2 ^ 32"
proof -
  have same: "bit (scast w :: u64) n = bit (scast w :: u64) 63" if "31 \<le> n" "n < 64" for n
    using that by (simp add: bit_signed_iff min_def)
  have "\<not> bit (zigzag (scast w)) n" if n: "32 \<le> n" for n
  proof (cases "n < 64")
    case True
    with n same [of "n - 1"] show ?thesis by (simp add: bit_zigzag)
  qed (simp add: bit_zigzag)
  then have "take_bit 32 (zigzag (scast w)) = zigzag (scast w)"
    by (intro bit_word_eqI) (metis bit_take_bit_iff not_less)
  then have "unat (zigzag (scast w)) = take_bit 32 (unat (zigzag (scast w)))"
    by (metis unsigned_take_bit_eq)
  then show ?thesis by (metis take_bit_nat_less_exp)
qed

lemma le_word_widen:
  assumes "8 * n = LENGTH('a)" and "LENGTH('a) \<le> LENGTH('b)"
  shows "(le_word (le_bytes n (w :: 'a::len word)) :: 'b::len word) = ucast w"
proof (rule bit_word_eqI)
  fix k assume "k < LENGTH('b)"
  moreover have "k div 8 < n \<longleftrightarrow> k < LENGTH('a)" using assms(1) by auto
  moreover have "8 * (k div 8) + k mod 8 = k" by simp
  ultimately show "bit (le_word (le_bytes n w) :: 'b word) k = bit (ucast w :: 'b word) k"
    using assms bit_imp_le_length [of w k]
    by (auto simp: bit_le_word nth_le_bytes bit_unsigned_iff bit_drop_bit_eq)
qed

lemma small_tag_length: "8 * unat tag + unat wt < 128 \<Longrightarrow> length (tag_bytes wt tag) = 1"
  by (simp add: tag_bytes_def leb128.simps)

lemma u32_field_length:
  assumes "unat tag < 12"
  shows "length (field_bytes (singular tag UVARINT 4) (u32_cell w)) \<le> 6"
    and "length (field_bytes (singular tag SVARINT 4) (u32_cell w)) \<le> 6"
proof -
  have t: "length (tag_bytes 0 tag) = 1" using assms by (intro small_tag_length) simp
  have "unsigned_value 4 (le_bytes 4 w) = Some (ucast w)"
    using le_word_widen [of 4 w, where 'b = 64] by (simp add: unsigned_value_def)
  moreover have "signed_value 4 (le_bytes 4 w) = Some (scast w)"
    by (simp add: signed_value_def)
  moreover have "unat (ucast w :: u64) = unat w"
    using unsigned_less [of w, where 'a = nat] by (simp add: unsigned_ucast_eq take_bit_nat_eq_self)
  moreover have "length (leb128 (unat (zigzag (scast w)))) \<le> 5"
    using zigzag_small [of w] leb128_length [of "unat (zigzag (scast w))" 4] by simp
  ultimately show "length (field_bytes (singular tag UVARINT 4) (u32_cell w)) \<le> 6"
    "length (field_bytes (singular tag SVARINT 4) (u32_cell w)) \<le> 6"
    using t leb128_u32_length [of w] by (simp_all add: field_bytes_def u32_cell_def)
qed

lemma mac_field_length:
  "unat tag < 12 \<Longrightarrow> length (field_bytes (singular tag FIXED_LENGTH_BYTES 6) (mac_cell m)) = 8"
  using small_tag_length [of tag 2]
  by (simp add: field_bytes_def omitted_def pb_check_proto3_default_value_def packable_def mac_cell_def
      leb128.simps)

lemma bytes_field_length:
  assumes "unat tag < 12" "unat (fst b) < 128" "unat (fst b) \<le> length (snd b)"
  shows "length (field_bytes (optional tag BYTES k) (bytes_cell has b)) = (if has then unat (fst b) + 2 else 0)"
  using assms small_tag_length [of tag 2]
  by (simp add: field_bytes_def omitted_def bytes_cell_def leb128.simps)


definition fixed_part :: "mesh_MeshMessage \<Rightarrow> nat" where
  "fixed_part m = 24 + (if pb_has_data m then unat (fst (pb_data m)) + 2 else 0)
     + (if pb_has_public_key m then unat (fst (pb_public_key m)) + 2 else 0)"

lemma encoded_length:
  assumes "pb_ok m"
  shows "length (message_bytes_pb (field_list mesh_MeshMessage_fields) (mesh_cells m)) \<le> fixed_part m + 36"
proof -
  have d: "unat (fst (pb_data m)) < 128" "unat (fst (pb_data m)) \<le> length (snd (pb_data m))"
    and k: "unat (fst (pb_public_key m)) < 128" "unat (fst (pb_public_key m)) \<le> length (snd (pb_public_key m))"
    using assms by (auto simp: pb_ok_def bytes_field_ok_def)
  show ?thesis
    using u32_field_length [of 1 "pb_messageType m"] u32_field_length [of 2 "pb_dataType m"]
      u32_field_length [of 7 "pb_hopCount m"] u32_field_length [of 8 "pb_epochNum m"]
      u32_field_length [of 9 "pb_seqNum m"] u32_field_length [of 10 "pb_protoVersion m"]
      bytes_field_length [of 6 "pb_data m" 66 "pb_has_data m", OF _ d]
      bytes_field_length [of 11 "pb_public_key m" 34 "pb_has_public_key m", OF _ k]
    by (simp add: message_bytes_pb_def mesh_fields_simps mesh_cells_def mac_field_length fixed_part_def)
qed

section \<open>Encoding and decoding a mesh message\<close>

lemma encodeMeshMessage_bytes:
  assumes "message_wf msg"
  shows "encodeMeshMessage msg cap =
    (let bs = message_bytes_pb (field_list mesh_MeshMessage_fields) (mesh_cells (to_pb msg))
     in if length bs \<le> cap then bs else [])"
  using pb_encode_bytes [OF mesh_cells_ok [OF to_pb_ok [OF assms]], of "pb_ostream_from_buffer cap"]
  by (auto simp: encodeMeshMessage_def pb_write_def pb_ostream_from_buffer_def Let_def)

lemma decode_encoded:
  "pb_ok m \<Longrightarrow> decodeMeshMessage own (message_bytes_pb (field_list mesh_MeshMessage_fields) (mesh_cells m))
     = Some (of_pb own m)"
  by (simp add: decodeMeshMessage_def mesh_of_mesh_cells
      pb_decode_reads [OF mesh_descriptor_ok mesh_cells_ok mesh_cells_ok [OF init_zero_ok]])


text \<open>What the serial link keeps of a message, for a receiver with the MAC \<open>own\<close>.\<close>

definition after_serial :: "mac \<Rightarrow> mesh_message \<Rightarrow> mesh_message" where
  "after_serial own msg =
     (let enrolling = messageType msg \<in> {MESH_TYPE_ENROLLMENT, MESH_TYPE_JOIN_ACK};
          from_server = messageType msg \<in> {MESH_TYPE_JOIN_ACK, MESH_TYPE_SERIAL_CMD_BROADCAST}
      in msg\<lparr>msgData := take 12 (msgData msg) @ replicate 52 0,
             enrollmentPublicKey := (if enrolling then enrollmentPublicKey msg else replicate 32 0),
             originMac := (if from_server then originMac msg else own),
             lastHopMac := (if from_server then lastHopMac msg else own)\<rparr>)"

lemma ucast_narrow [simp]: "(ucast (ucast (s :: u16) :: u32) :: u16) = s"
  by (rule bit_word_eqI) (simp add: bit_simps)

lemma of_to_pb:
  assumes "message_wf msg"
  shows "of_pb own (to_pb msg) = after_serial own msg"
proof -
  have wf: "length (msgData msg) = 64" "length (enrollmentPublicKey msg) = 32"
    using assms by (simp_all add: message_wf_def)
  have zero: "enrollmentPublicKey msg = replicate 32 0" if "\<not> list_ex (\<lambda>b. b \<noteq> 0) (enrollmentPublicKey msg)"
    using that wf(2) zeros [of "enrollmentPublicKey msg" 32] by (auto simp: list_ex_iff list_all_iff)
  show ?thesis
    using wf zero
    by (cases msg)
      (auto simp: of_pb_def to_pb_def after_serial_def Let_def mesh_MeshMessage_init_zero_def
        zero_message_def)
qed

text \<open>The 256-byte buffer of \<open>onMeshDataImpl\<close> holds every encoding.\<close>

lemma encode_256:
  assumes "message_wf msg"
  shows "encodeMeshMessage msg 256 = message_bytes_pb (field_list mesh_MeshMessage_fields) (mesh_cells (to_pb msg))"
    "encodeMeshMessage msg 256 \<noteq> []" "length (encodeMeshMessage msg 256) \<le> 160"
proof -
  let ?bs = "message_bytes_pb (field_list mesh_MeshMessage_fields) (mesh_cells (to_pb msg))"
  have "fixed_part (to_pb msg) \<le> 124"
    by (auto simp: fixed_part_def to_pb_def Let_def mesh_MeshMessage_init_zero_def)
  then have len: "length ?bs \<le> 160" using encoded_length [OF to_pb_ok [OF assms]] by linarith
  then show bs: "encodeMeshMessage msg 256 = ?bs" by (simp add: encodeMeshMessage_bytes [OF assms])
  with len show "length (encodeMeshMessage msg 256) \<le> 160" by simp
  show "encodeMeshMessage msg 256 \<noteq> []" unfolding bs
    by (auto simp: message_bytes_pb_def mesh_fields_simps mesh_cells_def field_bytes_def omitted_def
        pb_check_proto3_default_value_def packable_def tag_bytes_def)
qed

section \<open>Arbitrary input\<close>

text \<open>The memory of a field has the size of its type.\<close>

fun field_fits :: "pb_ltype \<Rightarrow> nat \<Rightarrow> bool" where
  "field_fits FIXED32 n = (4 \<le> n)"
| "field_fits FIXED64 n = (8 \<le> n)"
| "field_fits _ n = True"

definition cells_fit :: "pb_field list \<Rightarrow> pb_cell list \<Rightarrow> bool" where
  "cells_fit fds cs \<longleftrightarrow> list_all2 (\<lambda>fd c. length (pData c) = data_size fd) fds cs"

lemma pb_read_length: "pb_read n bs = Some (d, rest) \<Longrightarrow> length d = n"
  by (auto simp: pb_read_def split: if_splits)

lemma store_int_length:
  "store_int n f v mem = Some mem' \<Longrightarrow> length mem = n \<Longrightarrow> length mem' = n"
  by (auto simp: store_int_def Let_def split: if_splits)

lemma decode_basic_length:
  assumes "decode_basic_field t wt fd bs mem = Some (mem', rest)" and "length mem = data_size fd"
    and "field_fits t (data_size fd)"
  shows "length mem' = data_size fd"
  using assms
  by (cases t)
    (auto simp: pb_dec_bool_def pb_dec_varint_def pb_dec_fixed_def pb_dec_bytes_def pb_dec_string_def
      pb_dec_fixed_length_bytes_def Let_def split: if_splits bind_splits
      dest: store_int_length dest!: pb_read_length)

lemma decode_round_fits:
  assumes "decode_round D i cs seen bs = Some (j, cs', seen', rest)"
    and "cells_fit (field_list D) cs" and "descriptor_ok D" and "i < length (field_list D)"
    and "list_all (\<lambda>fd. field_fits (ltype fd) (data_size fd)) (field_list D)"
  shows "cells_fit (field_list D) cs' \<and> j < length (field_list D)"
proof (cases "snd (pb_decode_tag bs)")
  case None
  with assms show ?thesis by (auto simp: decode_round_def split: if_splits)
next
  case (Some r)
  obtain wt tag rest' where r: "r = (wt, tag, rest')" by (cases r)
  show ?thesis
  proof (cases "pb_field_iter_find (field_list D) (largest_tag D) i tag")
    case None
    with assms Some r show ?thesis by (auto simp: decode_round_def split: if_splits)
  next
    case k: (Some k)
    have kl: "k < length (field_list D)"
      using k field_iter_find_exact [OF assms(3,4), of tag k] by simp
    obtain c where c: "decode_static_field wt (field_list D ! k) rest' (cs ! k) = Some (c, rest)"
        "cs' = cs[k := c]" "j = k"
      using assms(1) Some r k by (auto simp: decode_round_def split: if_splits)
    have "length (pData c) = data_size (field_list D ! k)"
      using c(1) assms(2,5) kl decode_basic_length
      by (auto simp: decode_static_field_def Let_def cells_fit_def list_all2_conv_all_nth list_all_length)
    with assms(2) kl c(2,3) show ?thesis
      by (auto simp: cells_fit_def list_all2_conv_all_nth nth_list_update)
  qed
qed

lemma decode_loop_fits:
  assumes "decode_loop fuel D i cs seen bs = Some (cs', seen')"
    and "cells_fit (field_list D) cs" and "i < length (field_list D)" and "descriptor_ok D"
    and "list_all (\<lambda>fd. field_fits (ltype fd) (data_size fd)) (field_list D)"
  shows "cells_fit (field_list D) cs'"
  using assms(1-3)
proof (induction fuel arbitrary: i cs seen bs)
  case 0
  then show ?case by (cases bs) simp_all
next
  case (Suc fuel)
  show ?case
  proof (cases bs)
    case (Cons b bs')
    with Suc.prems(1) obtain j c s r where step: "decode_round D i cs seen (b # bs') = Some (j, c, s, r)"
        and rec: "decode_loop fuel D j c s r = Some (cs', seen')"
      by (auto split: option.splits)
    have "cells_fit (field_list D) c" "j < length (field_list D)"
      using decode_round_fits [OF step Suc.prems(2) assms(4) Suc.prems(3) assms(5)] by simp_all
    with Suc.IH [OF rec] show ?thesis by simp
  qed (use Suc.prems in simp)
qed

lemma mesh_cells_fit: "cells_fit (field_list mesh_MeshMessage_fields) cs \<Longrightarrow>
    length (pData (cs ! 5)) = 66 \<and> length (pData (cs ! 10)) = 34"
  unfolding cells_fit_def mesh_fields_simps
  by (auto simp: list_all2_Cons1)

lemma decode_mesh_wf:
  assumes "decodeMeshMessage own bs = Some msg"
  shows "message_wf msg"
proof -
  let ?D = "mesh_MeshMessage_fields" and ?z = "mesh_cells mesh_MeshMessage_init_zero"
  obtain cs where cs: "pb_decode ?D ?z bs = Some cs" "msg = of_pb own (mesh_of_cells cs)"
    using assms by (auto simp: decodeMeshMessage_def)
  then obtain seen where loop: "decode_loop (length bs) ?D 0
      (pb_message_set_to_defaults (field_list ?D) ?z) [] bs = Some (cs, seen)"
    by (auto simp: pb_decode_def split: option.splits if_splits)
  have "cells_fit (field_list ?D) (pb_message_set_to_defaults (field_list ?D) ?z)"
    by (simp add: cells_fit_def mesh_fields_simps mesh_cells_def pb_message_set_to_defaults_def
        pb_field_set_to_default_def Let_def)
  from decode_loop_fits [OF loop this _ mesh_descriptor_ok]
  have "cells_fit (field_list ?D) cs" by (simp add: mesh_fields_simps)
  then show ?thesis
    unfolding cs(2) using mesh_cells_fit [of cs]
    by (auto simp: of_pb_def mesh_of_cells_def message_wf_def Let_def)
qed

end
