(* ===== verification/Pb_Props.thy ===== *)
theory Pb_Props
  imports Mesh_Pb_Lemmas
begin

text \<open>
  The properties of the serial link's codec: the variable-length integers are base-128, the field
  search is exact, a message read back is the message written, the decoder ends, and what arbitrary
  bytes decode to is a well-formed mesh message.
\<close>

section \<open>Integers\<close>

lemma leb128_u64_length: "length (leb128 (unat (v :: u64))) \<le> 10"
proof -
  have "unat v < 128 ^ Suc 9" using unsigned_less [of v, where 'a = nat] by (rule less_le_trans) simp
  from leb128_length [OF this] show ?thesis by simp
qed

text \<open>
  The two-loop encoder on 32-bit halves writes the base-128 digits of the value, lowest first,
  the high bit set on all but the last byte.
\<close>
theorem varint_is_base128:
  "pb_encode_varint v s = pb_write (leb128 (unat v)) s"
  by (rule pb_encode_varint_leb128)

text \<open>
  Ten bytes hold every 64-bit value, and both decoders read an encoded integer back and stop
  exactly behind it, signed values through the zigzag map.
\<close>
theorem varint_roundtrip:
  "(\<exists>s. pb_encode_varint v (pb_ostream_from_buffer 10) = Some s
      \<and> pb_decode_varint (written s @ rest) = Some (v, rest))
   \<and> (\<exists>s. pb_encode_svarint v (pb_ostream_from_buffer 10) = Some s
      \<and> pb_decode_svarint (written s @ rest) = Some (v, rest))"
proof -
  have read: "pb_decode_varint (leb128 (unat w) @ rest) = Some (w, rest)" for w :: u64
    using pb_decode_varint_leb128 [of "unat w" rest] unsigned_less [of w, where 'a = nat] by simp
  show ?thesis
    using leb128_u64_length [of v] leb128_u64_length [of "zigzag v"]
    by (simp add: pb_encode_varint_leb128 pb_encode_svarint_def pb_write_def
        pb_ostream_from_buffer_def pb_decode_svarint_def zigzag_inverse read)
qed

section \<open>Fields\<close>

text \<open>
  On a descriptor whose tags ascend, the search from any position of the iterator finds an entry
  exactly when it has the tag asked for: the quick test on six bits, the early return for tags
  beyond the largest and the restart for smaller tags lose nothing.
\<close>
theorem field_search_exact:
  assumes "descriptor_ok D" and "i < length (field_list D)"
  shows "pb_field_iter_find (field_list D) (largest_tag D) i tag = Some k
     \<longleftrightarrow> k < length (field_list D) \<and> ftag (field_list D ! k) = tag"
  by (rule field_iter_find_exact [OF assms])

theorem field_search_exact_witness:
  "pb_field_iter_find (field_list mesh_MeshMessage_fields) 11 8 3 = Some 2"
  using field_search_exact [OF mesh_descriptor_ok, of 8 3 2] by (simp add: mesh_fields_simps)

text \<open>
  A message of canonical cells that fits the buffer is decoded to the same cells, whatever the
  destination held before.
\<close>
theorem protobuf_roundtrip:
  assumes "descriptor_ok D" and "list_all2 cell_ok (field_list D) cs"
    and "list_all2 cell_ok (field_list D) cs0"
    and "pb_encode (field_list D) cs (pb_ostream_from_buffer cap) = Some s"
  shows "pb_decode D cs0 (written s) = Some cs"
proof -
  have "written s = message_bytes_pb (field_list D) cs"
    using assms(4) pb_encode_bytes [OF assms(2), of "pb_ostream_from_buffer cap"]
    by (auto simp: pb_write_def pb_ostream_from_buffer_def split: if_splits)
  then show ?thesis by (simp add: pb_decode_reads [OF assms(1-3)])
qed

text \<open>A two-field message for the witness: an integer and a byte array.\<close>

definition small_descriptor :: pb_descriptor where
  "small_descriptor = \<lparr>field_list = [singular 1 UVARINT 4, optional 6 BYTES 66], largest_tag = 6\<rparr>"

theorem protobuf_roundtrip_witness:
  "pb_decode small_descriptor [u32_cell 0, bytes_cell False (0, replicate 64 0)]
     [8, 5] = Some [u32_cell 5, bytes_cell False (0, replicate 64 0)]"
proof -
  have D: "descriptor_ok small_descriptor"
    by (simp add: small_descriptor_def descriptor_ok_def tags_sorted_def)
  have c: "list_all2 cell_ok (field_list small_descriptor) [u32_cell w, bytes_cell False (0, replicate 64 0)]"
    for w
    using bytes_cell_ok [of 64 False "(0, replicate 64 0)" 66 6]
    by (simp add: small_descriptor_def u32_cell_ok bytes_field_ok_def)
  have "pb_encode (field_list small_descriptor) [u32_cell 5, bytes_cell False (0, replicate 64 0)]
      (pb_ostream_from_buffer 8) = Some \<lparr>sizing = False, max_size = 8, written = [8, 5]\<rparr>"
    using pb_encode_bytes [OF c, of 5 "pb_ostream_from_buffer 8"]
    by (simp add: small_descriptor_def message_bytes_pb_def field_bytes_def omitted_def
        pb_check_proto3_default_value_def packable_def u32_cell_def bytes_cell_def tag_bytes_def
        leb128.simps unsigned_value_def pb_write_def pb_ostream_from_buffer_def le_bytes_u32)
  from protobuf_roundtrip [OF D c c this] show ?thesis by simp
qed



section \<open>Mesh messages over the serial link\<close>



text \<open>
  Every well-formed mesh message has a protobuf encoding of at most 160 bytes, the generated
  bound, so \<open>encodeMeshMessage\<close> never fails on the 256-byte buffer of \<open>onMeshDataImpl\<close> and the
  error path behind it is dead.
\<close>
theorem serial_encoding_fits:
  assumes "message_wf msg"
  shows "encodeMeshMessage msg 256 \<noteq> [] \<and> length (encodeMeshMessage msg 256) \<le> 160"
  using encode_256 [OF assms] by simp

text \<open>A join acknowledgement with data and a key, for the witnesses.\<close>

definition sample_ack :: mesh_message where
  "sample_ack = zero_message\<lparr>messageType := MESH_TYPE_JOIN_ACK, targetMac := MAC 1 2 3 4 5 6,
     msgData := replicate 64 7, seqNum := 500, enrollmentPublicKey := replicate 32 9\<rparr>"

lemma sample_ack_wf: "message_wf sample_ack"
  by (simp add: sample_ack_def message_wf_def)

theorem serial_encoding_fits_witness:
  "encodeMeshMessage sample_ack 256 \<noteq> [] \<and> length (encodeMeshMessage sample_ack 256) \<le> 160"
  by (rule serial_encoding_fits [OF sample_ack_wf])

text \<open>
  C18. What the device writes to the serial port it reads back as the same message, up to the losses
  of \<open>after_serial\<close>: 52 of the 64 data bytes, the key of a message that is not about enrollment,
  and the two MAC fields of a message that the server is not the author of.
\<close>
theorem serial_roundtrip:
  assumes "message_wf msg"
  shows "decodeMeshMessage own (encodeMeshMessage msg 256) = Some (after_serial own msg)"
  by (simp add: encode_256 [OF assms] decode_encoded [OF to_pb_ok [OF assms]] of_to_pb [OF assms])

theorem serial_roundtrip_witness:
  "\<exists>msg. decodeMeshMessage zero_mac (encodeMeshMessage sample_ack 256) = Some msg
     \<and> seqNum msg = 500 \<and> enrollmentPublicKey msg = replicate 32 9
     \<and> msgData msg = replicate 12 7 @ replicate 52 0 \<and> originMac msg = zero_mac"
  using serial_roundtrip [OF sample_ack_wf, of zero_mac]
  by (simp add: after_serial_def sample_ack_def Let_def)

end
