(* ===== verification/Pb_Desc.thy ===== *)
theory Pb_Desc
  imports Mesh_Pb
begin

text \<open>
  The field descriptors of nanopb as words. The macros of pb.h (\<open>PB_BIND\<close> and what it expands to)
  turn the field list of a generated message into an array of 32-bit words, and the iterator of
  pb_common.c reads the fields back from it. \<open>pb_size_t\<close> is 16 bits wide; pointers are addresses,
  \<open>None\<close> being NULL.
\<close>

section \<open>The field list of a message (pb.h)\<close>

datatype pb_atype = A_STATIC | A_POINTER | A_CALLBACK

datatype pb_rule = R_REQUIRED | R_SINGULAR | R_OPTIONAL | R_REPEATED | R_FIXARRAY | R_ONEOF

datatype pb_proto_type = T_BOOL | T_BYTES | T_DOUBLE | T_ENUM | T_UENUM | T_FIXED32 | T_FIXED64
  | T_FLOAT | T_INT32 | T_INT64 | T_MESSAGE | T_MSG_W_CB | T_SFIXED32 | T_SFIXED64 | T_SINT32
  | T_SINT64 | T_STRING | T_UINT32 | T_UINT64 | T_EXTENSION | T_FIXED_LENGTH_BYTES

fun PB_ATYPE_code :: "pb_atype \<Rightarrow> byte" where
  "PB_ATYPE_code A_STATIC = 0x00"
| "PB_ATYPE_code A_POINTER = 0x80"
| "PB_ATYPE_code A_CALLBACK = 0x40"

fun PB_HTYPE_code :: "pb_rule \<Rightarrow> byte" where
  "PB_HTYPE_code R_REQUIRED = 0x00"
| "PB_HTYPE_code R_OPTIONAL = 0x10"
| "PB_HTYPE_code R_SINGULAR = 0x10"
| "PB_HTYPE_code R_REPEATED = 0x20"
| "PB_HTYPE_code R_FIXARRAY = 0x20"
| "PB_HTYPE_code R_ONEOF = 0x30"

fun PB_LTYPE_MAP :: "pb_proto_type \<Rightarrow> byte" where
  "PB_LTYPE_MAP T_BOOL = 0x00"
| "PB_LTYPE_MAP T_BYTES = 0x06"
| "PB_LTYPE_MAP T_DOUBLE = 0x05"
| "PB_LTYPE_MAP T_ENUM = 0x01"
| "PB_LTYPE_MAP T_UENUM = 0x02"
| "PB_LTYPE_MAP T_FIXED32 = 0x04"
| "PB_LTYPE_MAP T_FIXED64 = 0x05"
| "PB_LTYPE_MAP T_FLOAT = 0x04"
| "PB_LTYPE_MAP T_INT32 = 0x01"
| "PB_LTYPE_MAP T_INT64 = 0x01"
| "PB_LTYPE_MAP T_MESSAGE = 0x08"
| "PB_LTYPE_MAP T_MSG_W_CB = 0x09"
| "PB_LTYPE_MAP T_SFIXED32 = 0x04"
| "PB_LTYPE_MAP T_SFIXED64 = 0x05"
| "PB_LTYPE_MAP T_SINT32 = 0x03"
| "PB_LTYPE_MAP T_SINT64 = 0x03"
| "PB_LTYPE_MAP T_STRING = 0x07"
| "PB_LTYPE_MAP T_UINT32 = 0x02"
| "PB_LTYPE_MAP T_UINT64 = 0x02"
| "PB_LTYPE_MAP T_EXTENSION = 0x0A"
| "PB_LTYPE_MAP T_FIXED_LENGTH_BYTES = 0x0B"

definition PB_ATYPE :: "byte \<Rightarrow> byte" where "PB_ATYPE x = x AND 0xC0"
definition PB_HTYPE :: "byte \<Rightarrow> byte" where "PB_HTYPE x = x AND 0x30"
definition PB_LTYPE :: "byte \<Rightarrow> byte" where "PB_LTYPE x = x AND 0x0F"

definition PB_LTYPE_IS_SUBMSG :: "byte \<Rightarrow> bool" where
  "PB_LTYPE_IS_SUBMSG x \<longleftrightarrow> PB_LTYPE x = 0x08 \<or> PB_LTYPE x = 0x09"

text \<open>
  An entry of a field list with what the compiler knows of the member: its offset, \<open>sizeof\<close> of the
  member, of its first element and of the first element of that, the distance to the companion
  member (\<open>has_\<close>, \<open>_count\<close> or \<open>which_\<close>), and for a submessage the address of its descriptor.
\<close>

record pb_member =
  m_atype :: pb_atype
  m_rule :: pb_rule
  m_type :: pb_proto_type
  m_tag :: u32
  m_offset :: u32
  m_size :: u32
  m_size0 :: u32
  m_size00 :: u32
  m_delta :: u32
  m_submsg :: nat

definition PB_DATA_OFFSET :: "pb_member \<Rightarrow> u32" where
  "PB_DATA_OFFSET f = m_offset f"

fun PB_SO :: "pb_atype \<Rightarrow> pb_rule \<Rightarrow> u32 \<Rightarrow> u32" where
  "PB_SO a R_REQUIRED d = 0"
| "PB_SO a R_SINGULAR d = 0"
| "PB_SO a R_ONEOF d = d"
| "PB_SO a R_OPTIONAL d = (if a = A_STATIC then d else 0)"
| "PB_SO a R_REPEATED d = (if a = A_CALLBACK then 0 else d)"
| "PB_SO a R_FIXARRAY d = 0"

definition PB_SIZE_OFFSET :: "pb_member \<Rightarrow> u32" where
  "PB_SIZE_OFFSET f = PB_SO (m_atype f) (m_rule f) (m_delta f)"

fun PB_AS :: "pb_atype \<Rightarrow> pb_rule \<Rightarrow> pb_member \<Rightarrow> u32" where
  "PB_AS A_STATIC R_REPEATED f = m_size f div m_size0 f"
| "PB_AS A_STATIC R_FIXARRAY f = m_size f div m_size0 f"
| "PB_AS A_POINTER R_FIXARRAY f = m_size0 f div m_size00 f"
| "PB_AS _ _ f = 1"

definition PB_ARRAY_SIZE :: "pb_member \<Rightarrow> u32" where
  "PB_ARRAY_SIZE f = PB_AS (m_atype f) (m_rule f) f"

fun PB_DS :: "pb_atype \<Rightarrow> pb_rule \<Rightarrow> pb_member \<Rightarrow> u32" where
  "PB_DS A_STATIC R_REPEATED f = m_size0 f"
| "PB_DS A_STATIC R_FIXARRAY f = m_size0 f"
| "PB_DS A_STATIC _ f = m_size f"
| "PB_DS A_POINTER R_FIXARRAY f = m_size00 f"
| "PB_DS A_POINTER _ f = m_size0 f"
| "PB_DS A_CALLBACK _ f = m_size f"

definition PB_DATA_SIZE :: "pb_member \<Rightarrow> u32" where
  "PB_DATA_SIZE f = PB_DS (m_atype f) (m_rule f) f"

definition PB_TYPE :: "pb_member \<Rightarrow> byte" where
  "PB_TYPE f = PB_ATYPE_code (m_atype f) OR PB_HTYPE_code (m_rule f) OR PB_LTYPE_MAP (m_type f)"

section \<open>Descriptor words (pb.h)\<close>

definition PB_FIELDINFO_1 :: "u32 \<Rightarrow> byte \<Rightarrow> u32 \<Rightarrow> u32 \<Rightarrow> u32 \<Rightarrow> u32 \<Rightarrow> u32 list" where
  "PB_FIELDINFO_1 tag type doff dsize soff asize =
     [0 OR (push_bit 2 tag AND 0xFF) OR push_bit 8 (ucast type)
      OR push_bit 16 (doff AND 0xFF) OR push_bit 24 (soff AND 0x0F)
      OR push_bit 28 (dsize AND 0x0F)]"

definition PB_FIELDINFO_2 :: "u32 \<Rightarrow> byte \<Rightarrow> u32 \<Rightarrow> u32 \<Rightarrow> u32 \<Rightarrow> u32 \<Rightarrow> u32 list" where
  "PB_FIELDINFO_2 tag type doff dsize soff asize =
     [1 OR (push_bit 2 tag AND 0xFF) OR push_bit 8 (ucast type)
      OR push_bit 16 (asize AND 0xFFF) OR push_bit 28 (soff AND 0x0F),
      (doff AND 0xFFFF) OR push_bit 16 (dsize AND 0xFFF) OR push_bit 22 (tag AND 0x3C0)]"

text \<open>\<open>(uint32_t)(int_least8_t)\<close> extends the sign of the low byte.\<close>

definition size_offset_word :: "u32 \<Rightarrow> u32" where
  "size_offset_word soff = scast (ucast soff :: byte)"

definition PB_FIELDINFO_4 :: "u32 \<Rightarrow> byte \<Rightarrow> u32 \<Rightarrow> u32 \<Rightarrow> u32 \<Rightarrow> u32 \<Rightarrow> u32 list" where
  "PB_FIELDINFO_4 tag type doff dsize soff asize =
     [2 OR (push_bit 2 tag AND 0xFF) OR push_bit 8 (ucast type) OR push_bit 16 (asize AND 0xFFFF),
      size_offset_word soff OR (push_bit 2 tag AND 0xFFFFFF00),
      doff, dsize]"

definition PB_FIELDINFO_8 :: "u32 \<Rightarrow> byte \<Rightarrow> u32 \<Rightarrow> u32 \<Rightarrow> u32 \<Rightarrow> u32 \<Rightarrow> u32 list" where
  "PB_FIELDINFO_8 tag type doff dsize soff asize =
     [3 OR (push_bit 2 tag AND 0xFF) OR push_bit 8 (ucast type),
      size_offset_word soff OR (push_bit 2 tag AND 0xFFFFFF00),
      doff, dsize, asize, 0, 0, 0]"

definition PB_FITS :: "u32 \<Rightarrow> nat \<Rightarrow> bool" where
  "PB_FITS v bits \<longleftrightarrow> v < push_bit bits 1"

definition PB_FIELDINFO_ASSERT_1 :: "u32 \<Rightarrow> byte \<Rightarrow> u32 \<Rightarrow> u32 \<Rightarrow> u32 \<Rightarrow> u32 \<Rightarrow> bool" where
  "PB_FIELDINFO_ASSERT_1 tag type doff dsize soff asize \<longleftrightarrow>
     PB_FITS tag 6 \<and> PB_FITS doff 8 \<and> PB_FITS soff 4 \<and> PB_FITS dsize 4
     \<and> PB_FITS asize 1"

definition PB_FIELDINFO_ASSERT_2 :: "u32 \<Rightarrow> byte \<Rightarrow> u32 \<Rightarrow> u32 \<Rightarrow> u32 \<Rightarrow> u32 \<Rightarrow> bool" where
  "PB_FIELDINFO_ASSERT_2 tag type doff dsize soff asize \<longleftrightarrow>
     PB_FITS tag 10 \<and> PB_FITS doff 16 \<and> PB_FITS soff 4 \<and> PB_FITS dsize 12
     \<and> PB_FITS asize 12"

definition PB_FIELDINFO_ASSERT_4 :: "u32 \<Rightarrow> byte \<Rightarrow> u32 \<Rightarrow> u32 \<Rightarrow> u32 \<Rightarrow> u32 \<Rightarrow> bool" where
  "PB_FIELDINFO_ASSERT_4 tag type doff dsize soff asize \<longleftrightarrow>
     PB_FITS tag 16 \<and> PB_FITS doff 16 \<and> PB_FITS (size_offset_word soff) 8
     \<and> PB_FITS dsize 16 \<and> PB_FITS asize 16"

definition PB_FIELDINFO_ASSERT_8 :: "u32 \<Rightarrow> byte \<Rightarrow> u32 \<Rightarrow> u32 \<Rightarrow> u32 \<Rightarrow> u32 \<Rightarrow> bool" where
  "PB_FIELDINFO_ASSERT_8 tag type doff dsize soff asize \<longleftrightarrow>
     PB_FITS tag 16 \<and> PB_FITS doff 16 \<and> PB_FITS (size_offset_word soff) 8
     \<and> PB_FITS dsize 16 \<and> PB_FITS asize 16"

text \<open>The width is a parameter of \<open>PB_BIND\<close>; \<open>AUTO\<close> takes one or two words.\<close>

datatype pb_width = W1 | W2 | W4 | W8 | W_AUTO

fun PB_FI_WIDTH_LTYPE :: "pb_proto_type \<Rightarrow> pb_width" where
  "PB_FI_WIDTH_LTYPE T_BYTES = W2"
| "PB_FI_WIDTH_LTYPE T_MESSAGE = W2"
| "PB_FI_WIDTH_LTYPE T_MSG_W_CB = W2"
| "PB_FI_WIDTH_LTYPE T_STRING = W2"
| "PB_FI_WIDTH_LTYPE T_FIXED_LENGTH_BYTES = W2"
| "PB_FI_WIDTH_LTYPE _ = W1"

fun PB_FIELDINFO_WIDTH_AUTO :: "pb_atype \<Rightarrow> pb_rule \<Rightarrow> pb_proto_type \<Rightarrow> pb_width" where
  "PB_FIELDINFO_WIDTH_AUTO A_CALLBACK _ t = W2"
| "PB_FIELDINFO_WIDTH_AUTO _ R_REPEATED t = W2"
| "PB_FIELDINFO_WIDTH_AUTO _ R_FIXARRAY t = W2"
| "PB_FIELDINFO_WIDTH_AUTO _ _ t = PB_FI_WIDTH_LTYPE t"

definition width_of :: "pb_width \<Rightarrow> pb_member \<Rightarrow> pb_width" where
  "width_of w f = (if w = W_AUTO then PB_FIELDINFO_WIDTH_AUTO (m_atype f) (m_rule f) (m_type f) else w)"

definition PB_GEN_FIELD_INFO :: "pb_width \<Rightarrow> pb_member \<Rightarrow> u32 list" where
  "PB_GEN_FIELD_INFO w f =
     (let gen = (\<lambda>g. g (m_tag f) (PB_TYPE f) (PB_DATA_OFFSET f) (PB_DATA_SIZE f) (PB_SIZE_OFFSET f)
                       (PB_ARRAY_SIZE f))
      in case width_of w f of
           W1 \<Rightarrow> gen PB_FIELDINFO_1 | W2 \<Rightarrow> gen PB_FIELDINFO_2 | W4 \<Rightarrow> gen PB_FIELDINFO_4
         | W8 \<Rightarrow> gen PB_FIELDINFO_8 | W_AUTO \<Rightarrow> [])"

definition PB_GEN_FIELD_INFO_ASSERT :: "pb_width \<Rightarrow> pb_member \<Rightarrow> bool" where
  "PB_GEN_FIELD_INFO_ASSERT w f =
     (let gen = (\<lambda>g. g (m_tag f) (PB_TYPE f) (PB_DATA_OFFSET f) (PB_DATA_SIZE f) (PB_SIZE_OFFSET f)
                       (PB_ARRAY_SIZE f))
      in case width_of w f of
           W1 \<Rightarrow> gen PB_FIELDINFO_ASSERT_1 | W2 \<Rightarrow> gen PB_FIELDINFO_ASSERT_2
         | W4 \<Rightarrow> gen PB_FIELDINFO_ASSERT_4 | W8 \<Rightarrow> gen PB_FIELDINFO_ASSERT_8 | W_AUTO \<Rightarrow> False)"

text \<open>
  \<open>default_value\<close> and \<open>field_callback\<close> of a descriptor are left out: the iterator does not read them
  and the generated message has neither.
\<close>

record pb_msgdesc =
  field_info :: "u32 list"
  submsg_info :: "nat option list"
  field_count :: u16
  required_field_count :: u16
  desc_largest_tag :: u16

fun PB_SI :: "pb_proto_type \<Rightarrow> nat \<Rightarrow> nat option list" where
  "PB_SI T_MESSAGE t = [Some t]"
| "PB_SI T_MSG_W_CB t = [Some t]"
| "PB_SI _ t = []"

definition PB_GEN_SUBMSG_INFO :: "pb_member \<Rightarrow> nat option list" where
  "PB_GEN_SUBMSG_INFO f = PB_SI (m_type f) (m_submsg f)"

definition PB_BIND :: "pb_width \<Rightarrow> pb_member list \<Rightarrow> pb_msgdesc" where
  "PB_BIND w fs = \<lparr>field_info = concat (map (PB_GEN_FIELD_INFO w) fs) @ [0],
     submsg_info = concat (map PB_GEN_SUBMSG_INFO fs) @ [None],
     field_count = of_nat (length fs),
     required_field_count = of_nat (length (filter (\<lambda>f. m_rule f = R_REQUIRED) fs)),
     desc_largest_tag = (if fs = [] then 0 else ucast (m_tag (last fs)))\<rparr>"

section \<open>The iterator (pb_common.c)\<close>

text \<open>\<open>pSize\<close> points to a companion member or to the iterator's own \<open>array_size\<close>.\<close>

datatype size_ptr = NoSize | OwnArraySize | SizeAt int

record pb_field_iter =
  message :: "int option"
  iter_index :: u16
  field_info_index :: u16
  required_field_index :: u16
  submessage_index :: u16
  iter_tag :: u16
  iter_data_size :: u16
  iter_array_size :: u16
  iter_type :: byte
  pField :: "int option"
  iter_pData :: "int option"
  pSize :: size_ptr
  submsg_desc :: "nat option"

text \<open>The words of one field: array size, tag, size offset, data offset, data size.\<close>

definition field_words :: "u32 list \<Rightarrow> nat \<Rightarrow> u16 \<times> u16 \<times> byte \<times> u32 \<times> u16" where
  "field_words ws i =
     (let word0 = ws ! i; word1 = ws ! (i + 1); word2 = ws ! (i + 2); word3 = ws ! (i + 3);
          word4 = ws ! (i + 4)
      in if word0 AND 3 = 0 then
           (1, ucast (drop_bit 2 word0 AND 0x3F), ucast (drop_bit 24 word0 AND 0x0F),
            drop_bit 16 word0 AND 0xFF, ucast (drop_bit 28 word0 AND 0x0F))
         else if word0 AND 3 = 1 then
           (ucast (drop_bit 16 word0 AND 0x0FFF),
            ucast ((drop_bit 2 word0 AND 0x3F) OR push_bit 6 (drop_bit 28 word1)),
            ucast (drop_bit 28 word0 AND 0x0F), word1 AND 0xFFFF,
            ucast (drop_bit 16 word1 AND 0x0FFF))
         else if word0 AND 3 = 2 then
           (ucast (drop_bit 16 word0),
            ucast ((drop_bit 2 word0 AND 0x3F) OR push_bit 6 (drop_bit 8 word1)),
            ucast (word1 AND 0xFF), word2, ucast word3)
         else
           (ucast word4, ucast ((drop_bit 2 word0 AND 0x3F) OR push_bit 6 (drop_bit 8 word1)),
            ucast (word1 AND 0xFF), word2, ucast word3))"

text \<open>
  \<open>readptr\<close> reads a pointer member of the message, for fields that are allocated outside it. The
  flag is the returned value; without a field to load nothing changes.
\<close>

definition load_descriptor_values :: "(int \<Rightarrow> int option) \<Rightarrow> pb_msgdesc \<Rightarrow> pb_field_iter
    \<Rightarrow> bool \<times> pb_field_iter" where
  "load_descriptor_values readptr D it =
     (if iter_index it \<ge> field_count D then (False, it)
      else
        let word0 = field_info D ! unat (field_info_index it);
            type = ucast (drop_bit 8 word0 AND 0xFF) :: byte;
            (asize, tag, size_offset, data_offset, dsize) =
              field_words (field_info D) (unat (field_info_index it));
            field = map_option (\<lambda>m. m + uint data_offset) (message it);
            psize = (case field of
                None \<Rightarrow> NoSize
              | Some p \<Rightarrow>
                  if size_offset \<noteq> 0 then SizeAt (p - sint size_offset)
                  else if PB_HTYPE type = 0x20 \<and> (PB_ATYPE type = 0x00 \<or> PB_ATYPE type = 0x80)
                  then OwnArraySize else NoSize);
            data = (if PB_ATYPE type = 0x80 then Option.bind field readptr else field)
        in (True, it\<lparr>iter_type := type, iter_array_size := asize, iter_tag := tag,
              iter_data_size := dsize, pField := field, pSize := psize,
              iter_pData := (case message it of None \<Rightarrow> iter_pData it | Some m \<Rightarrow> data),
              submsg_desc := (if PB_LTYPE_IS_SUBMSG type
                              then submsg_info D ! unat (submessage_index it) else None)\<rparr>))"

definition iter_advance :: "pb_msgdesc \<Rightarrow> pb_field_iter \<Rightarrow> pb_field_iter" where
  "iter_advance D it =
     (let next = iter_index it + 1
      in if next \<ge> field_count D
         then it\<lparr>iter_index := 0, field_info_index := 0, submessage_index := 0, required_field_index := 0\<rparr>
         else let prev_descriptor = field_info D ! unat (field_info_index it);
                  prev_type = ucast (drop_bit 8 prev_descriptor AND 0xFF) :: byte;
                  descriptor_len = push_bit (unat (prev_descriptor AND 3)) 1 :: u16
              in it\<lparr>iter_index := next, field_info_index := field_info_index it + descriptor_len,
                   required_field_index := required_field_index it + of_bool (PB_HTYPE prev_type = 0),
                   submessage_index := submessage_index it + of_bool (PB_LTYPE_IS_SUBMSG prev_type)\<rparr>)"

definition zero_iter :: "int option \<Rightarrow> pb_field_iter" where
  "zero_iter m = \<lparr>message = m, iter_index = 0, field_info_index = 0, required_field_index = 0,
     submessage_index = 0, iter_tag = 0, iter_data_size = 0, iter_array_size = 0, iter_type = 0,
     pField = None, iter_pData = None, pSize = NoSize, submsg_desc = None\<rparr>"

definition pb_field_iter_begin :: "(int \<Rightarrow> int option) \<Rightarrow> pb_msgdesc \<Rightarrow> int option
    \<Rightarrow> bool \<times> pb_field_iter" where
  "pb_field_iter_begin readptr D m = load_descriptor_values readptr D (zero_iter m)"

definition pb_field_iter_next :: "(int \<Rightarrow> int option) \<Rightarrow> pb_msgdesc \<Rightarrow> pb_field_iter
    \<Rightarrow> bool \<times> pb_field_iter" where
  "pb_field_iter_next readptr D it =
     (let it' = snd (load_descriptor_values readptr D (iter_advance D it))
      in (iter_index it' \<noteq> 0, it'))"

text \<open>
  The search, at most \<open>fuel\<close> rounds: the loop ends when the index is back at \<open>start\<close>, after at
  most as many rounds as there are fields.
\<close>

fun iter_find_loop :: "nat \<Rightarrow> (int \<Rightarrow> int option) \<Rightarrow> pb_msgdesc \<Rightarrow> u16 \<Rightarrow> u32 \<Rightarrow> pb_field_iter
    \<Rightarrow> bool \<times> pb_field_iter" where
  "iter_find_loop 0 readptr D start tag it = (False, it)"
| "iter_find_loop (Suc fuel) readptr D start tag it =
     (let it1 = iter_advance D it;
          fieldinfo = field_info D ! unat (field_info_index it1);
          candidate = (drop_bit 2 fieldinfo AND 0x3F = tag AND 0x3F);
          it2 = (if candidate then snd (load_descriptor_values readptr D it1) else it1)
      in if candidate \<and> ucast (iter_tag it2) = tag \<and> PB_LTYPE (iter_type it2) \<noteq> 0x0A then (True, it2)
         else if iter_index it2 = start then (False, snd (load_descriptor_values readptr D it2))
         else iter_find_loop fuel readptr D start tag it2)"

definition iter_find :: "(int \<Rightarrow> int option) \<Rightarrow> pb_msgdesc \<Rightarrow> u32 \<Rightarrow> pb_field_iter
    \<Rightarrow> bool \<times> pb_field_iter" where
  "iter_find readptr D tag it =
     (if ucast (iter_tag it) = tag then (True, it)
      else if tag > ucast (desc_largest_tag D) then (False, it)
      else iter_find_loop (unat (field_count D)) readptr D (iter_index it) tag
             (if tag < ucast (iter_tag it) then it\<lparr>iter_index := field_count D\<rparr> else it))"

fun iter_find_extension_loop :: "nat \<Rightarrow> (int \<Rightarrow> int option) \<Rightarrow> pb_msgdesc \<Rightarrow> u16 \<Rightarrow> pb_field_iter
    \<Rightarrow> bool \<times> pb_field_iter" where
  "iter_find_extension_loop 0 readptr D start it = (False, it)"
| "iter_find_extension_loop (Suc fuel) readptr D start it =
     (let it1 = iter_advance D it;
          fieldinfo = field_info D ! unat (field_info_index it1)
      in if PB_LTYPE (ucast (drop_bit 8 fieldinfo AND 0xFF)) = 0x0A
         then load_descriptor_values readptr D it1
         else if iter_index it1 = start then (False, snd (load_descriptor_values readptr D it1))
         else iter_find_extension_loop fuel readptr D start it1)"

definition pb_field_iter_find_extension :: "(int \<Rightarrow> int option) \<Rightarrow> pb_msgdesc \<Rightarrow> pb_field_iter
    \<Rightarrow> bool \<times> pb_field_iter" where
  "pb_field_iter_find_extension readptr D it =
     (if PB_LTYPE (iter_type it) = 0x0A then (True, it)
      else iter_find_extension_loop (unat (field_count D)) readptr D (iter_index it) it)"

section \<open>The generated message (mesh.pb.h, mesh.pb.c)\<close>

text \<open>
  The offsets of the members of a C structure: each at the next multiple of its alignment, which on
  the ESP32 is its size for the integer types.
\<close>

fun member_offsets :: "nat \<Rightarrow> (nat \<times> nat) list \<Rightarrow> nat list" where
  "member_offsets at [] = []"
| "member_offsets at ((n, align) # ms) =
     (let o' = (at + align - 1) div align * align in o' # member_offsets (o' + n) ms)"

text \<open>Size and alignment of the members of \<open>mesh_MeshMessage\<close>, in the order of the declaration.\<close>

definition mesh_members :: "(nat \<times> nat) list" where
  "mesh_members = [(4, 4), (4, 4), (6, 1), (6, 1), (6, 1), (1, 1), (66, 2), (4, 4), (4, 4), (4, 4),
     (4, 4), (1, 1), (34, 2)]"

definition mesh_offset :: "nat \<Rightarrow> u32" where
  "mesh_offset i = of_nat (member_offsets 0 mesh_members ! i)"

definition static_member :: "pb_rule \<Rightarrow> pb_proto_type \<Rightarrow> u32 \<Rightarrow> nat \<Rightarrow> u32 \<Rightarrow> pb_member" where
  "static_member r t tag i delta = \<lparr>m_atype = A_STATIC, m_rule = r, m_type = t, m_tag = tag,
     m_offset = mesh_offset i, m_size = of_nat (fst (mesh_members ! i)), m_size0 = 1, m_size00 = 1,
     m_delta = delta, m_submsg = 0\<rparr>"

definition mesh_MeshMessage_FIELDLIST :: "pb_member list" where
  "mesh_MeshMessage_FIELDLIST = [
     static_member R_SINGULAR T_UINT32 1 0 0,
     static_member R_SINGULAR T_SINT32 2 1 0,
     static_member R_SINGULAR T_FIXED_LENGTH_BYTES 3 2 0,
     static_member R_SINGULAR T_FIXED_LENGTH_BYTES 4 3 0,
     static_member R_SINGULAR T_FIXED_LENGTH_BYTES 5 4 0,
     static_member R_OPTIONAL T_BYTES 6 6 (mesh_offset 6 - mesh_offset 5),
     static_member R_SINGULAR T_UINT32 7 7 0,
     static_member R_SINGULAR T_UINT32 8 8 0,
     static_member R_SINGULAR T_UINT32 9 9 0,
     static_member R_SINGULAR T_UINT32 10 10 0,
     static_member R_OPTIONAL T_BYTES 11 12 (mesh_offset 12 - mesh_offset 11)]"

definition mesh_MeshMessage_msg :: pb_msgdesc where
  "mesh_MeshMessage_msg = PB_BIND W_AUTO mesh_MeshMessage_FIELDLIST"

end
