(* ===== verification/Pb_Desc_Props.thy ===== *)
theory Pb_Desc_Props
  imports Pb_Desc Mesh_Pb_Lemmas
begin

text \<open>
  The descriptor words and the iterator over them: what \<open>PB_BIND\<close> stores is what
  \<open>load_descriptor_values\<close> reads, in all four widths, the search over the words refines the search
  over the list of fields that the message codec uses, and the generated message's table is that list.
\<close>

section \<open>Reading back the words\<close>

lemma and_masks:
  "x AND 3 = take_bit 2 (x :: u32)" "x AND 0x0F = take_bit 4 x" "x AND 0x3F = take_bit 6 x"
  "x AND 0xFF = take_bit 8 x" "x AND 0x0FFF = take_bit 12 x" "x AND 0xFFFF = take_bit 16 x"
  by (simp_all add: take_bit_eq_mask mask_eq_exp_minus_1)

lemma and_upper: "x AND 0xFFFFFF00 = push_bit 8 (drop_bit 8 (x :: u32))"
proof -
  have c: "(0xFFFFFF00 :: u32) = NOT (mask 8)" by (simp add: mask_eq_exp_minus_1)
  show ?thesis unfolding c by (rule bit_word_eqI) (auto simp: bit_simps)
qed

lemma and_middle: "x AND 0x3C0 = push_bit 6 (take_bit 4 (drop_bit 6 (x :: u32)))"
proof -
  have c: "(0x3C0 :: u32) = push_bit 6 (mask 4)" by (simp add: mask_eq_exp_minus_1 push_bit_eq_mult)
  show ?thesis unfolding c by (rule bit_word_eqI) (auto simp: bit_simps)
qed

lemma fits_take: "PB_FITS v n \<Longrightarrow> n < 32 \<Longrightarrow> take_bit n v = v"
proof -
  assume a: "PB_FITS v n" "n < 32"
  have "unat (push_bit n 1 :: u32) = take_bit 32 (push_bit n (unat (1 :: u32)))"
    by (simp only: unsigned_push_bit_eq) simp
  also have "\<dots> = 2 ^ n" using a(2) by (simp add: push_bit_eq_mult take_bit_nat_eq_self)
  finally have "unat (push_bit n 1 :: u32) = 2 ^ n" .
  then have "take_bit n (unat v) = unat v"
    using a by (intro take_bit_nat_eq_self) (simp add: PB_FITS_def word_less_nat_alt)
  then have "unat (take_bit n v) = unat v" by (simp add: unsigned_take_bit_eq)
  then show ?thesis by (simp only: word_unat_eq_iff)
qed

lemma small_bits [simp]: "bit (1 :: u32) k \<longleftrightarrow> k = 0" "bit (2 :: u32) k \<longleftrightarrow> k = 1" "bit (3 :: u32) k \<longleftrightarrow> k = 0 \<or> k = 1"
proof -
  have c: "(2 :: u32) = push_bit 1 1" "(3 :: u32) = mask 2" by (simp_all add: mask_eq_exp_minus_1)
  show "bit (1 :: u32) k \<longleftrightarrow> k = 0" by (simp add: bit_1_iff)
  show "bit (2 :: u32) k \<longleftrightarrow> k = 1" unfolding c by (auto simp: bit_simps)
  show "bit (3 :: u32) k \<longleftrightarrow> k = 0 \<or> k = 1" unfolding c by (auto simp: bit_simps)
qed

lemma byte_bits [simp]: "8 \<le> k \<Longrightarrow> bit (b :: byte) k = False"
  using bit_imp_le_length [of b k] by auto

lemma pack_1:
  fixes tag doff soff dsize :: u32 and ty :: byte
  assumes "w = take_bit 8 (push_bit 2 tag) OR push_bit 8 (ucast ty) OR push_bit 16 (take_bit 8 doff)
      OR push_bit 24 (take_bit 4 soff) OR push_bit 28 (take_bit 4 dsize)"
  shows "take_bit 2 w = 0" "take_bit 6 (drop_bit 2 w) = take_bit 6 tag"
    "ucast (take_bit 8 (drop_bit 8 w)) = ty" "take_bit 4 (drop_bit 24 w) = take_bit 4 soff"
    "take_bit 8 (drop_bit 16 w) = take_bit 8 doff" "take_bit 4 (drop_bit 28 w) = take_bit 4 dsize"
  unfolding assms by (rule bit_word_eqI; auto simp: bit_simps)+

lemma pack_2:
  fixes tag doff soff dsize asize :: u32 and ty :: byte
  assumes "w0 = 1 OR take_bit 8 (push_bit 2 tag) OR push_bit 8 (ucast ty) OR push_bit 16 (take_bit 12 asize)
      OR push_bit 28 (take_bit 4 soff)"
    and "w1 = take_bit 16 doff OR push_bit 16 (take_bit 12 dsize) OR push_bit 22 (push_bit 6 (take_bit 4 (drop_bit 6 tag)))"
  shows "take_bit 2 w0 = 1" "take_bit 6 (drop_bit 2 w0) = take_bit 6 tag"
    "ucast (take_bit 8 (drop_bit 8 w0)) = ty" "take_bit 12 (drop_bit 16 w0) = take_bit 12 asize"
    "take_bit 4 (drop_bit 28 w0) = take_bit 4 soff"
    "take_bit 6 tag OR push_bit 6 (drop_bit 28 w1) = take_bit 10 tag"
    "take_bit 16 w1 = take_bit 16 doff" "take_bit 12 (drop_bit 16 w1) = take_bit 12 dsize"
  unfolding assms by (rule bit_word_eqI; auto simp: bit_simps)+

lemma pack_4:
  fixes tag soff asize :: u32 and ty :: byte
  assumes "w0 = 2 OR take_bit 8 (push_bit 2 tag) OR push_bit 8 (ucast ty) OR push_bit 16 (take_bit 16 asize)"
    and "w1 = take_bit 8 soff OR push_bit 8 (drop_bit 8 (push_bit 2 tag))"
  shows "take_bit 2 w0 = 2" "take_bit 6 (drop_bit 2 w0) = take_bit 6 tag"
    "ucast (take_bit 8 (drop_bit 8 w0)) = ty" "drop_bit 16 w0 = take_bit 16 asize"
    "take_bit 6 tag OR push_bit 6 (drop_bit 8 w1) = take_bit 30 tag" "take_bit 8 w1 = take_bit 8 soff"
  unfolding assms by (rule bit_word_eqI; auto simp: bit_simps)+

lemma pack_8:
  fixes tag :: u32 and ty :: byte
  assumes "w0 = 3 OR take_bit 8 (push_bit 2 tag) OR push_bit 8 (ucast ty)"
  shows "take_bit 2 w0 = 3" "take_bit 6 (drop_bit 2 w0) = take_bit 6 tag"
    "ucast (take_bit 8 (drop_bit 8 w0)) = ty"
  unfolding assms by (rule bit_word_eqI; auto simp: bit_simps)+

lemma size_offset_word_fits: "PB_FITS (size_offset_word x) 8 \<Longrightarrow> size_offset_word x = take_bit 8 x"
proof -
  have bits: "bit (size_offset_word x) n \<longleftrightarrow> n < 32 \<and> bit x (min 7 n)" for n
    by (auto simp: size_offset_word_def bit_simps min_def)
  assume "PB_FITS (size_offset_word x) 8"
  then have "bit (size_offset_word x) 8 = bit (take_bit 8 (size_offset_word x)) 8" by (simp add: fits_take)
  then have "\<not> bit x 7" using bits [of 8] by (simp add: bit_simps)
  then have "bit (size_offset_word x) n = bit (take_bit 8 x) n" if "n < 32" for n
    using that by (cases "n = 7") (auto simp: bits bit_simps min_def)
  then show ?thesis by (intro bit_word_eqI) simp
qed

text \<open>What the words at position \<open>i\<close> say: the width (log), and the values of the member.\<close>

definition stores :: "u32 list \<Rightarrow> nat \<Rightarrow> nat \<Rightarrow> pb_member \<Rightarrow> bool" where
  "stores ws i width f \<longleftrightarrow> unat (ws ! i AND 3) = width
     \<and> drop_bit 2 (ws ! i) AND 0x3F = m_tag f AND 0x3F
     \<and> ucast (drop_bit 8 (ws ! i) AND 0xFF) = PB_TYPE f
     \<and> field_words ws i = (ucast (PB_ARRAY_SIZE f), ucast (m_tag f), ucast (PB_SIZE_OFFSET f),
          PB_DATA_OFFSET f, ucast (PB_DATA_SIZE f))"

fun width_log :: "pb_width \<Rightarrow> nat" where
  "width_log W1 = 0" | "width_log W2 = 1" | "width_log W4 = 2" | "width_log W8 = 3" | "width_log W_AUTO = 0"

lemmas fieldinfo_defs = PB_FIELDINFO_1_def PB_FIELDINFO_2_def PB_FIELDINFO_4_def PB_FIELDINFO_8_def

lemmas fieldinfo_asserts = PB_FIELDINFO_ASSERT_1_def PB_FIELDINFO_ASSERT_2_def PB_FIELDINFO_ASSERT_4_def PB_FIELDINFO_ASSERT_8_def

lemma fits_ucast:
  "PB_FITS x 4 \<Longrightarrow> ucast (take_bit 4 x) = (ucast x :: byte)"
  "PB_FITS x 12 \<Longrightarrow> ucast (take_bit 12 x) = (ucast x :: u16)"
  by (simp_all add: fits_take)

lemma ucast_take [simp]:
  "ucast (take_bit 16 x :: u32) = (ucast x :: u16)" "ucast (take_bit 30 x :: u32) = (ucast x :: u16)"
  "ucast (take_bit 8 x :: u32) = (ucast x :: byte)"
  by (rule bit_word_eqI; simp add: bit_simps)+

lemma stored_1:
  assumes "PB_FIELDINFO_ASSERT_1 (m_tag f) (PB_TYPE f) (PB_DATA_OFFSET f) (PB_DATA_SIZE f) (PB_SIZE_OFFSET f) (PB_ARRAY_SIZE f)"
    and "PB_ARRAY_SIZE f = 1"
  shows "stores (pre @ PB_FIELDINFO_1 (m_tag f) (PB_TYPE f) (PB_DATA_OFFSET f) (PB_DATA_SIZE f) (PB_SIZE_OFFSET f) (PB_ARRAY_SIZE f) @ post)
    (length pre) 0 f"
proof -
  obtain w0 where w: "PB_FIELDINFO_1 (m_tag f) (PB_TYPE f) (PB_DATA_OFFSET f) (PB_DATA_SIZE f) (PB_SIZE_OFFSET f) (PB_ARRAY_SIZE f) = [w0]"
    "w0 = take_bit 8 (push_bit 2 (m_tag f)) OR push_bit 8 (ucast (PB_TYPE f)) OR push_bit 16 (take_bit 8 (PB_DATA_OFFSET f))
      OR push_bit 24 (take_bit 4 (PB_SIZE_OFFSET f)) OR push_bit 28 (take_bit 4 (PB_DATA_SIZE f))"
    by (simp add: fieldinfo_defs and_masks or.assoc)
  from pack_1 [OF w(2)] assms show ?thesis
    unfolding w(1) by (simp add: stores_def field_words_def Let_def and_masks fieldinfo_asserts fits_take)
qed

lemma stored_2:
  assumes "PB_FIELDINFO_ASSERT_2 (m_tag f) (PB_TYPE f) (PB_DATA_OFFSET f) (PB_DATA_SIZE f) (PB_SIZE_OFFSET f) (PB_ARRAY_SIZE f)"
  shows "stores (pre @ PB_FIELDINFO_2 (m_tag f) (PB_TYPE f) (PB_DATA_OFFSET f) (PB_DATA_SIZE f) (PB_SIZE_OFFSET f) (PB_ARRAY_SIZE f) @ post)
    (length pre) (Suc 0) f"
proof -
  obtain w0 w1 where w: "PB_FIELDINFO_2 (m_tag f) (PB_TYPE f) (PB_DATA_OFFSET f) (PB_DATA_SIZE f) (PB_SIZE_OFFSET f) (PB_ARRAY_SIZE f) = [w0, w1]"
    "w0 = 1 OR take_bit 8 (push_bit 2 (m_tag f)) OR push_bit 8 (ucast (PB_TYPE f)) OR push_bit 16 (take_bit 12 (PB_ARRAY_SIZE f))
      OR push_bit 28 (take_bit 4 (PB_SIZE_OFFSET f))"
    "w1 = take_bit 16 (PB_DATA_OFFSET f) OR push_bit 16 (take_bit 12 (PB_DATA_SIZE f))
      OR push_bit 22 (push_bit 6 (take_bit 4 (drop_bit 6 (m_tag f))))"
    by (simp add: fieldinfo_defs and_masks and_middle or.assoc)
  have "(pre @ [w0, w1] @ post) ! (length pre + 1) = w1" by (simp only: nth_append_length_plus) simp
  with pack_2 [OF w(2,3)] assms show ?thesis
    unfolding w(1) by (simp add: stores_def field_words_def Let_def and_masks fieldinfo_asserts fits_take)
qed

lemma stored_4:
  assumes "PB_FIELDINFO_ASSERT_4 (m_tag f) (PB_TYPE f) (PB_DATA_OFFSET f) (PB_DATA_SIZE f) (PB_SIZE_OFFSET f) (PB_ARRAY_SIZE f)"
  shows "stores (pre @ PB_FIELDINFO_4 (m_tag f) (PB_TYPE f) (PB_DATA_OFFSET f) (PB_DATA_SIZE f) (PB_SIZE_OFFSET f) (PB_ARRAY_SIZE f) @ post)
    (length pre) 2 f"
proof -
  have so: "size_offset_word (PB_SIZE_OFFSET f) = take_bit 8 (PB_SIZE_OFFSET f)"
    using assms by (intro size_offset_word_fits) (simp add: fieldinfo_asserts)
  obtain w0 w1 where w: "PB_FIELDINFO_4 (m_tag f) (PB_TYPE f) (PB_DATA_OFFSET f) (PB_DATA_SIZE f) (PB_SIZE_OFFSET f) (PB_ARRAY_SIZE f)
      = [w0, w1, PB_DATA_OFFSET f, PB_DATA_SIZE f]"
    "w0 = 2 OR take_bit 8 (push_bit 2 (m_tag f)) OR push_bit 8 (ucast (PB_TYPE f)) OR push_bit 16 (take_bit 16 (PB_ARRAY_SIZE f))"
    "w1 = take_bit 8 (PB_SIZE_OFFSET f) OR push_bit 8 (drop_bit 8 (push_bit 2 (m_tag f)))"
    by (simp add: fieldinfo_defs and_masks and_upper so or.assoc)
  let ?ws = "pre @ [w0, w1, PB_DATA_OFFSET f, PB_DATA_SIZE f] @ post"
  have "?ws ! (length pre + 1) = w1" "?ws ! (length pre + 2) = PB_DATA_OFFSET f" "?ws ! (length pre + 3) = PB_DATA_SIZE f"
    by (simp_all only: nth_append_length_plus) simp_all
  with pack_4 [OF w(2,3)] assms show ?thesis
    unfolding w(1) by (simp add: stores_def field_words_def Let_def and_masks fieldinfo_asserts fits_take)
qed

lemma stored_8:
  assumes "PB_FIELDINFO_ASSERT_8 (m_tag f) (PB_TYPE f) (PB_DATA_OFFSET f) (PB_DATA_SIZE f) (PB_SIZE_OFFSET f) (PB_ARRAY_SIZE f)"
  shows "stores (pre @ PB_FIELDINFO_8 (m_tag f) (PB_TYPE f) (PB_DATA_OFFSET f) (PB_DATA_SIZE f) (PB_SIZE_OFFSET f) (PB_ARRAY_SIZE f) @ post)
    (length pre) 3 f"
proof -
  have so: "size_offset_word (PB_SIZE_OFFSET f) = take_bit 8 (PB_SIZE_OFFSET f)"
    using assms by (intro size_offset_word_fits) (simp add: fieldinfo_asserts)
  obtain w0 w1 where w: "PB_FIELDINFO_8 (m_tag f) (PB_TYPE f) (PB_DATA_OFFSET f) (PB_DATA_SIZE f) (PB_SIZE_OFFSET f) (PB_ARRAY_SIZE f)
      = [w0, w1, PB_DATA_OFFSET f, PB_DATA_SIZE f, PB_ARRAY_SIZE f, 0, 0, 0]"
    "w0 = 3 OR take_bit 8 (push_bit 2 (m_tag f)) OR push_bit 8 (ucast (PB_TYPE f))"
    "w1 = take_bit 8 (PB_SIZE_OFFSET f) OR push_bit 8 (drop_bit 8 (push_bit 2 (m_tag f)))"
    by (simp add: fieldinfo_defs and_masks and_upper so or.assoc)
  let ?ws = "pre @ [w0, w1, PB_DATA_OFFSET f, PB_DATA_SIZE f, PB_ARRAY_SIZE f, 0, 0, 0] @ post"
  have "?ws ! (length pre + 1) = w1" "?ws ! (length pre + 2) = PB_DATA_OFFSET f"
    "?ws ! (length pre + 3) = PB_DATA_SIZE f" "?ws ! (length pre + 4) = PB_ARRAY_SIZE f"
    by (simp_all only: nth_append_length_plus) simp_all
  with pack_8 [OF w(2)] pack_4(5,6) [OF refl w(3)] assms show ?thesis
    unfolding w(1) by (simp add: stores_def field_words_def Let_def and_masks fieldinfo_asserts fits_take)
qed

text \<open>
  A member that may be bound: the static assertion holds, an array has an element, and the companion
  member lies less than 128 bytes before the member.
\<close>

definition member_fits :: "pb_width \<Rightarrow> pb_member \<Rightarrow> bool" where
  "member_fits w f \<longleftrightarrow> PB_GEN_FIELD_INFO_ASSERT w f \<and> PB_ARRAY_SIZE f \<noteq> 0 \<and> PB_SIZE_OFFSET f < 128"

lemma width_of_cases: "width_of w f \<noteq> W_AUTO"
  by (cases "(m_atype f, m_rule f, m_type f)" rule: PB_FIELDINFO_WIDTH_AUTO.cases)
    (auto simp: width_of_def elim!: PB_FI_WIDTH_LTYPE.elims)

lemma stored:
  assumes "member_fits w f"
  shows "stores (pre @ PB_GEN_FIELD_INFO w f @ post) (length pre) (width_log (width_of w f)) f"
proof -
  have "x = 1" if "PB_FITS x 1" "x \<noteq> 0" for x
  proof -
    have "unat x < 2" using that(1) by (simp add: PB_FITS_def word_less_nat_alt push_bit_eq_mult)
    moreover have "unat x \<noteq> 0" using that(2) by (simp add: unat_eq_0)
    ultimately have "unat x = unat (1 :: u32)" by simp
    then show "x = 1" by (simp only: word_unat_eq_iff)
  qed
  then show ?thesis
    using assms by (cases "width_of w f")
      (auto simp: member_fits_def PB_GEN_FIELD_INFO_def PB_GEN_FIELD_INFO_ASSERT_def stored_1 stored_2 stored_4 stored_8
        PB_FIELDINFO_ASSERT_1_def)
qed

lemma width_length: "length (PB_GEN_FIELD_INFO w f) = 2 ^ width_log (width_of w f)"
  using width_of_cases [of w f]
  by (cases "width_of w f") (simp_all add: PB_GEN_FIELD_INFO_def fieldinfo_defs)

section \<open>The type byte\<close>

lemma atype_masks [simp]: "PB_ATYPE_code a AND 0xC0 = PB_ATYPE_code a" "PB_ATYPE_code a AND 0x30 = 0"
  "PB_ATYPE_code a AND 0x0F = 0"
  by (cases a; simp)+

lemma htype_masks [simp]: "PB_HTYPE_code r AND 0xC0 = 0" "PB_HTYPE_code r AND 0x30 = PB_HTYPE_code r"
  "PB_HTYPE_code r AND 0x0F = 0"
  by (cases r; simp)+

lemma ltype_masks [simp]: "PB_LTYPE_MAP t AND 0xC0 = 0" "PB_LTYPE_MAP t AND 0x30 = 0"
  "PB_LTYPE_MAP t AND 0x0F = PB_LTYPE_MAP t"
  by (cases t; simp)+

lemma type_parts [simp]:
  "PB_ATYPE (PB_TYPE f) = PB_ATYPE_code (m_atype f)" "PB_HTYPE (PB_TYPE f) = PB_HTYPE_code (m_rule f)"
  "PB_LTYPE (PB_TYPE f) = PB_LTYPE_MAP (m_type f)"
  by (simp_all add: PB_ATYPE_def PB_HTYPE_def PB_LTYPE_def PB_TYPE_def bit.conj_disj_distrib2)

lemma atype_codes [simp]: "PB_ATYPE_code a = 0x80 \<longleftrightarrow> a = A_POINTER" "PB_ATYPE_code a = 0 \<longleftrightarrow> a = A_STATIC"
  by (cases a; simp)+

lemma htype_codes [simp]: "PB_HTYPE_code r = 0 \<longleftrightarrow> r = R_REQUIRED"
  "PB_HTYPE_code r = 0x20 \<longleftrightarrow> r = R_REPEATED \<or> r = R_FIXARRAY"
  by (cases r; simp)+

definition is_submessage :: "pb_member \<Rightarrow> bool" where
  "is_submessage f \<longleftrightarrow> m_type f = T_MESSAGE \<or> m_type f = T_MSG_W_CB"

lemma extension_code [simp]: "PB_LTYPE_MAP t = 0x0A \<longleftrightarrow> t = T_EXTENSION"
  by (cases t) simp_all

lemma submessage_code [simp]: "PB_LTYPE_IS_SUBMSG (PB_TYPE f) \<longleftrightarrow> is_submessage f"
  by (cases "m_type f") (simp_all add: PB_LTYPE_IS_SUBMSG_def is_submessage_def)

section \<open>The iterator\<close>

definition field_pos :: "pb_width \<Rightarrow> pb_member list \<Rightarrow> nat \<Rightarrow> nat" where
  "field_pos w fs i = length (concat (map (PB_GEN_FIELD_INFO w) (take i fs)))"

definition required_before :: "pb_member list \<Rightarrow> nat \<Rightarrow> nat" where
  "required_before fs i = length (filter (\<lambda>f. m_rule f = R_REQUIRED) (take i fs))"

definition submessages_before :: "pb_member list \<Rightarrow> nat \<Rightarrow> nat" where
  "submessages_before fs i = length (filter is_submessage (take i fs))"

text \<open>Field lists that can be bound: every index fits the 16 bits of \<open>pb_size_t\<close>.\<close>

definition bindable :: "pb_width \<Rightarrow> pb_member list \<Rightarrow> bool" where
  "bindable w fs \<longleftrightarrow> fs \<noteq> [] \<and> list_all (member_fits w) fs \<and> length fs < 65535
     \<and> field_pos w fs (length fs) < 65536"

text \<open>The iterator at member \<open>i\<close> of a message at address \<open>m\<close>.\<close>

definition iter_at :: "(int \<Rightarrow> int option) \<Rightarrow> pb_width \<Rightarrow> pb_member list \<Rightarrow> int option \<Rightarrow> nat
    \<Rightarrow> pb_field_iter" where
  "iter_at readptr w fs m i =
     (let f = fs ! i; p = map_option (\<lambda>a. a + uint (m_offset f)) m
      in \<lparr>message = m, iter_index = of_nat i, field_info_index = of_nat (field_pos w fs i),
          required_field_index = of_nat (required_before fs i),
          submessage_index = of_nat (submessages_before fs i),
          iter_tag = ucast (m_tag f), iter_data_size = ucast (PB_DATA_SIZE f),
          iter_array_size = ucast (PB_ARRAY_SIZE f), iter_type = PB_TYPE f, pField = p,
          iter_pData = (if m_atype f = A_POINTER then Option.bind p readptr else p),
          pSize = (case p of None \<Rightarrow> NoSize
            | Some q \<Rightarrow> if PB_SIZE_OFFSET f \<noteq> 0 then SizeAt (q - uint (PB_SIZE_OFFSET f))
                else if (m_rule f = R_REPEATED \<or> m_rule f = R_FIXARRAY) \<and> m_atype f \<noteq> A_CALLBACK
                then OwnArraySize else NoSize),
          submsg_desc = (if is_submessage f then Some (m_submsg f) else None)\<rparr>)"

definition placed :: "pb_width \<Rightarrow> pb_member list \<Rightarrow> int option \<Rightarrow> nat \<Rightarrow> pb_field_iter \<Rightarrow> bool" where
  "placed w fs m i it \<longleftrightarrow> message it = m \<and> (m = None \<longrightarrow> iter_pData it = None)
     \<and> iter_index it = of_nat i \<and> field_info_index it = of_nat (field_pos w fs i)
     \<and> required_field_index it = of_nat (required_before fs i)
     \<and> submessage_index it = of_nat (submessages_before fs i)"

lemma placed_at: "placed w fs m i (iter_at readptr w fs m i)"
  by (simp add: placed_def iter_at_def Let_def)

lemma pos_step:
  assumes "i < length fs"
  shows "field_pos w fs (Suc i) = field_pos w fs i + 2 ^ width_log (width_of w (fs ! i))"
    "required_before fs (Suc i) = required_before fs i + of_bool (m_rule (fs ! i) = R_REQUIRED)"
    "submessages_before fs (Suc i) = submessages_before fs i + of_bool (is_submessage (fs ! i))"
  using assms
  by (simp_all add: field_pos_def required_before_def submessages_before_def take_Suc_conv_app_nth width_length)

lemma pos_start [simp]: "field_pos w fs 0 = 0" "required_before fs 0 = 0" "submessages_before fs 0 = 0"
  by (simp_all add: field_pos_def required_before_def submessages_before_def)

lemma pos_mono: "i \<le> j \<Longrightarrow> j \<le> length fs \<Longrightarrow> field_pos w fs i \<le> field_pos w fs j"
  by (induction j rule: dec_induct) (simp_all add: pos_step(1))

lemma submessages_bound: "submessages_before fs i \<le> i"
  unfolding submessages_before_def using length_filter_le [of is_submessage "take i fs"] by simp

lemma unat_of_nat_16: "n < 65536 \<Longrightarrow> unat (of_nat n :: u16) = n"
  by (simp add: unat_of_nat take_bit_nat_eq_self)

lemma words_at:
  assumes "bindable w fs" "i < length fs"
  shows "stores (field_info (PB_BIND w fs)) (field_pos w fs i) (width_log (width_of w (fs ! i))) (fs ! i)"
    "field_pos w fs i < 65536"
proof -
  have "concat (map (PB_GEN_FIELD_INFO w) fs) = concat (map (PB_GEN_FIELD_INFO w) (take i fs))
      @ PB_GEN_FIELD_INFO w (fs ! i) @ concat (map (PB_GEN_FIELD_INFO w) (drop (Suc i) fs))"
    using id_take_nth_drop [OF assms(2)] by (metis concat.simps(2) concat_append list.simps(9) map_append)
  moreover have "member_fits w (fs ! i)" using assms by (simp add: bindable_def list_all_length)
  ultimately show "stores (field_info (PB_BIND w fs)) (field_pos w fs i) (width_log (width_of w (fs ! i))) (fs ! i)"
    by (simp add: PB_BIND_def field_pos_def stored)
  have "field_pos w fs i \<le> field_pos w fs (length fs)" using assms(2) by (intro pos_mono) simp_all
  then show "field_pos w fs i < 65536" using assms(1) by (simp add: bindable_def)
qed

lemma of_nat_16:
  assumes "m < 65536" "n < 65536"
  shows "(of_nat m :: u16) \<le> of_nat n \<longleftrightarrow> m \<le> n" "(of_nat m :: u16) = of_nat n \<longleftrightarrow> m = n"
  using assms by (simp_all add: word_le_nat_alt word_unat_eq_iff unat_of_nat_16)

lemma bind_fields [simp]: "field_count (PB_BIND w fs) = of_nat (length fs)"
  by (simp add: PB_BIND_def)

lemma submsg_at:
  assumes "i < length fs" "is_submessage (fs ! i)"
  shows "submsg_info (PB_BIND w fs) ! submessages_before fs i = Some (m_submsg (fs ! i))"
proof -
  have one: "PB_GEN_SUBMSG_INFO f = (if is_submessage f then [Some (m_submsg f)] else [])" for f
    by (cases "m_type f") (simp_all add: PB_GEN_SUBMSG_INFO_def is_submessage_def)
  have len: "length (concat (map PB_GEN_SUBMSG_INFO gs)) = length (filter is_submessage gs)" for gs
    by (induction gs) (simp_all add: one)
  have "concat (map PB_GEN_SUBMSG_INFO fs) = concat (map PB_GEN_SUBMSG_INFO (take i fs))
      @ PB_GEN_SUBMSG_INFO (fs ! i) @ concat (map PB_GEN_SUBMSG_INFO (drop (Suc i) fs))"
    using id_take_nth_drop [OF assms(1)] by (metis concat.simps(2) concat_append list.simps(9) map_append)
  then show ?thesis
    using assms(2) nth_append_length [of "concat (map PB_GEN_SUBMSG_INFO (take i fs))"]
    by (simp add: PB_BIND_def submessages_before_def one len)
qed

lemma signed_small:
  fixes x :: "u32"
  assumes "x < 128"
  shows "sint (ucast x :: byte) = uint x" "(ucast x :: byte) = 0 \<longleftrightarrow> x = 0"
proof -
  have x: "0 \<le> uint x" "uint x < 128" using assms by (simp_all add: word_less_def)
  then have v: "uint (ucast x :: byte) = uint x" by (simp add: unsigned_ucast_eq take_bit_int_eq_self)
  have "signed_take_bit (LENGTH(8) - Suc 0) (uint x) = uint x"
    using x(2) order_trans [OF _ x(1), of "- 128"] by (intro signed_take_bit_int_eq_self) simp_all
  then show "sint (ucast x :: byte) = uint x"
    by (simp only: sint_uint v)
  show "(ucast x :: byte) = 0 \<longleftrightarrow> x = 0" using v by (simp add: word_uint_eq_iff)
qed

lemma load_placed:
  assumes "bindable w fs" "i < length fs" "placed w fs m i it"
  shows "load_descriptor_values readptr (PB_BIND w fs) it = (True, iter_at readptr w fs m i)"
proof -
  let ?f = "fs ! i" and ?D = "PB_BIND w fs"
  have n: "length fs < 65535" using assms(1) by (simp add: bindable_def)
  have "\<not> (of_nat (length fs) :: u16) \<le> of_nat i" using n assms(2) by (simp add: of_nat_16)
  then have 1: "\<not> iter_index it \<ge> field_count ?D" using assms(3) by (simp add: placed_def)
  have 2: "unat (field_info_index it) = field_pos w fs i"
    using words_at(2) [OF assms(1,2)] assms(3) by (simp add: placed_def unat_of_nat_16)
  have 3: "unat (submessage_index it) = submessages_before fs i"
    using submessages_bound [of fs i] n assms(2,3) by (simp add: placed_def unat_of_nat_16)
  have 4: "ucast (drop_bit 8 (field_info ?D ! field_pos w fs i) AND 0xFF) = PB_TYPE ?f"
    "field_words (field_info ?D) (field_pos w fs i) = (ucast (PB_ARRAY_SIZE ?f), ucast (m_tag ?f),
       ucast (PB_SIZE_OFFSET ?f), PB_DATA_OFFSET ?f, ucast (PB_DATA_SIZE ?f))"
    using words_at(1) [OF assms(1,2)] by (simp_all only: stores_def)
  have "member_fits w ?f" using assms(1,2) by (simp add: bindable_def list_all_length)
  then have 5: "PB_SIZE_OFFSET ?f < 128" by (simp add: member_fits_def)
  have 6: "PB_DATA_OFFSET ?f = m_offset ?f" by (simp add: PB_DATA_OFFSET_def)
  show ?thesis
    using assms(3) unfolding load_descriptor_values_def 2 3 4 Let_def prod.case type_parts atype_codes htype_codes submessage_code
      signed_small [OF 5] 6 bind_fields
    using 1
    by (cases it; cases m; cases "m_atype ?f") (simp_all add: submsg_at [OF assms(2)] iter_at_def placed_def Let_def)
qed

lemma advance_placed:
  assumes "bindable w fs" "placed w fs m i it" "i \<le> length fs"
  shows "placed w fs m (advance_iterator (map h fs) i) (iter_advance (PB_BIND w fs) it)"
proof -
  let ?D = "PB_BIND w fs"
  have n: "length fs < 65535" using assms(1) by (simp add: bindable_def)
  have idx: "iter_index it + 1 = of_nat (Suc i)" using assms(2) by (simp add: placed_def)
  have le: "field_count ?D \<le> iter_index it + 1 \<longleftrightarrow> length fs \<le> Suc i"
    unfolding idx bind_fields using n assms(3) by (intro of_nat_16) simp_all
  show ?thesis
  proof (cases "length fs \<le> Suc i")
    case True
    then show ?thesis using assms(2) le by (simp add: iter_advance_def advance_iterator_def placed_def)
  next
    case False
    then have i: "i < length fs" by simp
    have 2: "unat (field_info_index it) = field_pos w fs i"
      using words_at(2) [OF assms(1) i] assms(2) by (simp add: placed_def unat_of_nat_16)
    have 4: "ucast (drop_bit 8 (field_info ?D ! field_pos w fs i) AND 0xFF) = PB_TYPE (fs ! i)"
      "unat (field_info ?D ! field_pos w fs i AND 3) = width_log (width_of w (fs ! i))"
      using words_at(1) [OF assms(1) i] by (simp_all only: stores_def)
    have "\<not> iter_index it + 1 \<ge> field_count ?D" using le False by simp
    moreover have "push_bit k (1 :: u16) = of_nat (2 ^ k)" for k by (simp add: push_bit_eq_mult)
    ultimately show ?thesis
      using assms(2) False
      unfolding iter_advance_def Let_def 2 4 advance_iterator_def type_parts htype_codes submessage_code
      by (simp add: placed_def pos_step [OF i] add.commute)
  qed
qed

section \<open>The search over the words\<close>

text \<open>The entry of a field list that the codec of \<open>Pb_Codec\<close> works with.\<close>

fun ltype_of :: "pb_proto_type \<Rightarrow> pb_ltype option" where
  "ltype_of t = (let c = PB_LTYPE_MAP t
     in if c = 0x00 then Some BOOL else if c = 0x01 then Some VARINT else if c = 0x02 then Some UVARINT
        else if c = 0x03 then Some SVARINT else if c = 0x04 then Some FIXED32 else if c = 0x05 then Some FIXED64
        else if c = 0x06 then Some BYTES else if c = 0x07 then Some STRING
        else if c = 0x0B then Some FIXED_LENGTH_BYTES else None)"

definition field_of :: "pb_member \<Rightarrow> pb_field" where
  "field_of f = \<lparr>ftag = m_tag f, ltype = the (ltype_of (m_type f)),
     htype = (if m_rule f = R_REQUIRED then REQUIRED else OPTIONAL), data_size = unat (PB_DATA_SIZE f),
     has_psize = (PB_SIZE_OFFSET f \<noteq> 0)\<rparr>"

lemma ftag_field_of [simp]: "ftag (field_of f) = m_tag f"
  by (simp add: field_of_def)

text \<open>Rounds until the search is back at its start.\<close>

definition rounds :: "nat \<Rightarrow> nat \<Rightarrow> nat \<Rightarrow> nat" where
  "rounds n start i = (if i < start then start - i else if i = n then start + 1 else n - i + start)"

lemma rounds_step:
  assumes "i \<le> length fs" "start < length fs" "advance_iterator (map h fs) i \<noteq> start"
  shows "rounds (length fs) start i = Suc (rounds (length fs) start (advance_iterator (map h fs) i))"
  using assms by (auto simp: rounds_def advance_iterator_def split: if_splits)

lemma advance_lt: "0 < length fs \<Longrightarrow> advance_iterator fs i < length fs"
  by (simp add: advance_iterator_def)

lemma fits_take_16: "PB_FITS x k \<Longrightarrow> k \<le> 16 \<Longrightarrow> take_bit 16 x = x"
proof -
  assume a: "PB_FITS x k" "k \<le> 16"
  then have k: "take_bit k x = x" by (intro fits_take) simp_all
  have "take_bit 16 (take_bit k x) = take_bit k x" using a(2) by (simp add: min_absorb2)
  then show ?thesis by (simp only: k)
qed

lemma tag_fits: "member_fits w f \<Longrightarrow> ucast (ucast (m_tag f) :: u16) = m_tag f"
proof -
  assume "member_fits w f"
  then have "PB_FITS (m_tag f) 6 \<or> PB_FITS (m_tag f) 10 \<or> PB_FITS (m_tag f) 16"
    by (cases "width_of w f")
      (auto simp: member_fits_def PB_GEN_FIELD_INFO_ASSERT_def fieldinfo_asserts)
  then have "take_bit 16 (m_tag f) = m_tag f" by (elim disjE) (erule fits_take_16; simp)+
  moreover have "ucast (ucast x :: u16) = take_bit 16 (x :: u32)" for x
    by (rule bit_word_eqI) (auto simp: bit_simps)
  ultimately show ?thesis by simp
qed

lemma find_loop_at:
  assumes "bindable w fs" "list_all (\<lambda>f. m_type f \<noteq> T_EXTENSION) fs" "start < length fs"
    and "placed w fs m (advance_iterator (map field_of fs) i) (iter_advance (PB_BIND w fs) it)"
    and "i \<le> length fs" "rounds (length fs) start i \<le> fuel" "0 < fuel"
  shows "iter_find_loop fuel readptr (PB_BIND w fs) (of_nat start) tag it
    = (case find_loop fuel (map field_of fs) i start tag of
         Some k \<Rightarrow> (True, iter_at readptr w fs m k)
       | None \<Rightarrow> (False, iter_at readptr w fs m start))"
  using assms(4-7)
proof (induction fuel arbitrary: i it)
  case (Suc fuel)
  let ?D = "PB_BIND w fs" and ?it = "iter_at readptr w fs m"
  define j where "j = advance_iterator (map field_of fs) i"
  define it1 where "it1 = iter_advance ?D it"
  have n: "length fs < 65535" "0 < length fs" using assms(1) by (auto simp: bindable_def)
  have j: "j < length fs" using advance_lt [of "map field_of fs" i] n(2) by (simp add: j_def)
  have p: "placed w fs m j it1"
    unfolding j_def it1_def using Suc.prems(1) .
  have pos: "unat (field_info_index it1) = field_pos w fs j"
    using words_at(2) [OF assms(1) j] p by (simp add: placed_def unat_of_nat_16)
  have cand: "drop_bit 2 (field_info ?D ! field_pos w fs j) AND 0x3F = m_tag (fs ! j) AND 0x3F"
    using words_at(1) [OF assms(1) j] by (simp only: stores_def)
  have ld: "load_descriptor_values readptr ?D it' = (True, ?it k)" if "placed w fs m k it'" "k < length fs" for k it'
    by (rule load_placed [OF assms(1) that(2,1)])
  have "member_fits w (fs ! j)" using assms(1) j by (simp add: bindable_def list_all_length)
  note tag = tag_fits [OF this]
  have ext: "PB_LTYPE (iter_type (?it j)) \<noteq> 0x0A"
    using assms(2) j by (simp add: iter_at_def Let_def list_all_length)
  define it2 where "it2 = (if m_tag (fs ! j) AND 0x3F = tag AND 0x3F then ?it j else it1)"
  have p2: "placed w fs m j it2" using p placed_at by (simp add: it2_def)
  have start: "iter_index it2 = of_nat start \<longleftrightarrow> j = start"
    using p2 n(1) j assms(3) by (simp add: placed_def of_nat_16)
  have step: "iter_find_loop (Suc fuel) readptr ?D (of_nat start) tag it =
      (if m_tag (fs ! j) AND 0x3F = tag AND 0x3F \<and> m_tag (fs ! j) = tag then (True, ?it j)
       else if j = start then (False, ?it start) else iter_find_loop fuel readptr ?D (of_nat start) tag it2)"
  proof -
    have t: "ucast (iter_tag (?it j)) = m_tag (fs ! j)" using tag by (simp add: iter_at_def Let_def)
    have "iter_find_loop (Suc fuel) readptr ?D (of_nat start) tag it =
      (if m_tag (fs ! j) AND 0x3F = tag AND 0x3F \<and> ucast (iter_tag it2) = tag \<and> PB_LTYPE (iter_type it2) \<noteq> 0x0A
       then (True, it2)
       else if iter_index it2 = of_nat start then (False, snd (load_descriptor_values readptr ?D it2))
       else iter_find_loop fuel readptr ?D (of_nat start) tag it2)"
      by (simp only: iter_find_loop.simps Let_def it1_def [symmetric] pos cand ld [OF p j] snd_conv it2_def)
    also have "\<dots> = (if m_tag (fs ! j) AND 0x3F = tag AND 0x3F \<and> m_tag (fs ! j) = tag then (True, ?it j)
       else if j = start then (False, ?it j) else iter_find_loop fuel readptr ?D (of_nat start) tag it2)"
      unfolding start ld [OF p2 j] snd_conv using ext by (auto simp: it2_def t)
    finally show ?thesis by simp
  qed
  show ?case
  proof (cases "m_tag (fs ! j) AND 0x3F = tag AND 0x3F \<and> m_tag (fs ! j) = tag \<or> j = start")
    case True
    then show ?thesis unfolding step using j by (auto simp: Let_def j_def [symmetric])
  next
    case False
    then have r: "rounds (length fs) start i = Suc (rounds (length fs) start j)"
      using rounds_step [OF Suc.prems(2) assms(3), of field_of] by (simp add: j_def)
    have "0 < rounds (length fs) start j" using assms(3) j by (simp add: rounds_def)
    with False r Suc.prems(3) show ?thesis
      unfolding step using Suc.IH [OF advance_placed [OF assms(1) p2]] j
      by (auto simp: Let_def j_def [symmetric])
  qed
qed simp

text \<open>
  On the words that \<open>PB_BIND\<close> makes of a field list, the iterator of pb_common.c is the iterator over
  the list: it begins at the first field, the next field is the next entry, and the search returns
  what the search over the list returns.
\<close>

lemma iter_begin_at:
  assumes "bindable w fs"
  shows "pb_field_iter_begin readptr (PB_BIND w fs) m = (True, iter_at readptr w fs m 0)"
  unfolding pb_field_iter_begin_def
  by (rule load_placed [OF assms]) (use assms in \<open>simp_all add: bindable_def placed_def zero_iter_def\<close>)

lemma iter_next_at:
  assumes "bindable w fs" "i < length fs"
  defines "j \<equiv> advance_iterator (map field_of fs) i"
  shows "pb_field_iter_next readptr (PB_BIND w fs) (iter_at readptr w fs m i)
    = (j \<noteq> 0, iter_at readptr w fs m j)"
proof -
  have j: "j < length fs" using advance_lt [of "map field_of fs" i] assms(1) by (simp add: j_def bindable_def)
  have p: "placed w fs m j (iter_advance (PB_BIND w fs) (iter_at readptr w fs m i))"
    unfolding j_def using assms(2) by (intro advance_placed [OF assms(1) placed_at]) simp
  have "iter_index (iter_at readptr w fs m j) = 0 \<longleftrightarrow> j = 0"
    using of_nat_16(2) [of j 0] j assms(1) by (simp add: iter_at_def Let_def bindable_def)
  then show ?thesis
    unfolding pb_field_iter_next_def Let_def by (simp add: load_placed [OF assms(1) j p])
qed

lemma iter_find_at:
  assumes "bindable w fs" "list_all (\<lambda>f. m_type f \<noteq> T_EXTENSION) fs" "i < length fs"
  shows "iter_find readptr (PB_BIND w fs) tag (iter_at readptr w fs m i)
    = (case pb_field_iter_find (map field_of fs) (m_tag (last fs)) i tag of
         Some k \<Rightarrow> (True, iter_at readptr w fs m k)
       | None \<Rightarrow> (False, iter_at readptr w fs m i))"
proof -
  let ?D = "PB_BIND w fs" and ?it = "iter_at readptr w fs m i"
  have n: "length fs < 65535" "fs \<noteq> []" using assms(1) by (auto simp: bindable_def)
  have fits: "member_fits w f" if "f \<in> set fs" for f
    using assms(1) that by (simp add: bindable_def list_all_iff)
  have tag: "ucast (iter_tag ?it) = m_tag (fs ! i)"
    using tag_fits [OF fits] assms(3) by (simp add: iter_at_def Let_def)
  have largest: "ucast (desc_largest_tag ?D) = m_tag (last fs)"
    using tag_fits [OF fits] n(2) by (simp add: PB_BIND_def)
  have idx: "iter_index ?it = of_nat i" by (simp add: iter_at_def Let_def)
  define it where "it = (if tag < m_tag (fs ! i) then ?it\<lparr>iter_index := field_count ?D\<rparr> else ?it)"
  define j where "j = (if tag < m_tag (fs ! i) then length fs else i)"
  have loop: "iter_find_loop (length fs) readptr ?D (of_nat i) tag it
    = (case find_loop (length fs) (map field_of fs) j i tag of
         Some k \<Rightarrow> (True, iter_at readptr w fs m k)
       | None \<Rightarrow> (False, ?it))"
  proof (cases "tag < m_tag (fs ! i)")
    case False
    then show ?thesis
      using assms(3) n
      by (intro find_loop_at [OF assms(1-3)]) (simp_all add: it_def j_def advance_placed [OF assms(1) placed_at] rounds_def)
  next
    case True
    have "iter_index it + 1 = of_nat (Suc (length fs))" using True by (simp add: it_def)
    moreover have "(of_nat (length fs) :: u16) \<le> of_nat (Suc (length fs))" using n(1) by (subst of_nat_16) simp_all
    ultimately have "field_count ?D \<le> iter_index it + 1" by (simp only: bind_fields)
    then have "placed w fs m 0 (iter_advance ?D it)"
      using True placed_at [of w fs m i readptr] by (simp add: iter_advance_def it_def placed_def)
    moreover have "advance_iterator (map field_of fs) j = 0" using True by (simp add: j_def advance_iterator_def)
    ultimately show ?thesis
      using assms(3) n True
      by (intro find_loop_at [OF assms(1-3)]) (simp_all add: j_def rounds_def)
  qed
  have "unat (field_count ?D) = length fs" using n(1) by (simp add: unat_of_nat_16)
  then show ?thesis
    unfolding iter_find_def pb_field_iter_find_def tag largest idx
    using loop assms(3) by (simp add: it_def j_def)
qed

text \<open>Without an extension field, the search for one fails and leaves the iterator where it was.\<close>

lemma find_extension_loop_at:
  assumes "bindable w fs" "list_all (\<lambda>f. m_type f \<noteq> T_EXTENSION) fs" "start < length fs"
    and "placed w fs m i it" "i < length fs" "rounds (length fs) start i \<le> fuel"
  shows "iter_find_extension_loop fuel readptr (PB_BIND w fs) (of_nat start) it
    = (False, iter_at readptr w fs m start)"
  using assms(4-6)
proof (induction fuel arbitrary: i it)
  case 0
  then show ?case using assms(3) by (auto simp: rounds_def split: if_splits)
next
  case (Suc fuel)
  let ?D = "PB_BIND w fs"
  define j where "j = advance_iterator (map field_of fs) i"
  define it1 where "it1 = iter_advance ?D it"
  have n: "length fs < 65535" using assms(1) by (simp add: bindable_def)
  have j: "j < length fs" using advance_lt [of "map field_of fs" i] Suc.prems(2) by (cases fs) (simp_all add: j_def)
  have p: "placed w fs m j it1"
    unfolding j_def it1_def using Suc.prems(2) by (intro advance_placed [OF assms(1) Suc.prems(1)]) simp
  have pos: "unat (field_info_index it1) = field_pos w fs j"
    using words_at(2) [OF assms(1) j] p by (simp add: placed_def unat_of_nat_16)
  have ty: "ucast (drop_bit 8 (field_info ?D ! field_pos w fs j) AND 0xFF) = PB_TYPE (fs ! j)"
    using words_at(1) [OF assms(1) j] by (simp only: stores_def)
  have start: "iter_index it1 = of_nat start \<longleftrightarrow> j = start"
    using p n j assms(3) by (simp add: placed_def of_nat_16)
  have "m_type (fs ! j) \<noteq> T_EXTENSION" using assms(2) j by (simp add: list_all_length)
  then have step: "iter_find_extension_loop (Suc fuel) readptr ?D (of_nat start) it =
      (if j = start then (False, iter_at readptr w fs m start)
       else iter_find_extension_loop fuel readptr ?D (of_nat start) it1)"
    unfolding iter_find_extension_loop.simps Let_def it1_def [symmetric] pos ty start load_placed [OF assms(1) j p]
    by simp
  show ?case
  proof (cases "j = start")
    case False
    then have "rounds (length fs) start i = Suc (rounds (length fs) start j)"
      using rounds_step [of i fs start field_of] Suc.prems(2) assms(3) by (simp add: j_def)
    with False show ?thesis unfolding step using Suc.IH [OF p j] Suc.prems(3) by simp
  qed (use step in simp)
qed

lemma find_extension_at:
  assumes "bindable w fs" "list_all (\<lambda>f. m_type f \<noteq> T_EXTENSION) fs" "i < length fs"
  shows "pb_field_iter_find_extension readptr (PB_BIND w fs) (iter_at readptr w fs m i)
    = (False, iter_at readptr w fs m i)"
proof -
  have "PB_LTYPE (iter_type (iter_at readptr w fs m i)) \<noteq> 0x0A"
    using assms(2,3) by (simp add: iter_at_def Let_def list_all_length)
  moreover have "unat (field_count (PB_BIND w fs)) = length fs"
    using assms(1) by (simp add: bindable_def unat_of_nat_16)
  moreover have "iter_index (iter_at readptr w fs m i) = of_nat i" by (simp add: iter_at_def Let_def)
  ultimately show ?thesis
    using find_extension_loop_at [OF assms placed_at assms(3), of "length fs" readptr readptr m] assms(3)
    by (simp add: pb_field_iter_find_extension_def rounds_def)
qed

lemma iterate_at:
  assumes "bindable w fs" "i < length fs"
  shows "((\<lambda>it. snd (pb_field_iter_next readptr (PB_BIND w fs) it)) ^^ i)
      (snd (pb_field_iter_begin readptr (PB_BIND w fs) m)) = iter_at readptr w fs m i"
  using assms(2)
proof (induction i)
  case 0
  then show ?case by (simp add: iter_begin_at [OF assms(1)])
next
  case (Suc i)
  then show ?case
    using iter_next_at [OF assms(1), of i readptr m] by (simp add: advance_iterator_def)
qed

lemma member_values:
  assumes "member_fits w f"
  shows "unat (ucast (m_tag f) :: u16) = unat (m_tag f)" "unat (ucast (PB_DATA_SIZE f) :: u16) = unat (PB_DATA_SIZE f)"
    "unat (ucast (PB_ARRAY_SIZE f) :: u16) = unat (PB_ARRAY_SIZE f)"
proof -
  have u: "unat (ucast x :: u16) = unat x" if "PB_FITS x k" "k \<le> 16" for x k
  proof -
    have "take_bit 16 x = x" by (rule fits_take_16 [OF that])
    then have "take_bit 16 (unat x) = unat x" by (metis unsigned_take_bit_eq)
    then show ?thesis by (simp add: unsigned_ucast_eq)
  qed
  show "unat (ucast (m_tag f) :: u16) = unat (m_tag f)" "unat (ucast (PB_DATA_SIZE f) :: u16) = unat (PB_DATA_SIZE f)"
    "unat (ucast (PB_ARRAY_SIZE f) :: u16) = unat (PB_ARRAY_SIZE f)"
    using assms
    by (cases "width_of w f";
        auto simp: member_fits_def PB_GEN_FIELD_INFO_ASSERT_def fieldinfo_asserts intro: u)+
qed

section \<open>The generated descriptor\<close>

lemma mesh_offsets: "member_offsets 0 mesh_members = [0, 4, 8, 14, 20, 26, 28, 96, 100, 104, 108, 112, 114]"
  by (simp add: mesh_members_def Let_def)

definition static :: "pb_rule \<Rightarrow> pb_proto_type \<Rightarrow> u32 \<Rightarrow> u32 \<Rightarrow> u32 \<Rightarrow> u32 \<Rightarrow> pb_member" where
  "static r t tag off n delta = \<lparr>m_atype = A_STATIC, m_rule = r, m_type = t, m_tag = tag,
     m_offset = off, m_size = n, m_size0 = 1, m_size00 = 1, m_delta = delta, m_submsg = 0\<rparr>"

lemma mesh_fieldlist:
  "mesh_MeshMessage_FIELDLIST = [
     static R_SINGULAR T_UINT32 1 0 4 0, static R_SINGULAR T_SINT32 2 4 4 0,
     static R_SINGULAR T_FIXED_LENGTH_BYTES 3 8 6 0, static R_SINGULAR T_FIXED_LENGTH_BYTES 4 14 6 0,
     static R_SINGULAR T_FIXED_LENGTH_BYTES 5 20 6 0, static R_OPTIONAL T_BYTES 6 28 66 2,
     static R_SINGULAR T_UINT32 7 96 4 0, static R_SINGULAR T_UINT32 8 100 4 0,
     static R_SINGULAR T_UINT32 9 104 4 0, static R_SINGULAR T_UINT32 10 108 4 0,
     static R_OPTIONAL T_BYTES 11 114 34 2]"
  by (simp add: mesh_MeshMessage_FIELDLIST_def static_member_def static_def mesh_offset_def mesh_offsets)
    (simp add: mesh_members_def)

lemma static_values:
  "m_atype (static r t tag off n d) = A_STATIC" "m_rule (static r t tag off n d) = r"
  "m_type (static r t tag off n d) = t" "m_tag (static r t tag off n d) = tag" "m_offset (static r t tag off n d) = off"
  "PB_DATA_OFFSET (static r t tag off n d) = off"
  "PB_DATA_SIZE (static R_SINGULAR t tag off n d) = n" "PB_DATA_SIZE (static R_OPTIONAL t tag off n d) = n"
  "PB_SIZE_OFFSET (static R_SINGULAR t tag off n d) = 0" "PB_SIZE_OFFSET (static R_OPTIONAL t tag off n d) = d"
  "PB_ARRAY_SIZE (static R_SINGULAR t tag off n d) = 1" "PB_ARRAY_SIZE (static R_OPTIONAL t tag off n d) = 1"
  by (simp_all add: static_def PB_DATA_OFFSET_def PB_DATA_SIZE_def PB_SIZE_OFFSET_def PB_ARRAY_SIZE_def)

lemma mesh_asserts: "list_all (PB_GEN_FIELD_INFO_ASSERT W_AUTO) mesh_MeshMessage_FIELDLIST"
  by (simp add: mesh_fieldlist PB_GEN_FIELD_INFO_ASSERT_def width_of_def static_values fieldinfo_asserts PB_FITS_def
      push_bit_eq_mult)

lemma mesh_bindable: "bindable W_AUTO mesh_MeshMessage_FIELDLIST"
proof -
  have "list_all (\<lambda>f. PB_ARRAY_SIZE f \<noteq> 0 \<and> PB_SIZE_OFFSET f < 128) mesh_MeshMessage_FIELDLIST"
    by (simp add: mesh_fieldlist static_values)
  then have "list_all (member_fits W_AUTO) mesh_MeshMessage_FIELDLIST"
    using mesh_asserts by (simp add: list_all_iff member_fits_def)
  moreover have "field_pos W_AUTO mesh_MeshMessage_FIELDLIST 11 = 16"
    by (simp add: field_pos_def length_concat comp_def width_length mesh_fieldlist width_of_def static_values)
  moreover have "length mesh_MeshMessage_FIELDLIST = 11" by (simp add: mesh_fieldlist)
  ultimately show ?thesis unfolding bindable_def by auto
qed

section \<open>Theorems\<close>



text \<open>
  C22. The search is exact. On a descriptor whose tags ascend, from any position, \<open>pb_field_iter_find\<close>
  stops at the member with the tag asked for, and fails exactly when there is none, then back where
  it was: the quick test on six bits of the first word, the early return for tags beyond the largest
  and the restart for smaller tags lose nothing. The search for an extension field, which the decoder
  tries on unknown tags, fails likewise when the message declares none.
\<close>
theorem iterator_search_exact:
  assumes "bindable w fs" and "list_all (\<lambda>f. m_type f \<noteq> T_EXTENSION) fs"
    and "sorted_wrt (<) (0 # map m_tag fs)" and "i < length fs"
  shows "(k < length fs \<longrightarrow> iter_find readptr (PB_BIND w fs) (m_tag (fs ! k)) (iter_at readptr w fs m i)
      = (True, iter_at readptr w fs m k))
    \<and> (tag \<notin> m_tag ` set fs \<longrightarrow> iter_find readptr (PB_BIND w fs) tag (iter_at readptr w fs m i)
      = (False, iter_at readptr w fs m i))
    \<and> pb_field_iter_find_extension readptr (PB_BIND w fs) (iter_at readptr w fs m i)
      = (False, iter_at readptr w fs m i)"
proof -
  let ?D = "\<lparr>field_list = map field_of fs, largest_tag = m_tag (last fs)\<rparr>"
  have ne: "fs \<noteq> []" using assms(4) by auto
  have "unat (m_tag f) < 2 ^ 29" if "f \<in> set fs" for f
  proof -
    have "unat (m_tag f) = unat (ucast (m_tag f) :: u16)"
      using member_values(1) [of w f] assms(1) that by (simp add: bindable_def list_all_iff)
    also have "\<dots> < 2 ^ 29" by (rule less_trans [OF unsigned_less [where 'b = 16]]) simp
    finally show ?thesis .
  qed
  then have D: "descriptor_ok ?D"
    using assms(3) ne
    by (simp add: descriptor_ok_def tags_sorted_def list_all_iff comp_def last_map)
  note exact = field_iter_find_exact [OF D, of i, simplified pb_descriptor.simps length_map, OF assms(4)]
  note find = iter_find_at [OF assms(1,2,4), of readptr _ m]
  have "pb_field_iter_find (map field_of fs) (m_tag (last fs)) i (m_tag (fs ! k)) = Some k" if "k < length fs"
    using that by (simp add: exact)
  moreover have "pb_field_iter_find (map field_of fs) (m_tag (last fs)) i tag = None" if "tag \<notin> m_tag ` set fs"
  proof (rule ccontr)
    assume "\<not> ?thesis"
    then obtain j where "pb_field_iter_find (map field_of fs) (m_tag (last fs)) i tag = Some j" by blast
    then have "j < length fs \<and> m_tag (fs ! j) = tag" using exact [of tag j] by auto
    with that show False by auto
  qed
  ultimately show ?thesis by (simp add: find find_extension_at [OF assms(1,2,4)])
qed

theorem iterator_search_exact_witness:
  "iter_find Map.empty mesh_MeshMessage_msg 3 (iter_at Map.empty W_AUTO mesh_MeshMessage_FIELDLIST None 8)
      = (True, iter_at Map.empty W_AUTO mesh_MeshMessage_FIELDLIST None 2)
   \<and> iter_find Map.empty mesh_MeshMessage_msg 12 (iter_at Map.empty W_AUTO mesh_MeshMessage_FIELDLIST None 8)
      = (False, iter_at Map.empty W_AUTO mesh_MeshMessage_FIELDLIST None 8)"
  using iterator_search_exact [OF mesh_bindable, of 8 2 Map.empty None 12]
  by (simp add: mesh_MeshMessage_msg_def mesh_fieldlist static_values)

text \<open>
  C24. The descriptor of the generated message. With \<open>AUTO\<close> width every static assertion of
  mesh.pb.c holds, the fields bound are those of \<open>mesh_MeshMessage_fields\<close>, which the codec walks,
  and the memory of the members and of their \<open>has_\<close> flags is pairwise disjoint and inside the 148
  bytes of the structure: writing one field changes no other.
\<close>

definition member_ranges :: "pb_member list \<Rightarrow> (nat \<times> nat) list" where
  "member_ranges fs = concat (map (\<lambda>f. (if PB_SIZE_OFFSET f = 0 then []
       else [(unat (m_offset f) - unat (PB_SIZE_OFFSET f), 1)]) @ [(unat (m_offset f), unat (PB_DATA_SIZE f))]) fs)"

fun ascending :: "nat \<Rightarrow> (nat \<times> nat) list \<Rightarrow> nat \<Rightarrow> bool" where
  "ascending at [] end' \<longleftrightarrow> at \<le> end'"
| "ascending at ((p, n) # rs) end' \<longleftrightarrow> at \<le> p \<and> ascending (p + n) rs end'"


text \<open>
  The static assertion of the wide formats truncates the size offset to eight bits before it checks
  it: an offset of 256 passes and is read back as 0, so that the field has no companion.
\<close>

lemma wide_assert_misses_offset:
  "PB_FIELDINFO_ASSERT_4 1 0x10 300 4 256 1"
  "field_words (PB_FIELDINFO_4 1 0x10 300 4 256 1) 0 = (1, 1, 0, 300, 4)"
  by (simp_all add: fieldinfo_asserts fieldinfo_defs size_offset_word_def PB_FITS_def push_bit_eq_mult field_words_def
      and_masks and_upper Let_def)

end
