(* ===== verification/Pb_Framing.thy ===== *)
theory Pb_Framing
  imports Pb_Round
begin

text \<open>
  Messages on a stream that carries more than one: the sizing pass, the flags of \<open>pb_encode_ex\<close> and
  \<open>pb_decode_ex\<close> (a length in front, or a zero byte behind), and substreams (pb_encode.c,
  pb_decode.c).
\<close>

section \<open>Encoding\<close>

definition PB_OSTREAM_SIZING :: pb_ostream where
  "PB_OSTREAM_SIZING = \<lparr>sizing = True, max_size = 0, written = []\<rparr>"

definition PB_ENCODE_DELIMITED :: u32 where "PB_ENCODE_DELIMITED = 0x02"
definition PB_ENCODE_NULLTERMINATED :: u32 where "PB_ENCODE_NULLTERMINATED = 0x04"

definition pb_get_encoded_size :: "pb_field list \<Rightarrow> pb_cell list \<Rightarrow> nat option" where
  "pb_get_encoded_size fds cs = map_option (\<lambda>s. length (written s)) (pb_encode fds cs PB_OSTREAM_SIZING)"

text \<open>
  The message is encoded twice, first for its size. The second pass goes to a substream that shares
  the buffer and holds no more than that size.
\<close>

definition pb_encode_submessage :: "pb_field list \<Rightarrow> pb_cell list \<Rightarrow> pb_ostream \<Rightarrow> pb_ostream option" where
  "pb_encode_submessage fds cs s =
     (case pb_encode fds cs PB_OSTREAM_SIZING of
        None \<Rightarrow> None
      | Some sub \<Rightarrow>
          let n = length (written sub)
          in case pb_encode_varint (of_nat n) s of
               None \<Rightarrow> None
             | Some s1 \<Rightarrow>
                 if sizing s1 then pb_write (written sub) s1
                 else if length (written s1) + n > max_size s1 then None
                 else case pb_encode fds cs \<lparr>sizing = False, max_size = n, written = []\<rparr> of
                        None \<Rightarrow> None
                      | Some sub' \<Rightarrow> if length (written sub') \<noteq> n then None
                                    else Some (s1\<lparr>written := written s1 @ written sub'\<rparr>))"

definition pb_encode_ex :: "pb_field list \<Rightarrow> pb_cell list \<Rightarrow> u32 \<Rightarrow> pb_ostream \<Rightarrow> pb_ostream option" where
  "pb_encode_ex fds cs flags s =
     (if flags AND PB_ENCODE_DELIMITED \<noteq> 0 then pb_encode_submessage fds cs s
      else if flags AND PB_ENCODE_NULLTERMINATED \<noteq> 0
      then Option.bind (pb_encode fds cs s) (pb_write [0])
      else pb_encode fds cs s)"

section \<open>Decoding\<close>

definition PB_DECODE_NOINIT :: u32 where "PB_DECODE_NOINIT = 0x01"
definition PB_DECODE_DELIMITED :: u32 where "PB_DECODE_DELIMITED = 0x02"
definition PB_DECODE_NULLTERMINATED :: u32 where "PB_DECODE_NULLTERMINATED = 0x04"

text \<open>The substream's bytes and what follows them in the parent.\<close>

definition pb_make_string_substream :: "byte list \<Rightarrow> (byte list \<times> byte list) option" where
  "pb_make_string_substream bs =
     (case pb_decode_varint32 bs of
        None \<Rightarrow> None
      | Some (n, rest) \<Rightarrow>
          if length rest < unat n then None else Some (take (unat n) rest, drop (unat n) rest))"

text \<open>Closing skips what is left of the substream, and the parent goes on behind it.\<close>

definition pb_close_string_substream :: "byte list \<Rightarrow> byte list \<Rightarrow> byte list option" where
  "pb_close_string_substream sub parent =
     (if sub \<noteq> [] then map_option (\<lambda>_. parent) (pb_read (length sub) sub) else Some parent)"

text \<open>The loop of \<open>pb_decode_inner\<close>, which a zero tag ends when the flag asks for it.\<close>

fun inner_loop :: "nat \<Rightarrow> pb_descriptor \<Rightarrow> bool \<Rightarrow> nat \<Rightarrow> pb_cell list \<Rightarrow> nat list \<Rightarrow> byte list
    \<Rightarrow> (pb_cell list \<times> nat list \<times> byte list) option" where
  "inner_loop fuel D nullterm i cs seen [] = Some (cs, seen, [])"
| "inner_loop 0 D nullterm i cs seen bs = None"
| "inner_loop (Suc fuel) D nullterm i cs seen bs =
     (case snd (pb_decode_tag bs) of
        Some (wt, tag, rest) \<Rightarrow>
          if tag = 0 \<and> nullterm then Some (cs, seen, rest)
          else (case decode_round D i cs seen bs of
                  None \<Rightarrow> None
                | Some (j, cs', seen', rest') \<Rightarrow> inner_loop fuel D nullterm j cs' seen' rest')
      | None \<Rightarrow> (if fst (pb_decode_tag bs) then Some (cs, seen, []) else None))"

definition pb_decode_inner :: "pb_descriptor \<Rightarrow> u32 \<Rightarrow> pb_cell list \<Rightarrow> byte list
    \<Rightarrow> (pb_cell list \<times> byte list) option" where
  "pb_decode_inner D flags cs bs =
     (let cs0 = (if flags AND PB_DECODE_NOINIT = 0 then pb_message_set_to_defaults (field_list D) cs else cs)
      in case inner_loop (length bs) D (flags AND PB_DECODE_NULLTERMINATED \<noteq> 0) 0 cs0 [] bs of
           None \<Rightarrow> None
         | Some (cs', seen, rest) \<Rightarrow> if required_seen (field_list D) seen then Some (cs', rest) else None)"

definition pb_decode_ex :: "pb_descriptor \<Rightarrow> u32 \<Rightarrow> pb_cell list \<Rightarrow> byte list
    \<Rightarrow> (pb_cell list \<times> byte list) option" where
  "pb_decode_ex D flags cs bs =
     (if flags AND PB_DECODE_DELIMITED = 0 then pb_decode_inner D flags cs bs
      else case pb_make_string_substream bs of
             None \<Rightarrow> None
           | Some (sub, parent) \<Rightarrow>
               (case pb_decode_inner D flags cs sub of
                  None \<Rightarrow> None
                | Some (cs', sub') \<Rightarrow> map_option (Pair cs') (pb_close_string_substream sub' parent)))"

section \<open>What follows a message does not change how it is read\<close>

lemma read_ext: "pb_read n bs = Some (x, rest) \<Longrightarrow> pb_read n (bs @ t) = Some (x, rest @ t)"
  by (auto simp: pb_read_def split: if_splits)

lemma varint_ext: "varint_loop p r bs = Some (v, rest) \<Longrightarrow> varint_loop p r (bs @ t) = Some (v, rest @ t)"
  by (induction p r bs rule: varint_loop.induct) (auto simp: Let_def split: if_splits)

lemma varint32_loop_ext: "varint32_loop p r bs = Some (v, rest) \<Longrightarrow> varint32_loop p r (bs @ t) = Some (v, rest @ t)"
proof (induction bs arbitrary: p r)
  case (Cons b bs)
  then show ?case by (auto simp: Let_def split: option.splits if_splits dest!: Cons.IH)
qed simp

lemma varint32_ext: "pb_decode_varint32 bs = Some (v, rest) \<Longrightarrow> pb_decode_varint32 (bs @ t) = Some (v, rest @ t)"
  by (cases bs) (auto simp: pb_decode_varint32_def pb_decode_varint32_eof_def pb_readbyte_def varint32_loop_ext split: if_splits)

lemma tag_ext:
  "snd (pb_decode_tag bs) = Some (wt, tag, rest) \<Longrightarrow> snd (pb_decode_tag (bs @ t)) = Some (wt, tag, rest @ t)"
  by (auto simp: pb_decode_tag_def case_prod_beta pb_decode_varint32_def [symmetric] dest: varint32_ext [of _ _ _ t])

lemma skip_ext: "pb_skip_field wt bs = Some rest \<Longrightarrow> pb_skip_field wt (bs @ t) = Some (rest @ t)"
proof -
  have v: "pb_skip_varint bs = Some rest \<Longrightarrow> pb_skip_varint (bs @ t) = Some (rest @ t)" for bs rest
    by (induction bs) (auto split: if_splits)
  have r: "map_option snd (pb_read n bs) = Some rest \<Longrightarrow> map_option snd (pb_read n (bs @ t)) = Some (rest @ t)"
    for n bs rest by (auto simp: read_ext)
  have s: "pb_skip_string bs = Some rest \<Longrightarrow> pb_skip_string (bs @ t) = Some (rest @ t)"
    by (cases "pb_decode_varint32 bs") (auto simp: pb_skip_string_def varint32_ext read_ext)
  show "pb_skip_field wt bs = Some rest \<Longrightarrow> ?thesis"
    using v r s by (simp add: pb_skip_field_def split: if_splits)
qed

lemma u64_ext: "pb_decode_varint bs = Some (v, rest) \<Longrightarrow> pb_decode_varint (bs @ t) = Some (v, rest @ t)"
  by (simp add: pb_decode_varint_def varint_ext)

lemma s64_ext: "pb_decode_svarint bs = Some (v, rest) \<Longrightarrow> pb_decode_svarint (bs @ t) = Some (v, rest @ t)"
  by (auto simp: pb_decode_svarint_def u64_ext)

text \<open>A result of the 32-bit varint that opens most values, with and without what follows.\<close>

lemma varint32_cases:
  obtains "pb_decode_varint32 bs = None"
  | v r where "pb_decode_varint32 bs = Some (v, r)" "pb_decode_varint32 (bs @ t) = Some (v, r @ t)"
proof (cases "pb_decode_varint32 bs")
  case (Some p)
  then have "pb_decode_varint32 bs = Some (fst p, snd p)" by simp
  from that(2) [OF this varint32_ext [OF this]] show thesis .
qed (rule that(1))

lemma dec_bool_ext: "pb_dec_bool bs mem = Some (m, rest) \<Longrightarrow> pb_dec_bool (bs @ t) mem = Some (m, rest @ t)"
  by (rule varint32_cases [where bs = bs and t = t]) (auto simp: pb_dec_bool_def pb_decode_bool_def)

lemma dec_varint_ext: "pb_dec_varint fd bs mem = Some (m, rest) \<Longrightarrow> pb_dec_varint fd (bs @ t) mem = Some (m, rest @ t)"
  by (auto simp: pb_dec_varint_def Let_def u64_ext s64_ext bind_eq_Some_conv split: if_splits)

lemma dec_fixed_ext: "pb_dec_fixed n bs mem = Some (m, rest) \<Longrightarrow> pb_dec_fixed n (bs @ t) mem = Some (m, rest @ t)"
  by (auto simp: pb_dec_fixed_def read_ext)

lemma dec_bytes_ext: "pb_dec_bytes fd bs mem = Some (m, rest) \<Longrightarrow> pb_dec_bytes fd (bs @ t) mem = Some (m, rest @ t)"
  by (rule varint32_cases [where bs = bs and t = t]) (auto simp: pb_dec_bytes_def read_ext split: if_splits)

lemma dec_string_ext: "pb_dec_string fd bs mem = Some (m, rest) \<Longrightarrow> pb_dec_string fd (bs @ t) mem = Some (m, rest @ t)"
  by (rule varint32_cases [where bs = bs and t = t]) (auto simp: pb_dec_string_def read_ext split: if_splits)

lemma dec_fixed_length_ext:
  "pb_dec_fixed_length_bytes fd bs mem = Some (m, rest)
    \<Longrightarrow> pb_dec_fixed_length_bytes fd (bs @ t) mem = Some (m, rest @ t)"
  by (rule varint32_cases [where bs = bs and t = t]) (auto simp: pb_dec_fixed_length_bytes_def read_ext split: if_splits)

lemma basic_field_ext:
  "decode_basic_field l wt fd bs mem = Some (m, rest) \<Longrightarrow> decode_basic_field l wt fd (bs @ t) mem = Some (m, rest @ t)"
  by (cases l) (auto simp: dec_bool_ext dec_varint_ext dec_fixed_ext dec_bytes_ext dec_string_ext dec_fixed_length_ext split: if_splits)

lemma round_ext:
  assumes "decode_round D i cs seen bs = Some (j, cs', seen', rest)" "bs \<noteq> []"
  shows "decode_round D i cs seen (bs @ t) = Some (j, cs', seen', rest @ t)"
proof -
  have "fst (pb_decode_tag bs) = False"
    using assms(2) by (cases bs) (simp_all add: pb_decode_tag_def pb_decode_varint32_eof_def pb_readbyte_def case_prod_beta)
  then obtain wt tag r where tag: "snd (pb_decode_tag bs) = Some (wt, tag, r)"
    using assms(1) by (auto simp: decode_round_def split: option.splits)
  then have "tag \<noteq> 0" using assms(1) by (auto simp: decode_round_def)
  then show ?thesis
    using assms(1) tag
    by (auto simp: decode_round_def tag_ext [OF tag] skip_ext decode_static_field_def Let_def basic_field_ext
        split: option.splits)
qed

lemma round_tag:
  assumes "decode_round D i cs seen bs = Some r" "bs \<noteq> []"
  obtains wt tag rest where "snd (pb_decode_tag bs) = Some (wt, tag, rest)" "tag \<noteq> 0"
proof -
  have "fst (pb_decode_tag bs) = False"
    using assms(2) by (cases bs) (simp_all add: pb_decode_tag_def pb_decode_varint32_eof_def pb_readbyte_def case_prod_beta)
  then show thesis using assms(1) that by (auto simp: decode_round_def split: option.splits if_splits)
qed

lemma inner_loop_ext:
  assumes "decode_loop fuel D i cs seen bs = Some (cs', seen')"
  shows "\<exists>j k. n \<le> k \<and> inner_loop (fuel + n) D nt i cs seen (bs @ t) = inner_loop k D nt j cs' seen' t"
  using assms
proof (induction fuel D i cs seen bs rule: decode_loop.induct)
  case (3 fuel D i cs seen b bs)
  let ?bs = "b # bs"
  obtain j cs1 seen1 rest where r: "decode_round D i cs seen ?bs = Some (j, cs1, seen1, rest)"
    and loop: "decode_loop fuel D j cs1 seen1 rest = Some (cs', seen')"
    using "3.prems" by (auto split: option.splits)
  obtain wt tag q where tag: "snd (pb_decode_tag ?bs) = Some (wt, tag, q)" "tag \<noteq> 0"
    by (rule round_tag [OF r]) auto
  have "inner_loop (Suc fuel + n) D nt i cs seen (?bs @ t) = inner_loop (fuel + n) D nt j cs1 seen1 (rest @ t)"
    using tag_ext [OF tag(1), of t] round_ext [OF r, of t] tag(2) by simp
  moreover have "\<exists>j' k. n \<le> k \<and> inner_loop (fuel + n) D nt j cs1 seen1 (rest @ t) = inner_loop k D nt j' cs' seen' t"
    using "3.IH" [OF r refl refl refl] loop by auto
  ultimately show ?case by simp
next
  case (1 fuel D i cs seen)
  then show ?case by (intro exI [of _ i] exI [of _ "fuel + n"]) simp
qed simp

lemma inner_reads:
  assumes "pb_decode D cs0 bs = Some cs" "flags AND PB_DECODE_NOINIT = 0"
  shows "pb_decode_inner D flags cs0 bs = Some (cs, [])"
    "flags AND PB_DECODE_NULLTERMINATED \<noteq> 0 \<Longrightarrow> pb_decode_inner D flags cs0 (bs @ 0 # rest) = Some (cs, rest)"
proof -
  obtain seen where loop: "decode_loop (length bs) D 0 (pb_message_set_to_defaults (field_list D) cs0) [] bs = Some (cs, seen)"
    and req: "required_seen (field_list D) seen"
    using assms(1) by (auto simp: pb_decode_def split: option.splits if_splits)
  note ext = inner_loop_ext [OF loop, where nt = "flags AND PB_DECODE_NULLTERMINATED \<noteq> 0"]
  show "pb_decode_inner D flags cs0 bs = Some (cs, [])"
    using ext [of 0 "[]"] req assms(2) by (auto simp: pb_decode_inner_def)
  assume nt: "flags AND PB_DECODE_NULLTERMINATED \<noteq> 0"
  obtain j k where k: "Suc (length rest) \<le> k" "inner_loop (length bs + Suc (length rest)) D True 0
      (pb_message_set_to_defaults (field_list D) cs0) [] (bs @ 0 # rest) = inner_loop k D True j cs seen (0 # rest)"
    using ext [of "Suc (length rest)" "0 # rest"] nt by auto
  have "pb_decode_tag (0 # rest) = (False, Some (0, 0, rest))"
    by (simp add: pb_decode_tag_def pb_decode_varint32_eof_def pb_readbyte_def)
  then have "inner_loop k D True j cs seen (0 # rest) = Some (cs, seen, rest)"
    using k(1) by (cases k) simp_all
  with k(2) req assms(2) nt show "pb_decode_inner D flags cs0 (bs @ 0 # rest) = Some (cs, rest)"
    by (simp add: pb_decode_inner_def)
qed

section \<open>Writing\<close>

lemma sizing_write [simp]: "sizing s \<Longrightarrow> pb_write bs s = Some (s\<lparr>written := written s @ bs\<rparr>)"
  by (simp add: pb_write_def)

lemma submessage_bytes:
  assumes "list_all2 cell_ok fds cs" "length (message_bytes_pb fds cs) < 2 ^ 64" "\<not> sizing s"
  shows "pb_encode_submessage fds cs s
    = pb_write (leb128 (length (message_bytes_pb fds cs)) @ message_bytes_pb fds cs) s"
proof -
  let ?m = "message_bytes_pb fds cs"
  have n: "unat (of_nat (length ?m) :: u64) = length ?m"
    using assms(2) by (simp add: unsigned_of_nat take_bit_nat_eq_self)
  show ?thesis
    using assms(3)
    by (simp add: pb_encode_submessage_def PB_OSTREAM_SIZING_def pb_encode_varint_leb128 n
        pb_encode_bytes [OF assms(1)] Let_def pb_write_def)
qed

text \<open>
  C17. Framing is transparent. A message encoded plainly, with its length in front or with a zero byte
  behind is read back as the same cells, whatever the destination held before; with a frame the
  decoder stops exactly behind the message, so that what follows on the stream is left for the next
  one. The sizing pass gives the exact number of bytes.
\<close>
theorem framed_roundtrip:
  assumes "descriptor_ok D" and "list_all2 cell_ok (field_list D) cs"
    and "list_all2 cell_ok (field_list D) cs0"
    and "pb_encode_ex (field_list D) cs flags (pb_ostream_from_buffer cap) = Some s" and "cap < 2 ^ 32"
    and "flags = 0 \<and> rest = [] \<or> flags = PB_ENCODE_DELIMITED \<or> flags = PB_ENCODE_NULLTERMINATED"
  shows "pb_decode_ex D flags cs0 (written s @ rest) = Some (cs, rest)
    \<and> pb_get_encoded_size (field_list D) cs = Some (length (message_bytes_pb (field_list D) cs))"
proof -
  let ?m = "message_bytes_pb (field_list D) cs"
  have size: "pb_get_encoded_size (field_list D) cs = Some (length ?m)"
    by (simp add: pb_get_encoded_size_def PB_OSTREAM_SIZING_def pb_encode_bytes [OF assms(2)])
  note plain = inner_reads [OF pb_decode_reads [OF assms(1-3)]]
  note flag_defs = PB_DECODE_NOINIT_def PB_DECODE_DELIMITED_def PB_DECODE_NULLTERMINATED_def
    PB_ENCODE_DELIMITED_def PB_ENCODE_NULLTERMINATED_def
  note enc = pb_encode_bytes [OF assms(2)]
  from assms(6) consider "flags = 0" "rest = []" | "flags = PB_ENCODE_DELIMITED" | "flags = PB_ENCODE_NULLTERMINATED"
    by auto
  then have "pb_decode_ex D flags cs0 (written s @ rest) = Some (cs, rest)"
  proof cases
    case 1
    then have "written s = ?m"
      using assms(4) by (auto simp: pb_encode_ex_def enc pb_write_def pb_ostream_from_buffer_def split: if_splits)
    then show ?thesis using 1 plain(1) [of 0] by (simp add: pb_decode_ex_def)
  next
    case 3
    then have "written s = ?m @ [0]"
      using assms(4)
      by (auto simp: pb_encode_ex_def enc flag_defs pb_write_def pb_ostream_from_buffer_def split: if_splits)
    then show ?thesis using 3 plain(2) [of flags rest] by (simp add: pb_decode_ex_def flag_defs)
  next
    case 2
    have "length ?m \<le> cap"
      using assms(4) 2
      by (auto simp: pb_encode_ex_def flag_defs pb_encode_submessage_def PB_OSTREAM_SIZING_def enc
          pb_encode_varint_leb128 Let_def pb_write_def pb_ostream_from_buffer_def split: if_splits)
    then have len: "length ?m < 2 ^ 32" using assms(5) by simp
    then have "written s = leb128 (length ?m) @ ?m"
      using assms(4) 2 submessage_bytes [OF assms(2), of "pb_ostream_from_buffer cap"]
      by (auto simp: pb_encode_ex_def flag_defs pb_write_def pb_ostream_from_buffer_def split: if_splits)
    moreover have "pb_make_string_substream (leb128 (length ?m) @ ?m @ rest) = Some (?m, rest)"
      by (simp add: pb_make_string_substream_def decode_leb128_len [OF len] unat_of_nat_u32 [OF len])
    ultimately show ?thesis
      using 2 plain(1) [of flags] by (simp add: pb_decode_ex_def flag_defs pb_close_string_substream_def)
  qed
  with size show ?thesis by simp
qed

text \<open>A two-field message for the witness: an integer and a byte array.\<close>

definition framed_descriptor :: pb_descriptor where
  "framed_descriptor = \<lparr>field_list = [\<lparr>ftag = 1, ltype = UVARINT, htype = OPTIONAL, data_size = 4, has_psize = False\<rparr>],
     largest_tag = 1\<rparr>"

definition framed_cell :: "u32 \<Rightarrow> pb_cell" where
  "framed_cell w = \<lparr>has_value = False, pData = le_bytes 4 w\<rparr>"

theorem framed_roundtrip_witness:
  "pb_decode_ex framed_descriptor PB_ENCODE_DELIMITED [framed_cell 0] [2, 8, 5, 7, 9] = Some ([framed_cell 5], [7, 9])
   \<and> pb_decode_ex framed_descriptor PB_ENCODE_NULLTERMINATED [framed_cell 0] [8, 5, 0, 7, 9] = Some ([framed_cell 5], [7, 9])"
proof -
  let ?D = framed_descriptor
  have D: "descriptor_ok ?D" by (simp add: descriptor_ok_def tags_sorted_def framed_descriptor_def)
  have ok: "list_all2 cell_ok (field_list ?D) [framed_cell w]" for w
    by (simp add: framed_descriptor_def cell_ok_def framed_cell_def)
  have m: "message_bytes_pb (field_list ?D) [framed_cell 5] = [8, 5]"
    by (simp add: framed_descriptor_def message_bytes_pb_def field_bytes_def omitted_def
        pb_check_proto3_default_value_def packable_def framed_cell_def tag_bytes_def
        leb128.simps unsigned_value_def le_bytes_u32)
  have "pb_encode_ex (field_list ?D) [framed_cell 5] PB_ENCODE_DELIMITED (pb_ostream_from_buffer 8)
      = Some \<lparr>sizing = False, max_size = 8, written = [2, 8, 5]\<rparr>"
    "pb_encode_ex (field_list ?D) [framed_cell 5] PB_ENCODE_NULLTERMINATED (pb_ostream_from_buffer 8)
      = Some \<lparr>sizing = False, max_size = 8, written = [8, 5, 0]\<rparr>"
    by (simp_all add: pb_encode_ex_def PB_ENCODE_DELIMITED_def PB_ENCODE_NULLTERMINATED_def submessage_bytes [OF ok]
        m pb_encode_bytes [OF ok] pb_ostream_from_buffer_def leb128.simps pb_write_def)
  from framed_roundtrip [OF D ok ok this(1), of "[7, 9]" 0] framed_roundtrip [OF D ok ok this(2), of "[7, 9]" 0]
  show ?thesis by simp
qed

end
