(* ===== verification/Pb_Array.thy ===== *)
theory Pb_Array
  imports Pb_Framing
begin

text \<open>
  Repeated fields of nanopb with static allocation (\<open>encode_array\<close> in pb_encode.c, the \<open>REPEATED\<close>
  case of \<open>decode_static_field\<close> in pb_decode.c). The array is the memory of its entries, as many as
  it has room for, and the \<open>_count\<close> member; the entry of the descriptor has no \<open>has\<close> flag.
\<close>

section \<open>Encoding\<close>

record pb_array =
  elements :: "byte list list"
  acount :: u16

definition element :: "byte list \<Rightarrow> pb_cell" where
  "element mem = \<lparr>has_value = False, pData = mem\<rparr>"

text \<open>One call per entry, the first failure ends it.\<close>

fun each :: "('a \<Rightarrow> pb_ostream \<Rightarrow> pb_ostream option) \<Rightarrow> 'a list \<Rightarrow> pb_ostream \<Rightarrow> pb_ostream option" where
  "each f [] s = Some s"
| "each f (x # xs) s = Option.bind (f x s) (each f xs)"

definition packed_size :: "pb_field \<Rightarrow> byte list list \<Rightarrow> nat option" where
  "packed_size fd ms =
     (if ltype fd = FIXED32 then Some (4 * length ms)
      else if ltype fd = FIXED64 then Some (8 * length ms)
      else map_option (\<lambda>s. length (written s)) (each (\<lambda>m. pb_enc_varint fd (element m)) ms PB_OSTREAM_SIZING))"

definition packed_entry :: "pb_field \<Rightarrow> byte list \<Rightarrow> pb_ostream \<Rightarrow> pb_ostream option" where
  "packed_entry fd m = (if ltype fd = FIXED32 \<or> ltype fd = FIXED64 then pb_enc_fixed fd (element m)
     else pb_enc_varint fd (element m))"

definition encode_array :: "pb_field \<Rightarrow> pb_array \<Rightarrow> pb_ostream \<Rightarrow> pb_ostream option" where
  "encode_array fd a s =
     (let n = unat (acount a); ms = take n (elements a)
      in if acount a = 0 then Some s
         else if n > length (elements a) then None
         else if packable (ltype fd) then
           Option.bind (pb_encode_tag 2 (ftag fd) s) (\<lambda>s1.
             Option.bind (packed_size fd ms) (\<lambda>size.
               Option.bind (pb_encode_varint (of_nat size) s1) (\<lambda>s2.
                 if sizing s2 then pb_write (replicate size 0) s2 else each (packed_entry fd) ms s2)))
         else each (\<lambda>m. encode_basic_field fd (element m)) ms s)"

section \<open>Decoding\<close>

text \<open>\<open>array_size - count\<close> rounds at most: every round fills one entry.\<close>

fun packed_loop :: "nat \<Rightarrow> pb_field \<Rightarrow> byte list \<Rightarrow> pb_array \<Rightarrow> (byte list \<times> pb_array) option" where
  "packed_loop 0 fd sub a = Some (sub, a)"
| "packed_loop (Suc left) fd sub a =
     (if sub = [] then Some (sub, a)
      else let i = unat (acount a)
           in case decode_basic_field (ltype fd) 0xFF fd sub (elements a ! i) of
                None \<Rightarrow> None
              | Some (m, rest) \<Rightarrow>
                  packed_loop left fd rest (a\<lparr>elements := (elements a)[i := m], acount := acount a + 1\<rparr>))"

definition decode_repeated_field :: "byte \<Rightarrow> pb_field \<Rightarrow> byte list \<Rightarrow> pb_array
    \<Rightarrow> (pb_array \<times> byte list) option" where
  "decode_repeated_field wt fd bs a =
     (if wt = 2 \<and> packable (ltype fd) then
        (case pb_make_string_substream bs of
           None \<Rightarrow> None
         | Some (sub, parent) \<Rightarrow>
             (case packed_loop (length (elements a) - unat (acount a)) fd sub a of
                None \<Rightarrow> None
              | Some (sub', a') \<Rightarrow> if sub' \<noteq> [] then None
                  else map_option (Pair a') (pb_close_string_substream sub' parent)))
      else let i = unat (acount a)
           in if i \<ge> length (elements a) then None
              else map_option (\<lambda>(m, rest). (a\<lparr>elements := (elements a)[i := m], acount := acount a + 1\<rparr>, rest))
                     (decode_basic_field (ltype fd) wt fd bs (elements a ! i)))"

text \<open>The default of a repeated field: no entries, the memory as it was.\<close>

definition array_set_to_default :: "pb_array \<Rightarrow> pb_array" where
  "array_set_to_default a = a\<lparr>acount := 0\<rparr>"

section \<open>Lemmas\<close>

lemma each_bytes:
  assumes "\<And>x s. x \<in> set xs \<Longrightarrow> f x s = pb_write (g x) s"
  shows "each f xs s = pb_write (concat (map g xs)) s"
  using assms
proof (induction xs arbitrary: s)
  case (Cons x xs)
  have "each f (x # xs) s = Option.bind (pb_write (g x) s) (each f xs)" using Cons.prems by simp
  also have "\<dots> = pb_write (g x @ concat (map g xs)) s"
    by (rule pb_write_bind) (use Cons in simp)
  finally show ?case by simp
qed simp

definition entry_ok :: "pb_field \<Rightarrow> byte list \<Rightarrow> bool" where
  "entry_ok fd m \<longleftrightarrow> length m = data_size fd \<and> value_ok (ltype fd) (data_size fd) m"

definition entry_bytes :: "pb_field \<Rightarrow> byte list \<Rightarrow> byte list" where
  "entry_bytes fd m = value_bytes (ltype fd) (data_size fd) m"

lemma entry_cell: "entry_ok fd m \<Longrightarrow> \<not> has_psize fd \<Longrightarrow> cell_ok fd (element m)"
  by (simp add: entry_ok_def cell_ok_def element_def)

lemma packed_entry_bytes:
  assumes "entry_ok fd m" "\<not> has_psize fd" "packable (ltype fd)"
  shows "packed_entry fd m s = pb_write (entry_bytes fd m) s"
    "ltype fd \<noteq> FIXED32 \<Longrightarrow> ltype fd \<noteq> FIXED64 \<Longrightarrow> pb_enc_varint fd (element m) s = pb_write (entry_bytes fd m) s"
proof -
  have enc: "enc_value (ltype fd) fd (element m) s = pb_write (entry_bytes fd m) s"
    using enc_value_bytes [OF entry_cell [OF assms(1,2)]] by (simp add: entry_bytes_def element_def)
  have bool: "pb_enc_varint fd (element m) s = pb_enc_bool (element m) s" if "ltype fd = BOOL"
    using assms(1) that
    by (auto simp: entry_ok_def pb_enc_varint_def pb_enc_bool_def signed_value_def element_def)
  show v: "pb_enc_varint fd (element m) s = pb_write (entry_bytes fd m) s" if "ltype fd \<noteq> FIXED32" "ltype fd \<noteq> FIXED64"
    using enc bool assms(3) that by (cases "ltype fd") (simp_all add: packable_def)
  show "packed_entry fd m s = pb_write (entry_bytes fd m) s"
    using enc v by (cases "ltype fd") (simp_all add: packed_entry_def)
qed

lemma packed_size_exact:
  assumes "list_all (entry_ok fd) ms" "\<not> has_psize fd" "packable (ltype fd)"
  shows "packed_size fd ms = Some (length (concat (map (entry_bytes fd) ms)))"
proof -
  have fixed: "length (concat (map (entry_bytes fd) ms)) = k * length ms"
    if "\<And>m. m \<in> set ms \<Longrightarrow> length (entry_bytes fd m) = k" for k
    using that by (induction ms) auto
  show ?thesis
  proof (cases "ltype fd = FIXED32 \<or> ltype fd = FIXED64")
    case True
    then show ?thesis
      using assms(1) fixed [of 4] fixed [of 8]
      by (auto simp: packed_size_def list_all_iff entry_ok_def entry_bytes_def)
  next
    case False
    have "each (\<lambda>m. pb_enc_varint fd (element m)) ms PB_OSTREAM_SIZING
        = pb_write (concat (map (entry_bytes fd) ms)) PB_OSTREAM_SIZING"
      using assms False by (intro each_bytes packed_entry_bytes(2)) (auto simp: list_all_iff)
    then show ?thesis using False by (simp add: packed_size_def PB_OSTREAM_SIZING_def)
  qed
qed

lemma decode_packed_entry:
  assumes "entry_ok fd m" "\<not> has_psize fd" "packable (ltype fd)" "length mem = data_size fd"
  shows "decode_basic_field (ltype fd) 0xFF fd (entry_bytes fd m @ rest) mem = Some (m, rest)"
    "entry_bytes fd m \<noteq> []"
proof -
  let ?z = "replicate (data_size fd) 0"
  have zero: "decode_basic_field (ltype fd) (wire_type_of (ltype fd)) fd (entry_bytes fd m @ rest) ?z = Some (m, rest)"
    using decode_value [OF entry_cell [OF assms(1,2)] refl, of rest] by (simp add: entry_bytes_def element_def)
  have st: "store_int (data_size fd) rb v mem = store_int (data_size fd) rb v ?z" for rb v
    using assms(4) by (simp add: store_int_def)
  have same: "decode_basic_field (ltype fd) 0xFF fd bs mem = decode_basic_field (ltype fd) (wire_type_of (ltype fd)) fd bs ?z" for bs
  proof (cases "ltype fd")
    case BOOL
    then obtain x where "mem = [x]" using assms(1,4) by (auto simp: entry_ok_def length_Suc_conv)
    with BOOL assms(1) show ?thesis by (auto simp: entry_ok_def pb_dec_bool_def)
  qed (use assms in \<open>simp_all add: entry_ok_def packable_def pb_dec_varint_def pb_dec_fixed_def st Let_def\<close>)
  show "decode_basic_field (ltype fd) 0xFF fd (entry_bytes fd m @ rest) mem = Some (m, rest)"
    using same zero by simp
  show "entry_bytes fd m \<noteq> []"
    using assms(1,3) by (cases "ltype fd") (auto simp: entry_bytes_def entry_ok_def packable_def)
qed

lemma packed_loop_reads:
  assumes "list_all (entry_ok fd) ms" "\<not> has_psize fd" "packable (ltype fd)"
    and "list_all (\<lambda>m. length m = data_size fd) (elements a)"
    and "unat (acount a) + length ms \<le> length (elements a)" "length (elements a) < 65536" "length ms \<le> k"
  shows "packed_loop k fd (concat (map (entry_bytes fd) ms)) a
    = Some ([], a\<lparr>elements := take (unat (acount a)) (elements a) @ ms @ drop (unat (acount a) + length ms) (elements a),
                   acount := acount a + of_nat (length ms)\<rparr>)"
  using assms(1,4-7)
proof (induction ms arbitrary: a k)
  case Nil
  then show ?case by (cases k) simp_all
next
  case (Cons m ms)
  let ?i = "unat (acount a)"
  define a1 where "a1 = a\<lparr>elements := (elements a)[?i := m], acount := acount a + 1\<rparr>"
  obtain k' where k: "k = Suc k'" "length ms \<le> k'" using Cons.prems(5) by (cases k) auto
  have i: "?i < length (elements a)" using Cons.prems(3) by simp
  have count: "unat (acount a1) = Suc ?i"
    using i Cons.prems(4) by (simp add: a1_def unat_word_ariths)
  have "length (elements a ! ?i) = data_size fd" using Cons.prems(2) i by (simp add: list_all_length)
  then have step: "packed_loop k fd (concat (map (entry_bytes fd) (m # ms))) a
      = packed_loop k' fd (concat (map (entry_bytes fd) ms)) a1"
    using decode_packed_entry [of fd m "elements a ! ?i"] Cons.prems(1) assms(2,3) by (simp add: k(1) a1_def)
  have m: "length m = data_size fd" using Cons.prems(1) by (simp add: entry_ok_def)
  have "list_all (\<lambda>m. length m = data_size fd) (elements a1)"
    using Cons.prems(2) m set_update_subset_insert [of "elements a" ?i m] by (auto simp: list_all_iff a1_def)
  then have "packed_loop k' fd (concat (map (entry_bytes fd) ms)) a1 = Some ([], a1\<lparr>elements := take (Suc ?i) (elements a1)
        @ ms @ drop (Suc ?i + length ms) (elements a1), acount := acount a1 + of_nat (length ms)\<rparr>)"
    using Cons.IH [of a1 k'] Cons.prems(1,3,4) k(2) count by (simp add: a1_def)
  moreover have "take (Suc ?i) (elements a1) = take ?i (elements a) @ [m]"
    using i by (simp add: a1_def take_Suc_conv_app_nth)
  moreover have "drop (Suc ?i + length ms) (elements a1) = drop (Suc ?i + length ms) (elements a)"
    by (simp add: a1_def)
  ultimately show ?case unfolding step by (simp add: a1_def add.assoc)
qed

text \<open>
  C19. Packed arrays. What \<open>encode_array\<close> writes of an integer array is one tag and one length-delimited
  block, from which the decoder fills the same entries in order, in an array of the same room whatever
  it held, and stops exactly behind the block; a count beyond the room is refused.
\<close>
theorem packed_array_roundtrip:
  assumes fd: "packable (ltype fd)" "\<not> has_psize fd" "unat (ftag fd) < 2 ^ 29"
    and a: "list_all (entry_ok fd) (elements a)" "acount a \<noteq> 0" "length (elements a) < 65536"
    and b: "list_all (\<lambda>m. length m = data_size fd) (elements b)" "length (elements b) = length (elements a)"
    and enc: "encode_array fd a (pb_ostream_from_buffer cap) = Some s" and "cap < 2 ^ 32"
  shows "unat (acount a) \<le> length (elements a) \<and> (\<exists>block.
      pb_decode_tag (written s @ rest) = (False, Some (2, ftag fd, block @ rest))
    \<and> decode_repeated_field 2 fd (block @ rest) (array_set_to_default b)
      = Some (\<lparr>elements = take (unat (acount a)) (elements a) @ drop (unat (acount a)) (elements b), acount = acount a\<rparr>, rest))"
proof -
  define n ms where "n = unat (acount a)" and "ms = take n (elements a)"
  define es where "es = concat (map (entry_bytes fd) ms)"
  have ms: "list_all (entry_ok fd) ms" using a(1) by (auto simp: ms_def list_all_iff dest: in_set_takeD)
  have n: "n \<le> length (elements a)"
    using enc a(2) by (auto simp: encode_array_def n_def Let_def split: if_splits)
  have entries: "each (packed_entry fd) ms t = pb_write es t" for t
    unfolding es_def using ms fd by (intro each_bytes packed_entry_bytes(1)) (auto simp: list_all_iff)
  have size: "packed_size fd ms = Some (length es)"
    unfolding es_def by (rule packed_size_exact [OF ms fd(2,1)])
  have tag: "pb_encode_tag 2 (ftag fd) t = pb_write (tag_bytes 2 (ftag fd)) t" for t
    by (rule pb_encode_tag_bytes) simp
  have out: "written s = tag_bytes 2 (ftag fd) @ leb128 (unat (of_nat (length es) :: u64)) @ es" "length es \<le> cap"
    using enc a(2) n fd(1)
    by (auto simp: encode_array_def n_def [symmetric] ms_def [symmetric] Let_def tag size entries pb_encode_varint_leb128
        pb_write_def pb_ostream_from_buffer_def bind_eq_Some_conv split: if_splits)
  have len: "length es < 2 ^ 32" using out(2) assms(10) by simp
  then have "unat (of_nat (length es) :: u64) = length es"
    by (simp add: unsigned_of_nat take_bit_nat_eq_self)
  then have block: "written s @ rest = tag_bytes 2 (ftag fd) @ (leb128 (length es) @ es) @ rest" using out(1) by simp
  have "pb_make_string_substream (leb128 (length es) @ es @ rest) = Some (es, rest)"
    by (simp add: pb_make_string_substream_def decode_leb128_len [OF len] unat_of_nat_u32 [OF len])
  moreover have "packed_loop (length (elements b)) fd es (array_set_to_default b)
      = Some ([], \<lparr>elements = ms @ drop n (elements b), acount = acount a\<rparr>)"
    using packed_loop_reads [OF ms fd(2,1), of "array_set_to_default b" "length (elements b)"] a(3) b n
    by (cases b) (simp add: array_set_to_default_def es_def ms_def n_def)
  ultimately have "decode_repeated_field 2 fd ((leb128 (length es) @ es) @ rest) (array_set_to_default b)
      = Some (\<lparr>elements = ms @ drop n (elements b), acount = acount a\<rparr>, rest)"
    using fd(1) by (simp add: decode_repeated_field_def array_set_to_default_def pb_close_string_substream_def)
  moreover have "pb_decode_tag (written s @ rest) = (False, Some (2, ftag fd, (leb128 (length es) @ es) @ rest))"
    unfolding block using fd(3) by (intro pb_decode_tag_bytes) simp_all
  ultimately show ?thesis using n unfolding ms_def n_def by blast
qed

theorem packed_array_roundtrip_witness:
  "let fd = \<lparr>ftag = 4, ltype = UVARINT, htype = OPTIONAL, data_size = 1, has_psize = False\<rparr>
   in decode_repeated_field 2 fd [3, 1, 200, 1, 9] (array_set_to_default \<lparr>elements = [[7], [7], [7]], acount = 3\<rparr>)
      = Some (\<lparr>elements = [[1], [200], [7]], acount = 2\<rparr>, [9])"
proof -
  let ?fd = "\<lparr>ftag = 4, ltype = UVARINT, htype = OPTIONAL, data_size = 1, has_psize = False\<rparr>"
  let ?a = "\<lparr>elements = [[1], [200], [0]], acount = 2\<rparr>" and ?b = "\<lparr>elements = [[7], [7], [7]], acount = 3\<rparr>"
  have enc: "encode_array ?fd ?a (pb_ostream_from_buffer 8) = Some \<lparr>sizing = False, max_size = 8, written = [34, 3, 1, 200, 1]\<rparr>"
    by (simp add: encode_array_def packable_def pb_encode_tag_bytes tag_bytes_def packed_size_def packed_entry_def
        pb_enc_varint_def unsigned_value_def element_def PB_OSTREAM_SIZING_def pb_encode_varint_leb128 leb128.simps
        pb_ostream_from_buffer_def pb_write_def Let_def)
  have "pb_decode_tag ([34, 3, 1, 200, 1] @ [9]) = (False, Some (2, 4, [3, 1, 200, 1, 9]))"
    by (simp add: pb_decode_tag_def pb_decode_varint32_eof_def pb_readbyte_def)
  with packed_array_roundtrip [OF _ _ _ _ _ _ _ _ enc, of ?b "[9]"] show ?thesis
    by (simp add: packable_def entry_ok_def)
qed

end
