(* ===== verification/Hardware.thy ===== *)
theory Hardware
  imports Error_Core
begin

text \<open>
  The drivers of the board's pins (hardware/output/GpioOutput.cpp, Led.cpp, SevenSegDisplay.cpp,
  hardware/input/GpioInput.cpp, Pir.cpp, Button.cpp). \<open>levels p t\<close> is what
  \<open>digitalRead(p)\<close> returns at the clock reading \<open>t\<close>.
\<close>

section \<open>Pin modes of the Arduino core\<close>

abbreviation (input) "INPUT \<equiv> (1::nat)"
abbreviation (input) "OUTPUT \<equiv> (3::nat)"
abbreviation (input) "INPUT_PULLUP \<equiv> (5::nat)"
abbreviation (input) "INPUT_PULLDOWN \<equiv> (9::nat)"

section \<open>LEDs\<close>

definition gpio_output_init :: "led \<times> 'a platform_scheme \<Rightarrow> bool \<times> led \<times> 'a platform_scheme" where
  "gpio_output_init = (\<lambda>(l, s).
     if \<not> isValidOutputPin (led_pin l) then (False, l, s)
     else (True, l\<lparr>led_initialized := True\<rparr>, emit (PinMode (led_pin l) OUTPUT) s))"

text \<open>
  \<open>Led::init\<close> on one of the two LEDs of the node: \<open>get\<close> and \<open>put\<close> select it, \<open>isSys\<close> says
  whether it is the system error LED, whose own failures are not reported.
\<close>

definition led_init :: "('a node_scheme \<Rightarrow> led) \<Rightarrow> (led \<Rightarrow> 'a node_scheme \<Rightarrow> 'a node_scheme) \<Rightarrow> bool
    \<Rightarrow> 'a node_scheme \<Rightarrow> bool \<times> 'a node_scheme" where
  "led_init get put isSys s =
     (let (ok, l, s1) = gpio_output_init (get s, s)
      in if \<not> ok then (False, if isSys then s1 else fail CONFIG M_HW 1 s1)
         else (True, put (l\<lparr>led_isOn := False\<rparr>) (emit (PinWrite (led_pin l) False) s1)))"

definition led_switch :: "('a node_scheme \<Rightarrow> led) \<Rightarrow> (led \<Rightarrow> 'a node_scheme \<Rightarrow> 'a node_scheme) \<Rightarrow> bool
    \<Rightarrow> byte \<Rightarrow> (bool \<Rightarrow> bool) \<Rightarrow> 'a node_scheme \<Rightarrow> bool \<times> 'a node_scheme" where
  "led_switch get put isSys sub f s =
     (if \<not> led_initialized (get s) then (False, led_guard isSys sub s)
      else let (l, s1) = setState (f (led_isOn (get s))) (get s, s) in (True, put l s1))"

definition led_on :: "('a node_scheme \<Rightarrow> led) \<Rightarrow> (led \<Rightarrow> 'a node_scheme \<Rightarrow> 'a node_scheme) \<Rightarrow> bool
    \<Rightarrow> 'a node_scheme \<Rightarrow> bool \<times> 'a node_scheme" where
  "led_on get put isSys = led_switch get put isSys 2 (\<lambda>_. True)"

definition led_off :: "('a node_scheme \<Rightarrow> led) \<Rightarrow> (led \<Rightarrow> 'a node_scheme \<Rightarrow> 'a node_scheme) \<Rightarrow> bool
    \<Rightarrow> 'a node_scheme \<Rightarrow> bool \<times> 'a node_scheme" where
  "led_off get put isSys = led_switch get put isSys 3 (\<lambda>_. False)"

definition led_toggle :: "('a node_scheme \<Rightarrow> led) \<Rightarrow> (led \<Rightarrow> 'a node_scheme \<Rightarrow> 'a node_scheme) \<Rightarrow> bool
    \<Rightarrow> 'a node_scheme \<Rightarrow> bool \<times> 'a node_scheme" where
  "led_toggle get put isSys = led_switch get put isSys 4 Not"

definition put_red :: "led \<Rightarrow> 'a node_scheme \<Rightarrow> 'a node_scheme" where
  "put_red l s = s\<lparr>redLed := l\<rparr>"

definition put_green :: "led \<Rightarrow> 'a node_scheme \<Rightarrow> 'a node_scheme" where
  "put_green l s = s\<lparr>greenLed := l\<rparr>"

section \<open>Display\<close>

text \<open>
  The display as a sink of segment bytes; \<open>display_init\<close> ends with the self-test pattern shown
  for half a second and the digits cleared.
\<close>

definition display_clear :: "'a platform_scheme \<Rightarrow> 'a platform_scheme" where
  "display_clear = emit (Segments [0, 0, 0, 0])"

definition display_init :: "nat \<Rightarrow> nat \<Rightarrow> 'a node_scheme \<Rightarrow> bool \<times> 'a node_scheme" where
  "display_init dio clk s =
     (if \<not> isValidOutputPin dio \<or> \<not> isValidOutputPin clk then (False, fail CONFIG M_HW 1 s)
      else (True, display_clear (delay_ms 500 (emit (Segments [0x7F, 0x7F, 0x7F, 0x7F])
             (emit (PinWrite dio True) (emit (PinWrite clk True)
               (emit (PinMode clk OUTPUT) (emit (PinMode dio OUTPUT) s))))))))"

section \<open>Inputs\<close>

definition isValidInputPin :: "nat \<Rightarrow> bool" where
  "isValidInputPin pin \<longleftrightarrow>
     pin \<in> set [0, 2, 4, 5, 12, 13, 14, 15, 16, 17, 18, 19, 21, 22, 23, 25, 26, 27, 32, 33,
       34, 35, 36, 39]"

record gpio_input =
  in_pin :: nat
  in_initialized :: bool

definition gpio_input_init :: "gpio_input \<times> 'a platform_scheme \<Rightarrow> bool \<times> gpio_input \<times> 'a platform_scheme" where
  "gpio_input_init = (\<lambda>(g, s).
     if \<not> isValidInputPin (in_pin g) then (False, g, s)
     else (True, g\<lparr>in_initialized := True\<rparr>, emit (PinMode (in_pin g) INPUT_PULLUP) s))"

definition button_init :: "gpio_input \<times> 'a platform_scheme \<Rightarrow> bool \<times> gpio_input \<times> 'a platform_scheme" where
  "button_init = (\<lambda>(g, s).
     if \<not> isValidInputPin (in_pin g) then (False, g, s)
     else (True, g\<lparr>in_initialized := True\<rparr>, emit (PinMode (in_pin g) INPUT_PULLDOWN) s))"

text \<open>
  Three reads, 5 ms apart; the loop with \<open>n\<close> reads left and the \<open>HIGH\<close> reads counted so far.
\<close>

fun debounce :: "(nat \<Rightarrow> u32 \<Rightarrow> bool) \<Rightarrow> nat \<Rightarrow> nat \<Rightarrow> nat \<Rightarrow> 'a platform_scheme
    \<Rightarrow> nat \<times> 'a platform_scheme" where
  "debounce levels pin 0 high s = (high, s)"
| "debounce levels pin (Suc n) high s =
     debounce levels pin n (if levels pin (now s) then high + 1 else high)
       (if n > 0 then delay_ms 5 s else s)"

definition isPressed :: "(nat \<Rightarrow> u32 \<Rightarrow> bool) \<Rightarrow> nat \<Rightarrow> 'a platform_scheme \<Rightarrow> bool \<times> 'a platform_scheme" where
  "isPressed levels pin s = (let (high, s') = debounce levels pin 3 0 s in (high \<ge> 2, s'))"

text \<open>The blocking wait: not returning is \<open>None\<close>.\<close>

partial_function (option) hold_loop :: "(nat \<Rightarrow> u32 \<Rightarrow> bool) \<Rightarrow> nat \<Rightarrow> u32 \<Rightarrow> u32
    \<Rightarrow> 'a platform_scheme \<Rightarrow> (bool \<times> 'a platform_scheme) option" where
  "hold_loop levels pin start ms s =
     (let (pressed, s1) = isPressed levels pin s
      in if \<not> pressed then Some (False, s1)
         else if now s1 - start \<ge> ms then Some (True, s1)
         else hold_loop levels pin start ms (delay_ms 10 s1))"

definition waitForHold :: "(nat \<Rightarrow> u32 \<Rightarrow> bool) \<Rightarrow> nat \<Rightarrow> u32 \<Rightarrow> 'a platform_scheme
    \<Rightarrow> (bool \<times> 'a platform_scheme) option" where
  "waitForHold levels pin ms s =
     (let (pressed, s1) = isPressed levels pin s
      in if \<not> pressed then Some (False, s1) else hold_loop levels pin (now s) ms s1)"

subsection \<open>Motion sensor\<close>

record pir = gpio_input +
  motionDetected :: bool

definition Pir :: "nat \<Rightarrow> pir" where
  "Pir pin = \<lparr>in_pin = pin, in_initialized = False, motionDetected = False\<rparr>"

definition pir_init :: "pir \<times> 'a platform_scheme \<Rightarrow> bool \<times> pir \<times> 'a platform_scheme" where
  "pir_init = (\<lambda>(p, s).
     if \<not> isValidInputPin (in_pin p) then (False, p, s)
     else (True, p\<lparr>in_initialized := True, motionDetected := False\<rparr>,
           emit (PinMode (in_pin p) INPUT_PULLUP) s))"

definition pir_attach :: "pir \<Rightarrow> 'a platform_scheme \<Rightarrow> bool \<times> 'a platform_scheme" where
  "pir_attach p s = (if \<not> in_initialized p then (False, s) else (True, emit (AttachIrq (in_pin p)) s))"

definition pir_detach :: "pir \<Rightarrow> 'a platform_scheme \<Rightarrow> 'a platform_scheme" where
  "pir_detach p s = (if \<not> in_initialized p then s else emit (DetachIrq (in_pin p)) s)"

definition signalMotion :: "pir \<Rightarrow> pir" where
  "signalMotion p = p\<lparr>motionDetected := True\<rparr>"

definition clearMotion :: "pir \<Rightarrow> pir" where
  "clearMotion p = p\<lparr>motionDetected := False\<rparr>"

section \<open>Lemmas\<close>

lemma debounce_frame:
  "debounce levels pin n h s = (h', s') \<Longrightarrow>
     status s' = status s \<and> out s' = out s \<and> platform.more s' = platform.more s
     \<and> now s' = now s + 5 * of_nat (n - 1)"
proof (induction levels pin n h s rule: debounce.induct)
  case (2 levels pin n h s)
  from 2(2) have "debounce levels pin n (if levels pin (now s) then h + 1 else h)
      (if n > 0 then delay_ms 5 s else s) = (h', s')" by simp
  from 2(1) [OF this] show ?case by (cases n) (simp_all add: algebra_simps)
qed simp

lemma isPressed_frame:
  assumes "isPressed levels pin s = (b, s')"
  shows "status s' = status s" "out s' = out s" "platform.more s' = platform.more s" "now s' = now s + 10"
  using assms debounce_frame [of levels pin 3 0 s]
  by (auto simp: isPressed_def split: prod.splits)

lemma isPressed_steady:
  "(\<And>t. levels pin t = b) \<Longrightarrow> fst (isPressed levels pin s) = b"
  by (simp add: isPressed_def numeral_3_eq_3 split: prod.splits)

text \<open>A held or bouncing button: two \<open>HIGH\<close> samples of the three decide.\<close>

lemma isPressed_votes:
  "fst (isPressed levels pin s) \<longleftrightarrow>
     length (filter (\<lambda>d. levels pin (now s + d)) [0, 5, 10]) \<ge> 2"
  by (simp add: isPressed_def numeral_3_eq_3 numeral_2_eq_2 add.commute split: prod.splits)

end
