(* ===== verification/Adapters.thy ===== *)
theory Adapters
  imports Mesh_Ops Mesh_Pb Hardware
begin

text \<open>
  The adapters that sit between the mesh and the outside (Adapter/Adapter.cpp,
  AdapterFactory.cpp, PIR_Adapter/PIR_Adapter.cpp, Serial_Adapter/Serial_Adapter.cpp). The device
  state gains the one adapter object of the firmware and the static members of the classes; a
  virtual call is a case on the adapter's class. Methods get \<open>this\<close> as the argument \<open>a\<close>; those
  that change fields of the subclass return them. \<open>hw_mac E\<close> is what \<open>readOwnMac\<close> reads.
\<close>

section \<open>Objects\<close>

datatype FrameState = AwaitingLen1 | AwaitingLen2 | AwaitingPayload

abbreviation (input) "MAX_PAYLOAD \<equiv> (256::nat)"

record Serial_Adapter =
  frameState :: FrameState
  frameLength :: u16
  frameIndex :: nat
  payloadBuffer :: "byte list"
  lastReportedHopCount :: u32

record PIR_Adapter =
  pir_hw :: pir
  cooldownSeconds :: u16
  lastTrigger :: u32
  timerActive :: bool
  motionSent :: bool
  interruptEnabled :: bool
  pirInitialized :: bool
  lastHealthMillis :: u32

datatype adapter_class = PIR_Class PIR_Adapter | Serial_Class Serial_Adapter

record Adapter =
  a_pin :: int
  adapterType :: u32
  transmitSet :: bool
  a_class :: adapter_class

record appnode = meshnode +
  adapter :: "Adapter option"
  factoryDevMode :: bool
  serialLastHealth :: u32
  pirInstance :: bool

definition new_Serial_Adapter :: Serial_Adapter where
  "new_Serial_Adapter = \<lparr>frameState = AwaitingLen1, frameLength = 0, frameIndex = 0,
     payloadBuffer = replicate MAX_PAYLOAD 0, lastReportedHopCount = 0\<rparr>"

definition new_PIR_Adapter :: "int \<Rightarrow> PIR_Adapter" where
  "new_PIR_Adapter pin = \<lparr>pir_hw = Pir (nat (pin mod 256)), cooldownSeconds = 3, lastTrigger = 0,
     timerActive = False, motionSent = False, interruptEnabled = False, pirInitialized = False,
     lastHealthMillis = 0\<rparr>"

definition sendDataThroughMesh :: "env \<Rightarrow> Adapter \<Rightarrow> u32 \<Rightarrow> byte list \<Rightarrow> 'a appnode_scheme
    \<Rightarrow> 'a appnode_scheme" where
  "sendDataThroughMesh E a type data s =
     (if transmitSet a then transmit E type (Some data) s else fail CONFIG M_ADAPTER 1 s)"

definition setTransmitFn :: "Adapter \<Rightarrow> Adapter" where
  "setTransmitFn a = a\<lparr>transmitSet := True\<rparr>"

section \<open>Factory (AdapterFactory.cpp)\<close>

definition setFactoryDevMode :: "bool \<Rightarrow> 'a appnode_scheme \<Rightarrow> 'a appnode_scheme" where
  "setFactoryDevMode dev s = s\<lparr>factoryDevMode := dev\<rparr>"

definition createAdapter :: "u32 \<Rightarrow> int \<Rightarrow> 'a appnode_scheme \<Rightarrow> Adapter option \<times> 'a appnode_scheme" where
  "createAdapter type pin s =
     (if type = PIR_ADAPTER then
        (Some \<lparr>a_pin = pin, adapterType = PIR_ADAPTER, transmitSet = False,
               a_class = PIR_Class (new_PIR_Adapter pin)\<rparr>, s)
      else if type = SERIAL_ADAPTER then
        (Some \<lparr>a_pin = pin, adapterType = SERIAL_ADAPTER, transmitSet = False,
               a_class = Serial_Class new_Serial_Adapter\<rparr>, s)
      else (None, fail CONFIG M_ADAPTER 2 s))"

definition adapterTypeFromEEPROM :: "byte \<Rightarrow> u32" where
  "adapterTypeFromEEPROM raw = (if raw = 0xFF then PIR_ADAPTER else ucast raw)"

definition adapterTypeToEEPROM :: "u32 \<Rightarrow> byte" where
  "adapterTypeToEEPROM type = ucast type"

definition loadAdapterTypeFromEEPROM :: "'a appnode_scheme \<Rightarrow> u32" where
  "loadAdapterTypeFromEEPROM s =
     (if factoryDevMode s then PIR_ADAPTER else adapterTypeFromEEPROM (loadAdapterType (ee s)))"

definition saveAdapterTypeToEEPROM :: "u32 \<Rightarrow> 'a appnode_scheme \<Rightarrow> 'a appnode_scheme" where
  "saveAdapterTypeToEEPROM type s =
     (if factoryDevMode s then s else on_ee (saveAdapterType (adapterTypeToEEPROM type)) s)"

definition getDefaultPinForAdapter :: "u32 \<Rightarrow> int" where
  "getDefaultPinForAdapter type =
     (if type = PIR_ADAPTER then 27 else if type = LED_ADAPTER then 2
      else if type = SERIAL_ADAPTER then -1 else 27)"

definition createFromEEPROM :: "'a appnode_scheme \<Rightarrow> Adapter option \<times> 'a appnode_scheme" where
  "createFromEEPROM s =
     (let type = loadAdapterTypeFromEEPROM s in createAdapter type (getDefaultPinForAdapter type) s)"

definition initializeDefaultsIfUnset :: "'a appnode_scheme \<Rightarrow> 'a appnode_scheme" where
  "initializeDefaultsIfUnset s =
     (if factoryDevMode s then s
      else if loadAdapterType (ee s) = 0xFF
      then on_ee (saveAdapterType (adapterTypeToEEPROM PIR_ADAPTER)) s
      else s)"

section \<open>Serial adapter: reports and forwarding (Serial_Adapter.cpp)\<close>

text \<open>The 64-byte health record: opcode, adapter type, MAC, uptime in seconds.\<close>

definition health_data :: "byte \<Rightarrow> u32 \<Rightarrow> mac \<Rightarrow> u32 \<Rightarrow> byte list" where
  "health_data op type own millis =
     [op, adapterTypeToEEPROM type] @ mac_bytes own @ le_bytes 4 (millis div 1000)
     @ replicate 52 0"

definition sendHealthReport :: "env \<Rightarrow> 'a appnode_scheme \<Rightarrow> 'a appnode_scheme" where
  "sendHealthReport E s =
     transmit E SERIAL_ADAPTER
       (Some (health_data (OP_HEALTH_REPORT (ops E)) SERIAL_ADAPTER (hw_mac E) (now s))) s"

text \<open>A frame on the serial port: two bytes of length and the payload.\<close>

definition serial_frame :: "byte list \<Rightarrow> 'a appnode_scheme \<Rightarrow> 'a appnode_scheme" where
  "serial_frame bs s =
     emit (SerialWrite bs) (emit (SerialWrite (le_bytes 2 (of_nat (length bs) :: u16))) s)"

definition apply_preset :: "env \<Rightarrow> byte \<Rightarrow> 'a appnode_scheme \<Rightarrow> 'a appnode_scheme" where
  "apply_preset E preset s =
     (let s1 = on_ee (saveTxPowerPreset (preset_of_byte preset)) s
      in if txpower_ok E then emit (RadioPower (TX_POWER_VALUES ! unat preset)) s1 else s1)"

definition serial_control :: "env \<Rightarrow> mesh_message \<Rightarrow> 'a appnode_scheme \<Rightarrow> 'a appnode_scheme" where
  "serial_control E msg s =
     (let op = msgData msg ! 0
      in if op = OP_HEALTH_REQ (ops E) then sendHealthReport E s
         else if op = OP_TX_POWER_SET (ops E) then
           (if msgData msg ! 1 > 2 then s else apply_preset E (msgData msg ! 1) s)
         else s)"

definition serial_onMeshDataImpl :: "env \<Rightarrow> mesh_message \<Rightarrow> 'a appnode_scheme
    \<Rightarrow> 'a appnode_scheme" where
  "serial_onMeshDataImpl E msg =
     andthen (\<lambda>t. if dataType msg = SERIAL_ADAPTER then serial_control E msg t else t)
       (\<lambda>t. let encoded = encodeMeshMessage msg MAX_PAYLOAD
            in if encoded = [] then fail COMM M_ADAPTER 4 t else serial_frame encoded t)"

definition relay_message :: "mac \<Rightarrow> byte list \<Rightarrow> mesh_message" where
  "relay_message mac pubKey = zero_message\<lparr>messageType := MESH_TYPE_ENROLLMENT,
     protoVersion := 1, originMac := mac, enrollmentPublicKey := pubKey\<rparr>"

definition relayEnrollmentToServer :: "mac \<Rightarrow> byte list \<Rightarrow> 'a appnode_scheme
    \<Rightarrow> 'a appnode_scheme" where
  "relayEnrollmentToServer mac pubKey s =
     (let encoded = encodeMeshMessage (relay_message mac pubKey) 128
      in if encoded = [] then s else serial_frame encoded s)"

section \<open>Messages from the mesh (Adapter.cpp)\<close>

text \<open>Addressed to this node or to all: six bytes of 0xFF or the own MAC.\<close>

definition isTarget :: "mac \<Rightarrow> byte list \<Rightarrow> bool" where
  "isTarget own d \<longleftrightarrow> list_all (\<lambda>b. b = 0xFF) (take 6 d) \<or> take 6 d = mac_bytes own"

definition config_set :: "env \<Rightarrow> byte list \<Rightarrow> byte \<Rightarrow> 'a appnode_scheme \<Rightarrow> 'a appnode_scheme" where
  "config_set E target raw s =
     (if isTarget (hw_mac E) target
      then restart (saveAdapterTypeToEEPROM (adapterTypeFromEEPROM raw) s) else s)"

definition node_id_set :: "env \<Rightarrow> mesh_message \<Rightarrow> 'a appnode_scheme \<Rightarrow> 'a appnode_scheme" where
  "node_id_set E msg s =
     (if isTarget (hw_mac E) (drop 1 (msgData msg)) then on_ee (saveNodeId (msgData msg ! 7)) s else s)"

text \<open>
  The acknowledgement of an LED command is a 12-byte array, of which \<open>buildMessage\<close> copies 64
  bytes.
\<close>

definition led_command :: "env \<Rightarrow> Adapter \<Rightarrow> byte \<Rightarrow> 'a appnode_scheme \<Rightarrow> 'a appnode_scheme" where
  "led_command E a op s =
     (if op = OP_LED_SOLID (ops E) \<or> op = OP_LED_OFF (ops E) \<or> op = OP_LED_BLINK (ops E)
      then sendDataThroughMesh E a SERIAL_ADAPTER ([OP_COMMAND_ACK (ops E), op] @ replicate 10 0) s
      else s)"

definition onMeshDataImpl :: "env \<Rightarrow> Adapter \<Rightarrow> mesh_message \<Rightarrow> 'a appnode_scheme
    \<Rightarrow> 'a appnode_scheme" where
  "onMeshDataImpl E a msg s =
     (case a_class a of PIR_Class p \<Rightarrow> s | Serial_Class c \<Rightarrow> serial_onMeshDataImpl E msg s)"

definition onMeshData_typed :: "env \<Rightarrow> Adapter \<Rightarrow> mesh_message \<Rightarrow> 'a appnode_scheme
    \<Rightarrow> 'a appnode_scheme" where
  "onMeshData_typed E a msg s =
     (if dataType msg = LED_ADAPTER \<and> adapterType a = LED_ADAPTER then led_command E a (msgData msg ! 0) s
      else if dataType msg \<noteq> adapterType a then s
      else onMeshDataImpl E a msg s)"

definition onMeshData :: "env \<Rightarrow> Adapter \<Rightarrow> mesh_message \<Rightarrow> 'a appnode_scheme
    \<Rightarrow> 'a appnode_scheme" where
  "onMeshData E a msg s =
     (if dataType msg = SERIAL_ADAPTER then
        let op = msgData msg ! 0
        in andthen (\<lambda>t. if op = OP_CONFIG_SET (ops E)
                        then config_set E (drop 1 (msgData msg)) (msgData msg ! 7) t else t)
             (andthen (\<lambda>t. if op = OP_NODE_ID_SET (ops E) then node_id_set E msg t else t)
               (\<lambda>t. if adapterType a \<noteq> SERIAL_ADAPTER then t else onMeshData_typed E a msg t)) s
      else onMeshData_typed E a msg s)"

section \<open>Frames from the server\<close>

definition forward_frame :: "env \<Rightarrow> Adapter \<Rightarrow> mesh_message \<Rightarrow> 'a appnode_scheme
    \<Rightarrow> 'a appnode_scheme" where
  "forward_frame E a msg s =
     (if messageType msg = MESH_TYPE_ADAPTER_DATA then
        (if transmitSet a then transmit E (dataType msg) (Some (msgData msg)) s
         else fail CONFIG M_ADAPTER 6 s)
      else if messageType msg = MESH_TYPE_SERIAL_CMD_BROADCAST
      then broadcastAdapterData E (dataType msg) (Some (msgData msg)) s
      else s)"

definition frame_control :: "env \<Rightarrow> mesh_message \<Rightarrow> 'a appnode_scheme \<Rightarrow> 'a appnode_scheme" where
  "frame_control E msg s =
     (let op = msgData msg ! 0
      in if op = OP_HEALTH_REQ (ops E) then sendHealthReport E s
         else if op = OP_CONFIG_SET (ops E)
         then config_set E (mac_bytes (targetMac msg)) (msgData msg ! 7) s
         else if op = OP_TX_POWER_SET (ops E) then
           (let preset = msgData msg ! 1
            in if preset > 2 then s
               else let s1 = apply_preset E preset s
                    in if isMaster (mesh s1)
                       then broadcastAdapterData E SERIAL_ADAPTER
                              (Some ([OP_TX_POWER_SET (ops E), preset] @ replicate 62 0)) s1
                       else s1)
         else if op = OP_NODE_ID_SET (ops E) then node_id_set E msg s
         else s)"

definition handleCompleteFrame :: "env \<Rightarrow> Adapter \<Rightarrow> byte list \<Rightarrow> 'a appnode_scheme
    \<Rightarrow> 'a appnode_scheme" where
  "handleCompleteFrame E a data s =
     (case decodeMeshMessage (hw_mac E) data of
        None \<Rightarrow> fail COMM M_ADAPTER 5 s
      | Some msg \<Rightarrow>
          (if messageType msg = MESH_TYPE_JOIN_ACK then
             (if list_ex (\<lambda>b. b \<noteq> 0) (enrollmentPublicKey msg)
              then enrollPeer E (targetMac msg) (enrollmentPublicKey msg) s else s)
           else andthen (forward_frame E a msg)
                  (\<lambda>t. if dataType msg = SERIAL_ADAPTER then frame_control E msg t else t) s))"

definition frame_reset :: "Serial_Adapter \<Rightarrow> Serial_Adapter" where
  "frame_reset c = c\<lparr>frameState := AwaitingLen1, frameLength := 0, frameIndex := 0\<rparr>"

definition frame_byte :: "env \<Rightarrow> Adapter \<Rightarrow> byte \<Rightarrow> Serial_Adapter \<times> 'a appnode_scheme
    \<Rightarrow> Serial_Adapter \<times> 'a appnode_scheme" where
  "frame_byte E a byteIn = (\<lambda>(c, s).
     case frameState c of
       AwaitingLen1 \<Rightarrow> (c\<lparr>frameLength := ucast byteIn, frameState := AwaitingLen2\<rparr>, s)
     | AwaitingLen2 \<Rightarrow>
         (let c1 = c\<lparr>frameLength := frameLength c OR push_bit 8 (ucast byteIn)\<rparr>
          in if frameLength c1 = 0 \<or> unat (frameLength c1) > MAX_PAYLOAD
             then (frame_reset c1, fail COMM M_ADAPTER 2 s)
             else (c1\<lparr>frameIndex := 0, frameState := AwaitingPayload\<rparr>, s))
     | AwaitingPayload \<Rightarrow>
         (if frameIndex c \<ge> MAX_PAYLOAD then (frame_reset c, fail COMM M_ADAPTER 3 s)
          else let c1 = c\<lparr>payloadBuffer := (payloadBuffer c)[frameIndex c := byteIn],
                          frameIndex := frameIndex c + 1\<rparr>;
                   n = unat (frameLength c1)
               in if frameIndex c1 \<ge> n
                  then (frame_reset c1, handleCompleteFrame E a (take n (payloadBuffer c1)) s)
                  else (c1, s)))"

text \<open>
  \<open>while (Serial.available() > 0)\<close>: \<open>rx\<close> are the bytes read until the port is found empty. A
  frame that restarts the device ends the loop.
\<close>

fun serial_bytes :: "env \<Rightarrow> Adapter \<Rightarrow> byte list \<Rightarrow> Serial_Adapter \<times> 'a appnode_scheme
    \<Rightarrow> Serial_Adapter \<times> 'a appnode_scheme" where
  "serial_bytes E a [] cs = cs"
| "serial_bytes E a (b # rx) cs =
     (let cs' = frame_byte E a b cs
      in if status (snd cs') = Running then serial_bytes E a rx cs' else cs')"

text \<open>
  \<open>injectByte\<close> (compiled for the unit tests): the flag of a completed frame, the parser, and the
  opcode of the last completed frame.
\<close>

definition injectByte :: "byte \<Rightarrow> Serial_Adapter \<times> byte \<Rightarrow> bool \<times> Serial_Adapter \<times> byte" where
  "injectByte byteIn = (\<lambda>(c, op).
     case frameState c of
       AwaitingLen1 \<Rightarrow> (False, c\<lparr>frameLength := ucast byteIn, frameState := AwaitingLen2\<rparr>, op)
     | AwaitingLen2 \<Rightarrow>
         (let c1 = c\<lparr>frameLength := frameLength c OR push_bit 8 (ucast byteIn)\<rparr>
          in if frameLength c1 = 0 \<or> unat (frameLength c1) > MAX_PAYLOAD then (False, frame_reset c1, op)
             else (False, c1\<lparr>frameIndex := 0, frameState := AwaitingPayload\<rparr>, op))
     | AwaitingPayload \<Rightarrow>
         (if frameIndex c \<ge> MAX_PAYLOAD then (False, frame_reset c, op)
          else let c1 = c\<lparr>payloadBuffer := (payloadBuffer c)[frameIndex c := byteIn],
                          frameIndex := frameIndex c + 1\<rparr>
               in if frameIndex c1 \<ge> unat (frameLength c1) then (True, frame_reset c1, payloadBuffer c1 ! 0)
                  else (False, c1, op)))"

definition serial_health :: "env \<Rightarrow> Serial_Adapter \<times> 'a appnode_scheme
    \<Rightarrow> Serial_Adapter \<times> 'a appnode_scheme" where
  "serial_health E = (\<lambda>(c, s).
     let currentHopCount = ucast (getHopCount (mesh s)) :: u32
     in if currentHopCount \<noteq> lastReportedHopCount c
           \<or> now s - serialLastHealth s \<ge> HEALTH_REPORT_INTERVAL_MS
        then (c\<lparr>lastReportedHopCount := currentHopCount\<rparr>,
              sendHealthReport E (s\<lparr>serialLastHealth := now s\<rparr>))
        else (c, s))"

definition serial_loop :: "env \<Rightarrow> Adapter \<Rightarrow> byte list \<Rightarrow> Serial_Adapter \<times> 'a appnode_scheme
    \<Rightarrow> Serial_Adapter \<times> 'a appnode_scheme" where
  "serial_loop E a rx cs =
     (let cs' = serial_health E cs
      in if status (snd cs') = Running then serial_bytes E a rx cs' else cs')"

section \<open>Motion sensor adapter (PIR_Adapter.cpp)\<close>

definition pir_adapter_init :: "PIR_Adapter \<times> 'a appnode_scheme
    \<Rightarrow> bool \<times> PIR_Adapter \<times> 'a appnode_scheme" where
  "pir_adapter_init = (\<lambda>(p, s).
     if pirInitialized p then (True, p, s)
     else let (ok, hw, s1) = pir_init (pir_hw p, s)
          in if \<not> ok then (False, p\<lparr>pir_hw := hw\<rparr>, fail CONFIG M_ADAPTER 1 s1)
             else (True, p\<lparr>pir_hw := hw, interruptEnabled := True, pirInitialized := True\<rparr>,
                   snd (pir_attach hw (s1\<lparr>pirInstance := True\<rparr>))))"

text \<open>The interrupt handler.\<close>

definition detectMotion :: "PIR_Adapter \<times> 'a appnode_scheme \<Rightarrow> PIR_Adapter \<times> 'a appnode_scheme" where
  "detectMotion = (\<lambda>(p, s).
     if \<not> interruptEnabled p then (p, s)
     else (p\<lparr>pir_hw := signalMotion (pir_hw p), interruptEnabled := False\<rparr>,
           pir_detach (signalMotion (pir_hw p)) s))"

definition sendDataTrampoline :: "env \<Rightarrow> Adapter \<Rightarrow> u32 \<Rightarrow> byte list \<Rightarrow> 'a appnode_scheme
    \<Rightarrow> 'a appnode_scheme" where
  "sendDataTrampoline E a type data s =
     (if pirInstance s then sendDataThroughMesh E a type data s else s)"

definition sendNodeHealth :: "env \<Rightarrow> Adapter \<Rightarrow> 'a appnode_scheme \<Rightarrow> 'a appnode_scheme" where
  "sendNodeHealth E a s =
     sendDataTrampoline E a SERIAL_ADAPTER
       (health_data (OP_NODE_HEALTH (ops E)) PIR_ADAPTER (hw_mac E) (now s)) s"

definition pir_take_motion :: "u32 \<Rightarrow> PIR_Adapter \<Rightarrow> PIR_Adapter" where
  "pir_take_motion t p =
     (if motionDetected (pir_hw p)
      then p\<lparr>lastTrigger := t, timerActive := True, motionSent := False,
             pir_hw := clearMotion (pir_hw p)\<rparr>
      else p)"

definition pir_report :: "env \<Rightarrow> Adapter \<Rightarrow> PIR_Adapter \<times> 'a appnode_scheme
    \<Rightarrow> PIR_Adapter \<times> 'a appnode_scheme" where
  "pir_report E a = (\<lambda>(p, s).
     if timerActive p \<and> \<not> motionSent p
     then (p\<lparr>motionSent := True\<rparr>,
           sendDataTrampoline E a (adapterType a) (1 # replicate 63 0) s)
     else (p, s))"

text \<open>The flag is \<open>False\<close> where the source returns early.\<close>

definition pir_rearm :: "u32 \<Rightarrow> PIR_Adapter \<times> 'a appnode_scheme
    \<Rightarrow> bool \<times> PIR_Adapter \<times> 'a appnode_scheme" where
  "pir_rearm t = (\<lambda>(p, s).
     if timerActive p \<and> t - lastTrigger p > ucast (cooldownSeconds p) * 1000
     then let p1 = p\<lparr>timerActive := False, motionSent := False\<rparr>;
              (ok, s1) = pir_attach (pir_hw p1) s
          in if \<not> ok then (False, p1, fail HARDWARE M_ADAPTER 2 s1)
             else (True, p1\<lparr>interruptEnabled := True\<rparr>, s1)
     else (True, p, s))"

definition pir_loop :: "env \<Rightarrow> Adapter \<Rightarrow> PIR_Adapter \<times> 'a appnode_scheme
    \<Rightarrow> PIR_Adapter \<times> 'a appnode_scheme" where
  "pir_loop E a = (\<lambda>(p, s).
     if \<not> pirInitialized p then (p, s)
     else let t = now s;
              (p1, s1) = pir_report E a (pir_take_motion t p, s);
              (ok, p2, s2) = pir_rearm t (p1, s1)
          in if \<not> ok then (p2, s2)
             else if t - lastHealthMillis p2 \<ge> HEALTH_REPORT_INTERVAL_MS
             then (p2\<lparr>lastHealthMillis := t\<rparr>, sendNodeHealth E a s2)
             else (p2, s2))"

section \<open>Virtual calls on the adapter of the device\<close>

definition adapter_init :: "'a appnode_scheme \<Rightarrow> bool \<times> 'a appnode_scheme" where
  "adapter_init s =
     (case adapter s of
        None \<Rightarrow> (False, fault s)
      | Some a \<Rightarrow>
          (case a_class a of
             Serial_Class c \<Rightarrow> (True, s)
           | PIR_Class p \<Rightarrow>
               (let (ok, p', s') = pir_adapter_init (p, s)
                in (ok, s'\<lparr>adapter := Some (a\<lparr>a_class := PIR_Class p'\<rparr>)\<rparr>))))"

definition adapter_loop :: "env \<Rightarrow> byte list \<Rightarrow> 'a appnode_scheme \<Rightarrow> 'a appnode_scheme" where
  "adapter_loop E rx s =
     (case adapter s of
        None \<Rightarrow> s
      | Some a \<Rightarrow>
          (case a_class a of
             Serial_Class c \<Rightarrow>
               (let (c', s') = serial_loop E a rx (c, s)
                in s'\<lparr>adapter := Some (a\<lparr>a_class := Serial_Class c'\<rparr>)\<rparr>)
           | PIR_Class p \<Rightarrow>
               (let (p', s') = pir_loop E a (p, s)
                in s'\<lparr>adapter := Some (a\<lparr>a_class := PIR_Class p'\<rparr>)\<rparr>)))"

text \<open>The motion interrupt of the device.\<close>

definition detectMotionTrampoline :: "'a appnode_scheme \<Rightarrow> 'a appnode_scheme" where
  "detectMotionTrampoline s =
     (if \<not> pirInstance s then s
      else case adapter s of
        None \<Rightarrow> s
      | Some a \<Rightarrow>
          (case a_class a of
             Serial_Class c \<Rightarrow> s
           | PIR_Class p \<Rightarrow>
               (let (p', s') = detectMotion (p, s)
                in s'\<lparr>adapter := Some (a\<lparr>a_class := PIR_Class p'\<rparr>)\<rparr>)))"

end
