(* ===== verification/Adapter_Lemmas.thy ===== *)
theory Adapter_Lemmas
  imports Adapters Mesh_Loop Mesh_Pb_Lemmas
begin

text \<open>
  The adapters keep the invariant of the mesh node: what they send are whole messages, and neither
  the receive callback nor the enrollment relay touches the receive ring.
\<close>

section \<open>Effects that are not radio frames\<close>

lemma node_inv_cong:
  "mesh s' = mesh s \<Longrightarrow> radio_log s' = radio_log s \<Longrightarrow> node_inv s' = node_inv s"
  by (simp add: node_inv_def)

definition is_frame :: "effect \<Rightarrow> bool" where
  "is_frame e \<longleftrightarrow> (case e of RadioSend a bs \<Rightarrow> True | _ \<Rightarrow> False)"

lemma is_frame_simps [simp]:
  "\<not> is_frame (SerialWrite bs)" "\<not> is_frame (RadioPower v)" "\<not> is_frame (RadioPmk k)"
  "\<not> is_frame (PinWrite p b)" "\<not> is_frame (PinMode p md)" "\<not> is_frame (AttachIrq p)"
  "\<not> is_frame (DetachIrq p)" "\<not> is_frame (Segments bs)" "\<not> is_frame (FailCode c)"
  by (simp_all add: is_frame_def)

lemma radio_log_emit_other: "\<not> is_frame e \<Longrightarrow> radio_log (emit e s) = radio_log s"
  by (simp add: is_frame_def split: effect.splits)

lemma node_inv_emit [simp]: "\<not> is_frame e \<Longrightarrow> node_inv (emit e s) = node_inv s"
  by (rule node_inv_cong) (simp_all add: radio_log_emit_other del: radio_log_emit)

lemma node_inv_halt [simp]: "node_inv (restart s) = node_inv s" "node_inv (hang s) = node_inv s"
  by (rule node_inv_cong; simp add: node_more_fields(1) [OF node_more_halt(1)])+

lemma radio_log_greenLed_blink [simp]: "radio_log (greenLed_blink n on off s) = radio_log s"
proof -
  have "radio_log (r\<lparr>greenLed := l\<rparr>) = radio_log r" for l and r :: "'a node_scheme"
    by (rule radio_log_cong) simp
  then show ?thesis
    by (auto simp: greenLed_blink_def led_guard_def dest: radio_log_blink_loop split: prod.splits)
qed

lemma radio_log_redLed_blink [simp]: "radio_log (redLed_blink n on off s) = radio_log s"
proof -
  have "radio_log (r\<lparr>redLed := l\<rparr>) = radio_log r" for l and r :: "'a node_scheme"
    by (rule radio_log_cong) simp
  then show ?thesis
    by (auto simp: redLed_blink_def blink_red_def led_guard_def dest: radio_log_blink_loop
        split: prod.splits)
qed

lemma redLed_blink_more [simp]: "node.more (redLed_blink n on off s) = node.more s"
  by (simp add: redLed_blink_def led_guard_def)

lemma blink_fields [simp]:
  "mesh (greenLed_blink n on off s) = mesh s" "ee (greenLed_blink n on off s) = ee s"
  "mesh (redLed_blink n on off s) = mesh s" "ee (redLed_blink n on off s) = ee s"
  by (rule node_more_fields; simp)+

lemma node_inv_blink [simp]:
  "node_inv (greenLed_blink n on off s) = node_inv s"
  "node_inv (redLed_blink n on off s) = node_inv s"
  by (rule node_inv_cong; simp)+

lemma restart_fields [simp]: "mesh (restart s) = mesh s" "ee (restart s) = ee s"
  by (rule node_more_fields; simp)+

lemma appnode_fields [simp]:
  "radio_log (s\<lparr>serialLastHealth := t\<rparr>) = radio_log s" "radio_log (s\<lparr>adapter := a\<rparr>) = radio_log s"
  "radio_log (s\<lparr>pirInstance := b\<rparr>) = radio_log s" "radio_log (s\<lparr>factoryDevMode := b\<rparr>) = radio_log s"
  by (rule radio_log_cong; simp)+

lemma node_inv_appnode [simp]:
  "node_inv (s\<lparr>serialLastHealth := t\<rparr>) = node_inv s" "node_inv (s\<lparr>adapter := a\<rparr>) = node_inv s"
  "node_inv (s\<lparr>pirInstance := b\<rparr>) = node_inv s" "node_inv (s\<lparr>factoryDevMode := b\<rparr>) = node_inv s"
  by (rule node_inv_cong; simp)+

section \<open>The serial adapter keeps the invariant\<close>

lemma node_inv_sendDataThroughMesh: "node_inv s \<Longrightarrow> node_inv (sendDataThroughMesh E a t d s)"
  by (simp add: sendDataThroughMesh_def node_inv_transmit)

lemma node_inv_sendHealthReport: "node_inv s \<Longrightarrow> node_inv (sendHealthReport E s)"
  by (simp add: sendHealthReport_def node_inv_transmit)

lemma node_inv_broadcastAdapterData: "node_inv s \<Longrightarrow> node_inv (broadcastAdapterData E t d s)"
  by (auto simp: broadcastAdapterData_def buildMessage_inv intro!: node_inv_broadcast split: option.split)

lemma node_inv_serial_frame [simp]: "node_inv (serial_frame bs s) = node_inv s"
  by (simp add: serial_frame_def)

lemma node_inv_apply_preset [simp]: "node_inv (apply_preset E p s) = node_inv s"
  by (simp add: apply_preset_def Let_def)

lemma node_inv_config_set [simp]: "node_inv (config_set E tgt raw s) = node_inv s"
  by (simp add: config_set_def saveAdapterTypeToEEPROM_def)

lemma node_inv_node_id_set [simp]: "node_inv (node_id_set E msg s) = node_inv s"
  by (simp add: node_id_set_def)

lemma node_inv_serial_onMeshDataImpl: "node_inv s \<Longrightarrow> node_inv (serial_onMeshDataImpl E msg s)"
  by (auto simp: serial_onMeshDataImpl_def serial_control_def Let_def
      intro!: andthen_invariant [where P = node_inv] node_inv_sendHealthReport)

lemma node_inv_onMeshData: "node_inv s \<Longrightarrow> node_inv (onMeshData E a msg s)"
  by (auto simp: onMeshData_def onMeshData_typed_def onMeshDataImpl_def led_command_def Let_def
      intro!: andthen_invariant [where P = node_inv] node_inv_serial_onMeshDataImpl
        node_inv_sendDataThroughMesh split: adapter_class.split)

lemma node_inv_relayEnrollment [simp]: "node_inv (relayEnrollmentToServer a k s) = node_inv s"
  by (simp add: relayEnrollmentToServer_def Let_def)

lemma relay_keeps: "relay_keeps_inv (Some relayEnrollmentToServer)"
  by (simp add: relay_keeps_inv_def)

lemma node_inv_frame_control: "node_inv s \<Longrightarrow> node_inv (frame_control E msg s)"
  by (auto simp: frame_control_def Let_def intro!: node_inv_sendHealthReport node_inv_broadcastAdapterData)

lemma node_inv_forward_frame: "node_inv s \<Longrightarrow> node_inv (forward_frame E a msg s)"
  by (simp add: forward_frame_def node_inv_transmit node_inv_broadcastAdapterData)

lemma node_inv_handleCompleteFrame:
  assumes "node_inv s"
  shows "node_inv (handleCompleteFrame E a data s)"
proof (cases "decodeMeshMessage (hw_mac E) data")
  case (Some msg)
  have "length (enrollmentPublicKey msg) = 32"
    using decode_mesh_wf [OF Some] by (simp add: message_wf_def)
  with assms Some show ?thesis
    by (auto simp: handleCompleteFrame_def
        intro!: andthen_invariant [where P = node_inv] node_inv_enrollPeer node_inv_forward_frame
          node_inv_frame_control)
qed (simp add: handleCompleteFrame_def assms)

lemma node_inv_frame_byte: "node_inv (snd cs) \<Longrightarrow> node_inv (snd (frame_byte E a b cs))"
  by (cases cs)
    (auto simp: frame_byte_def Let_def node_inv_handleCompleteFrame split: FrameState.split)

lemma node_inv_serial_bytes: "node_inv (snd cs) \<Longrightarrow> node_inv (snd (serial_bytes E a rx cs))"
  by (induction rx arbitrary: cs) (simp_all add: Let_def node_inv_frame_byte)

lemma node_inv_serial_loop: "node_inv (snd cs) \<Longrightarrow> node_inv (snd (serial_loop E a rx cs))"
  by (cases cs)
    (auto simp: serial_loop_def serial_health_def Let_def intro!: node_inv_serial_bytes
      node_inv_sendHealthReport)

section \<open>The motion sensor adapter keeps the invariant\<close>

lemma pir_attach_inv [simp]: "node_inv (snd (pir_attach p s)) = node_inv s"
  by (simp add: pir_attach_def)

lemma pir_detach_inv [simp]: "node_inv (pir_detach p s) = node_inv s"
  by (simp add: pir_detach_def)

lemma node_inv_sendDataTrampoline: "node_inv s \<Longrightarrow> node_inv (sendDataTrampoline E a t d s)"
  by (simp add: sendDataTrampoline_def node_inv_sendDataThroughMesh)

lemma node_inv_pir_loop: "node_inv (snd ps) \<Longrightarrow> node_inv (snd (pir_loop E a ps))"
proof (cases ps)
  case (Pair p s)
  assume inv: "node_inv (snd ps)"
  obtain p1 s1 where r: "pir_report E a (pir_take_motion (now s) p, s) = (p1, s1)"
    by (cases "pir_report E a (pir_take_motion (now s) p, s)")
  obtain ok p2 s2 where m: "pir_rearm (now s) (p1, s1) = (ok, p2, s2)"
    by (cases "pir_rearm (now s) (p1, s1)")
  have "node_inv s1"
    using inv r Pair by (auto simp: pir_report_def intro: node_inv_sendDataTrampoline split: if_splits)
  moreover have "node_inv s2 = node_inv s1"
    using m by (auto simp: pir_rearm_def pir_attach_def Let_def split: if_splits)
  ultimately show ?thesis
    using inv Pair r m by (simp add: pir_loop_def Let_def sendNodeHealth_def node_inv_sendDataTrampoline)
qed

lemma node_inv_detectMotion: "node_inv (snd ps) \<Longrightarrow> node_inv (snd (detectMotion ps))"
  by (cases ps) (simp add: detectMotion_def)

lemma node_inv_detectMotionTrampoline: "node_inv s \<Longrightarrow> node_inv (detectMotionTrampoline s)"
  using node_inv_detectMotion [of "(_, s)"]
  by (auto simp: detectMotionTrampoline_def split: option.split adapter_class.split prod.split)
    (metis snd_conv)

lemma node_inv_adapter_loop: "node_inv s \<Longrightarrow> node_inv (adapter_loop E rx s)"
  using node_inv_serial_loop [of "(_, s)"] node_inv_pir_loop [of "(_, s)"]
  by (auto simp: adapter_loop_def split: option.split adapter_class.split prod.split) (metis snd_conv)+

section \<open>The receive callback leaves the ring alone\<close>

lemma ring_of_txSeqNum [simp]: "ring_of (m\<lparr>txSeqNum := n\<rparr>) = ring_of m"
  by (simp add: ring_of_def)

lemma buildMessage_state: "buildMessage t d k m = Some (msg, m') \<Longrightarrow> \<exists>n. m' = m\<lparr>txSeqNum := n\<rparr>"
  by (auto simp: buildMessage_def Let_def split: option.splits if_splits)

lemma transmit_mesh: "\<exists>n. mesh (transmit E t d s) = (mesh s)\<lparr>txSeqNum := n\<rparr>"
proof -
  have id: "\<exists>n. m = m\<lparr>txSeqNum := n\<rparr>" for m :: mesh_state
    by (rule exI [of _ "txSeqNum m"]) simp
  show ?thesis
    using id buildMessage_state
    by (fastforce simp: transmit_def broadcastAdapterData_def transmitCore_def split: option.split)
qed

lemma ring_of_transmit [simp]: "ring_of (mesh (transmit E t d s)) = ring_of (mesh s)"
  using transmit_mesh [of E t d s] by auto

lemma apply_preset_mesh [simp]: "mesh (apply_preset E p s) = mesh s"
  by (simp add: apply_preset_def Let_def)

lemma serial_frame_fields [simp]:
  "mesh (serial_frame bs s) = mesh s" "ee (serial_frame bs s) = ee s"
  "status (serial_frame bs s) = status s"
  by (simp_all add: serial_frame_def)

lemma ring_of_sendDataThroughMesh [simp]:
  "ring_of (mesh (sendDataThroughMesh E a t d s)) = ring_of (mesh s)"
  by (simp add: sendDataThroughMesh_def)

lemma ring_of_onMeshData: "ring_of (mesh (onMeshData E a msg s)) = ring_of (mesh s)"
  by (auto simp: onMeshData_def onMeshData_typed_def onMeshDataImpl_def serial_onMeshDataImpl_def
      serial_control_def sendHealthReport_def led_command_def config_set_def node_id_set_def
      saveAdapterTypeToEEPROM_def Let_def
      intro!: andthen_frame [where h = "\<lambda>s. ring_of (mesh s)"] split: adapter_class.split)

end
