(* ===== verification/Serial_Props.thy ===== *)
theory Serial_Props
  imports Adapter_Lemmas
begin

text \<open>
  The serial adapter: its byte-wise frame parser against a specification on whole frames, the
  bounds of its buffer, and the size of what it relays to the server.
\<close>

section \<open>The parser's invariant\<close>

definition parser_wf :: "Serial_Adapter \<Rightarrow> bool" where
  "parser_wf c \<longleftrightarrow> length (payloadBuffer c) = MAX_PAYLOAD
     \<and> (frameState c = AwaitingLen2 \<longrightarrow> unat (frameLength c) < 256)
     \<and> (frameState c = AwaitingPayload \<longrightarrow>
          frameIndex c < unat (frameLength c) \<and> unat (frameLength c) \<le> MAX_PAYLOAD)"

definition parser_idle :: "Serial_Adapter \<Rightarrow> bool" where
  "parser_idle c \<longleftrightarrow> parser_wf c \<and> frameState c = AwaitingLen1"

lemma parser_new [simp]: "parser_idle new_Serial_Adapter"
  by (simp add: parser_idle_def parser_wf_def new_Serial_Adapter_def)

lemma parser_reset [simp]: "parser_wf c \<Longrightarrow> parser_idle (frame_reset c)"
  by (simp add: parser_idle_def parser_wf_def frame_reset_def)

lemma frame_byte_wf: "parser_wf (fst cs) \<Longrightarrow> parser_wf (fst (frame_byte E a b cs))"
  using unat_byte_less [of b]
  by (cases cs)
    (auto simp: frame_byte_def parser_wf_def frame_reset_def Let_def unat_gt_0 split: FrameState.split)

lemma serial_bytes_wf: "parser_wf (fst cs) \<Longrightarrow> parser_wf (fst (serial_bytes E a rx cs))"
  by (induction rx arbitrary: cs) (simp_all add: Let_def frame_byte_wf)

section \<open>Whole frames\<close>

definition frame_of :: "byte list \<Rightarrow> byte list" where
  "frame_of p = le_bytes 2 (of_nat (length p) :: u16) @ p"

lemma serial_bytes_append:
  "serial_bytes E a (xs @ ys) cs =
     (let cs' = serial_bytes E a xs cs
      in if status (snd cs') = Running \<or> xs = [] then serial_bytes E a ys cs' else cs')"
  by (induction xs arbitrary: cs) (auto simp: Let_def)

text \<open>The payload loop: the bytes go to the buffer one after the other.\<close>

lemma serial_bytes_payload:
  assumes "parser_wf c" "frameState c = AwaitingPayload" "p \<noteq> []"
    and "frameIndex c + length p = unat (frameLength c)" and "status s = Running"
  shows "\<exists>c'. serial_bytes E a p (c, s) = (c', handleCompleteFrame E a (take (frameIndex c) (payloadBuffer c) @ p) s)
     \<and> parser_idle c'"
  using assms(1-4)
proof (induction p arbitrary: c)
  case (Cons b p)
  define c1 where "c1 = c\<lparr>payloadBuffer := (payloadBuffer c)[frameIndex c := b],
      frameIndex := frameIndex c + 1\<rparr>"
  have idx: "frameIndex c < 256" and len: "length (payloadBuffer c) = 256"
    and fl: "unat (frameLength c) \<le> 256"
    using Cons.prems by (auto simp: parser_wf_def)
  have tk: "take (frameIndex c + 1) (payloadBuffer c1) = take (frameIndex c) (payloadBuffer c) @ [b]"
    using take_update_append [of "frameIndex c" "payloadBuffer c" b] idx len by (simp add: c1_def)
  have wf1: "parser_wf (frame_reset c1)" using len by (simp add: c1_def parser_wf_def frame_reset_def)
  show ?case
  proof (cases "p = []")
    case True
    then have n: "unat (frameLength c) = frameIndex c + 1" using Cons.prems(4) by simp
    have "frame_byte E a b (c, s)
        = (frame_reset c1, handleCompleteFrame E a (take (frameIndex c) (payloadBuffer c) @ [b]) s)"
      using idx Cons.prems(2) tk n
      by (simp add: frame_byte_def Let_def c1_def [symmetric]) (simp add: c1_def)
    moreover have "parser_idle (frame_reset c1)"
      using wf1 by (simp add: parser_idle_def frame_reset_def)
    ultimately show ?thesis using True by (auto simp: Let_def)
  next
    case False
    have step: "frame_byte E a b (c, s) = (c1, s)"
      using idx Cons.prems(2,4) False
      by (cases p) (simp_all add: frame_byte_def Let_def c1_def)
    have "parser_wf c1"
      using Cons.prems(4) False len fl
      by (cases p) (auto simp: c1_def parser_wf_def Cons.prems(2))
    moreover have "frameState c1 = AwaitingPayload" "frameIndex c1 + length p = unat (frameLength c1)"
      using Cons.prems(2,4) by (simp_all add: c1_def)
    ultimately obtain c' where "serial_bytes E a p (c1, s)
        = (c', handleCompleteFrame E a (take (frameIndex c1) (payloadBuffer c1) @ p) s) \<and> parser_idle c'"
      using Cons.IH [of c1] False by blast
    moreover have "take (frameIndex c1) (payloadBuffer c1) = take (frameIndex c) (payloadBuffer c) @ [b]"
      using tk by (simp add: c1_def)
    ultimately show ?thesis using step assms(5) by (simp add: Let_def)
  qed
qed simp

lemma two_byte_length:
  assumes "n \<le> 256"
  shows "(ucast (ucast (of_nat n :: u16) :: byte) :: u16)
     OR push_bit 8 (ucast (ucast (drop_bit 8 (of_nat n :: u16)) :: byte)) = of_nat n"
  by (rule bit_word_eqI) (auto simp: bit_simps)

lemma serial_bytes_frame:
  assumes "parser_idle c" "p \<noteq> []" "length p \<le> MAX_PAYLOAD" "status s = Running"
  shows "\<exists>c'. serial_bytes E a (frame_of p) (c, s) = (c', handleCompleteFrame E a p s) \<and> parser_idle c'"
proof -
  let ?n = "of_nat (length p) :: u16"
  have u: "unat ?n = length p" using assms(3) by (simp add: unsigned_of_nat take_bit_nat_eq_self)
  then have nz: "?n \<noteq> 0" using assms(2) by (metis length_0_conv unsigned_0)
  define c1 where "c1 = c\<lparr>frameLength := ucast (ucast ?n :: byte), frameState := AwaitingLen2\<rparr>"
  define c2 where "c2 = c1\<lparr>frameLength := ?n, frameIndex := 0, frameState := AwaitingPayload\<rparr>"
  have "frame_byte E a (ucast ?n) (c, s) = (c1, s)"
    using assms(1) by (simp add: frame_byte_def parser_idle_def c1_def)
  moreover have "frame_byte E a (ucast (drop_bit 8 ?n)) (c1, s) = (c2, s)"
    using two_byte_length [OF assms(3)] nz u assms(3)
    by (simp add: frame_byte_def c1_def c2_def Let_def)
  moreover have wf2: "parser_wf c2"
    using assms u by (auto simp: c2_def c1_def parser_wf_def parser_idle_def)
  obtain c' where "serial_bytes E a p (c2, s)
      = (c', handleCompleteFrame E a (take (frameIndex c2) (payloadBuffer c2) @ p) s)" "parser_idle c'"
    using serial_bytes_payload [OF wf2 _ assms(2) _ assms(4), of E a] u by (auto simp: c2_def)
  ultimately show ?thesis
    using assms(4) by (simp add: frame_of_def le_bytes_u16 Let_def c2_def)
qed

text \<open>The specification: the frames one after the other, until one stops the device.\<close>

fun handle_frames :: "env \<Rightarrow> Adapter \<Rightarrow> byte list list \<Rightarrow> 'a appnode_scheme \<Rightarrow> 'a appnode_scheme" where
  "handle_frames E a [] s = s"
| "handle_frames E a (p # ps) s = andthen (handleCompleteFrame E a p) (handle_frames E a ps) s"

lemma serial_bytes_frames:
  assumes "parser_idle c" "\<forall>p \<in> set ps. p \<noteq> [] \<and> length p \<le> MAX_PAYLOAD" "status s = Running"
  shows "\<exists>c'. serial_bytes E a (concat (map frame_of ps)) (c, s) = (c', handle_frames E a ps s)
     \<and> parser_idle c'"
  using assms
proof (induction ps arbitrary: c s)
  case (Cons p ps)
  obtain c' where f: "serial_bytes E a (frame_of p) (c, s) = (c', handleCompleteFrame E a p s)" "parser_idle c'"
    using serial_bytes_frame [of c p s E a] Cons.prems by auto
  have ne: "frame_of p \<noteq> []" using Cons.prems(2) by (simp add: frame_of_def)
  show ?case
  proof (cases "status (handleCompleteFrame E a p s) = Running")
    case True
    from Cons.IH [OF f(2) _ True] Cons.prems(2) show ?thesis
      by (auto simp: serial_bytes_append f True)
  next
    case False
    with f ne show ?thesis by (auto simp: serial_bytes_append)
  qed
qed simp


section \<open>Properties\<close>

text \<open>A concrete device for the witnesses.\<close>

definition serial_adapter :: Adapter where
  "serial_adapter = \<lparr>a_pin = -1, adapterType = SERIAL_ADAPTER, transmitSet = True,
     a_class = Serial_Class new_Serial_Adapter\<rparr>"

definition serial_device :: appnode where
  "serial_device = \<lparr>now = 10000, status = Running, out = [], redLed = Led 33, greenLed = Led 26,
     errorLedSet = False, displaySet = False, ecInitialized = False, pendingBlink = False,
     pendingBlinkType = E_GENERIC, inCallbackContext = False, ee = ee_blank, mesh = Mesh,
     espPeers = [], adapter = Some serial_adapter, factoryDevMode = False, serialLastHealth = 0,
     pirInstance = False\<rparr>"



text \<open>
  Whatever bytes arrive, the buffer index stays below the announced length, which is at most the
  256 bytes of the buffer: no store is outside it, and the buffer-overflow error (COMM, ADAPTER, 3)
  cannot occur.
\<close>
theorem frame_buffer_in_bounds:
  "let c = fst (serial_bytes E a rx (new_Serial_Adapter, s))
   in length (payloadBuffer c) = 256
      \<and> (frameState c = AwaitingPayload \<longrightarrow> frameIndex c < unat (frameLength c)
                                           \<and> unat (frameLength c) \<le> 256)"
  using serial_bytes_wf [of "(new_Serial_Adapter, s)" E a rx] parser_new
  by (simp add: parser_wf_def parser_idle_def Let_def)

theorem frame_buffer_in_bounds_witness:
  "let c = fst (serial_bytes (quiet_env zero_mac) serial_adapter [5, 0, 7] (new_Serial_Adapter, serial_device))
   in frameState c = AwaitingPayload \<and> frameIndex c < unat (frameLength c) \<and> unat (frameLength c) \<le> 256"
proof -
  have "frameState (fst (serial_bytes (quiet_env zero_mac) serial_adapter [5, 0, 7]
      (new_Serial_Adapter, serial_device))) = AwaitingPayload"
    by (simp add: frame_byte_def new_Serial_Adapter_def serial_device_def Let_def)
  with frame_buffer_in_bounds [of "quiet_env zero_mac" serial_adapter "[5, 0, 7]" serial_device]
  show ?thesis by (simp only: Let_def simp_thms)
qed

lemmas field_computation = field_bytes_def omitted_def pb_check_proto3_default_value_def packable_def
  u32_cell_def tag_bytes_def leb128.simps unsigned_value_def le_bytes_u32

lemma relay_fields:
  "field_bytes (singular 2 SVARINT 4) (u32_cell 0) = []"
  "field_bytes (singular 7 UVARINT 4) (u32_cell 0) = []"
  "field_bytes (singular 8 UVARINT 4) (u32_cell 0) = []"
  "field_bytes (singular 9 UVARINT 4) (u32_cell 0) = []"
  "field_bytes (singular 1 UVARINT 4) (u32_cell 2) = [8, 2]"
  "field_bytes (singular 10 UVARINT 4) (u32_cell 1) = [80, 1]"
  by (simp_all add: field_computation)

text \<open>
  The enrollment request relayed to the server fills its 128-byte buffer exactly: with a non-zero
  public key the encoding has 128 bytes, and a buffer one byte shorter gets nothing.
\<close>
theorem enrollment_relay_exact:
  assumes "length pubKey = 32" and "list_ex (\<lambda>b. b \<noteq> 0) pubKey"
  shows "length (encodeMeshMessage (relay_message mac pubKey) 128) = 128
     \<and> encodeMeshMessage (relay_message mac pubKey) 127 = []"
proof -
  let ?m = "to_pb (relay_message mac pubKey)"
  have wf: "message_wf (relay_message mac pubKey)"
    using assms(1) by (simp add: relay_message_def message_wf_def)
  have "length (message_bytes_pb (field_list mesh_MeshMessage_fields) (mesh_cells ?m)) = 128"
    using assms
    by (simp add: message_bytes_pb_def mesh_fields_simps mesh_cells_def mac_field_length
        bytes_field_length to_pb_def relay_message_def mesh_MeshMessage_init_zero_def relay_fields)
  then show ?thesis by (simp add: encodeMeshMessage_bytes [OF wf])
qed

theorem enrollment_relay_exact_witness:
  "length (encodeMeshMessage (relay_message (MAC 1 2 3 4 5 6) (replicate 32 9)) 128) = 128
     \<and> encodeMeshMessage (relay_message (MAC 1 2 3 4 5 6) (replicate 32 9)) 127 = []"
  by (rule enrollment_relay_exact) (simp_all add: list_ex_iff)

section \<open>The unit-test hook of the serial parser\<close>

text \<open>
  \<open>injectByte\<close>, which the unit tests drive instead of \<open>loop\<close>, has the same transitions: the state
  after a byte is the production parser's, and it answers \<open>true\<close> exactly when the production
  parser hands a frame on.
\<close>
theorem test_hook_is_parser:
  "fst (frame_byte E a b (c, s)) = fst (snd (injectByte b (c, l)))
   \<and> snd (frame_byte E a b (c, s)) =
       (if fst (injectByte b (c, l))
        then handleCompleteFrame E a (take (unat (frameLength c)) ((payloadBuffer c)[frameIndex c := b])) s
        else if frameState (fst (snd (injectByte b (c, l)))) = AwaitingLen1
        then fail COMM M_ADAPTER (if frameState c = AwaitingLen2 then 2 else 3) s
        else s)"
  by (auto simp: frame_byte_def injectByte_def frame_reset_def Let_def split: FrameState.split)

end
