(* ===== verification/Pir_Props.thy ===== *)
theory Pir_Props
  imports Serial_Props
begin

text \<open>
  The motion sensor adapter as a machine with three phases: armed, triggered by the interrupt,
  cooling down after a report. The adapter's flags implement it.
\<close>

section \<open>The abstract machine\<close>

datatype pir_phase = Armed | Triggered | Cooling u32

text \<open>One round of the loop at time \<open>t\<close>: is motion reported, and the next phase.\<close>

fun pir_spec :: "u32 \<Rightarrow> pir_phase \<Rightarrow> bool \<times> pir_phase" where
  "pir_spec t Armed = (False, Armed)"
| "pir_spec t Triggered = (True, Cooling t)"
| "pir_spec t (Cooling t0) = (False, if t - t0 > 3000 then Armed else Cooling t0)"

definition phase_of :: "PIR_Adapter \<Rightarrow> pir_phase" where
  "phase_of p = (if interruptEnabled p then Armed
     else if motionDetected (pir_hw p) then Triggered else Cooling (lastTrigger p))"

definition pir_inv :: "PIR_Adapter \<Rightarrow> bool" where
  "pir_inv p \<longleftrightarrow> pirInitialized p \<and> in_initialized (pir_hw p) \<and> cooldownSeconds p = 3
     \<and> (case phase_of p of
          Armed \<Rightarrow> \<not> motionDetected (pir_hw p) \<and> \<not> timerActive p
        | Triggered \<Rightarrow> \<not> timerActive p
        | Cooling t \<Rightarrow> timerActive p \<and> motionSent p)"

section \<open>Refinement\<close>

lemma phase_cases:
  assumes "pir_inv p"
  obtains (Armed) "phase_of p = Armed" "interruptEnabled p" "\<not> motionDetected (pir_hw p)" "\<not> timerActive p"
  | (Triggered) "phase_of p = Triggered" "\<not> interruptEnabled p" "motionDetected (pir_hw p)" "\<not> timerActive p"
  | (Cooling) "phase_of p = Cooling (lastTrigger p)" "\<not> interruptEnabled p"
      "\<not> motionDetected (pir_hw p)" "timerActive p" "motionSent p"
  using assms by (auto simp: pir_inv_def phase_of_def split: if_splits)

lemma pir_inv_fixed:
  "pir_inv p \<Longrightarrow> pirInitialized p" "pir_inv p \<Longrightarrow> in_initialized (pir_hw p)"
  "pir_inv p \<Longrightarrow> cooldownSeconds p = 3"
  by (simp_all add: pir_inv_def)

lemma detectMotion_refines:
  assumes "pir_inv p"
  shows "pir_inv (fst (detectMotion (p, s)))"
    and "phase_of (fst (detectMotion (p, s))) = (if phase_of p = Armed then Triggered else phase_of p)"
  using assms pir_inv_fixed [OF assms]
  by (cases rule: phase_cases [OF assms];
      simp add: detectMotion_def phase_of_def pir_inv_def signalMotion_def)+

text \<open>What a round does to the rest of the device.\<close>

definition health_due :: "u32 \<Rightarrow> PIR_Adapter \<Rightarrow> bool" where
  "health_due t p \<longleftrightarrow> t - lastHealthMillis p \<ge> HEALTH_REPORT_INTERVAL_MS"

definition pir_effects :: "env \<Rightarrow> Adapter \<Rightarrow> PIR_Adapter \<Rightarrow> 'a appnode_scheme \<Rightarrow> 'a appnode_scheme" where
  "pir_effects E a p s =
     (let s1 = (if fst (pir_spec (now s) (phase_of p))
                then sendDataTrampoline E a (adapterType a) (1 # replicate 63 0) s else s);
          s2 = (if phase_of p \<noteq> Armed \<and> snd (pir_spec (now s) (phase_of p)) = Armed
                then emit (AttachIrq (in_pin (pir_hw p))) s1 else s1)
      in if health_due (now s) p then sendNodeHealth E a s2 else s2)"

lemma pir_loop_refines:
  assumes "pir_inv p"
  shows "pir_inv (fst (pir_loop E a (p, s)))"
    and "phase_of (fst (pir_loop E a (p, s))) = snd (pir_spec (now s) (phase_of p))"
    and "snd (pir_loop E a (p, s)) = pir_effects E a p s"
  using assms pir_inv_fixed [OF assms]
  by (cases rule: phase_cases [OF assms];
      simp add: pir_loop_def pir_take_motion_def pir_report_def pir_rearm_def pir_attach_def
        clearMotion_def phase_of_def pir_inv_def pir_effects_def health_due_def Let_def)+

lemma pir_adapter_init_armed:
  assumes "pir_adapter_init (new_PIR_Adapter pin, s) = (True, p, s')"
  shows "pir_inv p" "phase_of p = Armed"
  using assms
  by (auto simp: pir_adapter_init_def new_PIR_Adapter_def Pir_def pir_init_def pir_inv_def phase_of_def
      split: if_splits)

section \<open>Reports\<close>

text \<open>The guard of the report: the source's condition after the motion flag was taken.\<close>

definition report_due :: "u32 \<Rightarrow> PIR_Adapter \<Rightarrow> bool" where
  "report_due t p \<longleftrightarrow> pirInitialized p
     \<and> timerActive (pir_take_motion t p) \<and> \<not> motionSent (pir_take_motion t p)"

lemma report_due_phase:
  assumes "pir_inv p"
  shows "report_due t p \<longleftrightarrow> phase_of p = Triggered"
  using assms pir_inv_fixed [OF assms]
  by (cases rule: phase_cases [OF assms]; simp add: report_due_def pir_take_motion_def)

text \<open>
  Rounds of the loop, each on a device state of its own and after an interrupt or not: in which of
  them is motion reported.
\<close>

fun pir_rounds :: "env \<Rightarrow> Adapter \<Rightarrow> PIR_Adapter \<Rightarrow> (bool \<times> 'a appnode_scheme) list \<Rightarrow> bool list" where
  "pir_rounds E a p [] = []"
| "pir_rounds E a p ((irq, s) # rs) =
     (let p1 = (if irq then fst (detectMotion (p, s)) else p)
      in report_due (now s) p1 # pir_rounds E a (fst (pir_loop E a (p1, s))) rs)"

lemma rounds_cooling:
  assumes "pir_inv p" "phase_of p = Cooling t" "\<forall>(irq, s) \<in> set rs. now s - t \<le> 3000"
  shows "pir_rounds E a p rs = replicate (length rs) False"
  using assms
proof (induction rs arbitrary: p)
  case (Cons r rs)
  obtain irq s where r: "r = (irq, s)" by (cases r)
  define p1 where "p1 = (if irq then fst (detectMotion (p, s)) else p)"
  have p1: "pir_inv p1" "phase_of p1 = Cooling t"
    using detectMotion_refines [OF Cons.prems(1), of s] Cons.prems(1,2) by (auto simp: p1_def)
  have "\<not> report_due (now s) p1" using report_due_phase [OF p1(1)] p1(2) by simp
  moreover have "phase_of (fst (pir_loop E a (p1, s))) = Cooling t"
    using pir_loop_refines(2) [OF p1(1), of E a s] p1(2) Cons.prems(3) by (auto simp: r)
  ultimately show ?case
    using Cons.IH [OF pir_loop_refines(1) [OF p1(1), of E a s]] Cons.prems(3)
    by (simp add: r Let_def flip: p1_def)
qed simp



text \<open>
  C27. A round of the sensor's loop is one step of the three-phase machine, and what it does to the
  device is exactly: the report if triggered, re-attaching the interrupt when the cool-down is
  over, the health record if due.
\<close>
theorem pir_loop_is_machine:
  assumes "pir_inv p"
  shows "pir_inv (fst (pir_loop E a (p, s)))
     \<and> phase_of (fst (pir_loop E a (p, s))) = snd (pir_spec (now s) (phase_of p))
     \<and> snd (pir_loop E a (p, s)) = pir_effects E a p s"
  using pir_loop_refines [OF assms] by blast

theorem pir_loop_is_machine_witness:
  "\<exists>p s'. pir_adapter_init (new_PIR_Adapter 27, serial_device) = (True, p, s')
     \<and> phase_of (fst (pir_loop (quiet_env zero_mac) serial_adapter (p, s'))) = Armed"
proof -
  obtain p s' where i: "pir_adapter_init (new_PIR_Adapter 27, serial_device) = (True, p, s')"
    by (simp add: pir_adapter_init_def new_PIR_Adapter_def Pir_def pir_init_def isValidInputPin_def)
  from pir_loop_is_machine [OF pir_adapter_init_armed(1) [OF i], of "quiet_env zero_mac" serial_adapter s']
    pir_adapter_init_armed(2) [OF i]
  show ?thesis using i by simp
qed

end
