(* ===== verification/Firmware.thy ===== *)
theory Firmware
  imports Adapters
begin

text \<open>
  The sketch (main.ino): its globals and the static locals of \<open>loop\<close>, the stages of \<open>setup\<close>, the
  receive callback, and the stages of \<open>loop\<close>. A stage that restarts, hangs or faults ends the
  function. The display is taken to acknowledge (the silent one is in \<open>Error_Core\<close>), and the
  watchdog calls, which change nothing the model holds, are left out.
\<close>

section \<open>State\<close>

abbreviation (input) "RED_LED_PIN \<equiv> (33::nat)"
abbreviation (input) "GREEN_LED_PIN \<equiv> (26::nat)"
abbreviation (input) "CONFIG_BUTTON_PIN \<equiv> (32::nat)"
abbreviation (input) "RESET_BUTTON_PIN \<equiv> (25::nat)"
abbreviation (input) "SEVSEG_DATA_PIN \<equiv> (23::nat)"
abbreviation (input) "SEVSEG_CLK_PIN \<equiv> (22::nat)"
abbreviation (input) "BUTTON_HOLD_TIME_MS \<equiv> (5000::u32)"
abbreviation (input) "DEV_MODE \<equiv> False"
abbreviation (input) "ENABLE_SEVSEG_DISPLAY \<equiv> True"
abbreviation (input) "DEFAULT_ADAPTER \<equiv> SERIAL_ADAPTER"

text \<open>Values of \<open>esp_reset_reason_t\<close> (ESP-IDF).\<close>

abbreviation (input) "ESP_RST_POWERON \<equiv> (1::byte)"
abbreviation (input) "ESP_RST_EXT \<equiv> (2::byte)"
abbreviation (input) "ESP_RST_SW \<equiv> (3::byte)"
abbreviation (input) "ESP_RST_INT_WDT \<equiv> (5::byte)"
abbreviation (input) "ESP_RST_TASK_WDT \<equiv> (6::byte)"
abbreviation (input) "ESP_RST_WDT \<equiv> (7::byte)"

record firmware = appnode +
  isDevMode :: bool
  devMasterFlag :: bool
  configButton :: gpio_input
  resetButton :: gpio_input
  startupBlinkDone :: bool
  lastDisplayToggleMs :: u32
  dashVisible :: bool
  lastEnrollmentBroadcast :: u32
  buttonWasPressed :: bool
  holdStart :: u32
  resetButtonWasPressed :: bool
  resetHoldStart :: u32
  resetConfirmPending :: bool
  resetConfirmDeadline :: u32

text \<open>The device as a reset finds it: globals constructed, the persistent store as flash has it.\<close>

definition boot_state :: "eeprom \<Rightarrow> firmware" where
  "boot_state e = \<lparr>now = 0, status = Running, out = [], redLed = Led RED_LED_PIN,
     greenLed = Led GREEN_LED_PIN, errorLedSet = False, displaySet = False, ecInitialized = False,
     pendingBlink = False, pendingBlinkType = E_GENERIC, inCallbackContext = False,
     ee = ee_power_cycle e, mesh = Mesh, espPeers = [], adapter = None, factoryDevMode = False,
     serialLastHealth = 0, pirInstance = False, isDevMode = False, devMasterFlag = True,
     configButton = \<lparr>in_pin = CONFIG_BUTTON_PIN, in_initialized = False\<rparr>,
     resetButton = \<lparr>in_pin = RESET_BUTTON_PIN, in_initialized = False\<rparr>,
     startupBlinkDone = False, lastDisplayToggleMs = 0, dashVisible = False,
     lastEnrollmentBroadcast = 0, buttonWasPressed = False, holdStart = 0,
     resetButtonWasPressed = False, resetHoldStart = 0, resetConfirmPending = False,
     resetConfirmDeadline = 0\<rparr>"

text \<open>Statements one after the other, up to the first that does not return.\<close>

fun run_all :: "('a platform_scheme \<Rightarrow> 'a platform_scheme) list \<Rightarrow> 'a platform_scheme
    \<Rightarrow> 'a platform_scheme" where
  "run_all [] s = s"
| "run_all (f # fs) s = andthen f (run_all fs) s"

section \<open>Text on the serial port\<close>

definition ascii :: "string \<Rightarrow> byte list" where
  "ascii = map of_char"

fun decimal :: "nat \<Rightarrow> byte list" where
  "decimal n = (if n < 10 then [of_nat (48 + n)] else decimal (n div 10) @ [of_nat (48 + n mod 10)])"

declare decimal.simps [simp del]

definition hex_digit :: "nat \<Rightarrow> byte" where
  "hex_digit d = (if d < 10 then of_nat (48 + d) else of_nat (55 + d))"

text \<open>\<open>Serial.print(b, HEX)\<close>, without leading zeros.\<close>

definition print_hex :: "byte \<Rightarrow> byte list" where
  "print_hex b =
     (if b < 0x10 then [hex_digit (unat b)]
      else [hex_digit (unat b div 16), hex_digit (unat b mod 16)])"

definition println :: "byte list \<Rightarrow> 'a platform_scheme \<Rightarrow> 'a platform_scheme" where
  "println bs = emit (SerialWrite (bs @ [0x0D, 0x0A]))"

definition pubkey_line :: "byte list \<Rightarrow> byte list" where
  "pubkey_line key =
     ascii ''LATTICE_PUBKEY:'' @ concat (map (\<lambda>b. (if b < 0x10 then [0x30] else []) @ print_hex b) key)"

section \<open>The receive callback\<close>

definition dataRecvCallback :: "env \<Rightarrow> mesh_message \<Rightarrow> 'a appnode_scheme \<Rightarrow> 'a appnode_scheme" where
  "dataRecvCallback E message =
     andthen (\<lambda>t. case adapter t of None \<Rightarrow> t | Some a \<Rightarrow> onMeshData E a message t)
       (greenLed_blink 2 100 100)"

section \<open>Set-up\<close>

definition is_wdt_reset :: "byte \<Rightarrow> bool" where
  "is_wdt_reset reason \<longleftrightarrow>
     reason = ESP_RST_WDT \<or> reason = ESP_RST_TASK_WDT \<or> reason = ESP_RST_INT_WDT"

definition unexpected_reset :: "byte \<Rightarrow> bool" where
  "unexpected_reset reason \<longleftrightarrow>
     reason \<noteq> ESP_RST_POWERON \<and> reason \<noteq> ESP_RST_SW \<and> reason \<noteq> ESP_RST_EXT"

definition track_reset :: "byte \<Rightarrow> 'a firmware_scheme \<Rightarrow> 'a firmware_scheme" where
  "track_reset reason s =
     (let s1 = on_ee (saveRebootReason reason) (on_ee eeprom_init s)
      in if is_wdt_reset reason then
           (let count = loadRebootCount (ee s1) + 1;
                s2 = emit (SerialWrite (ascii ''[BOOT] WDT reset #'' @ decimal (unat count)
                       @ ascii '' (reason: '' @ decimal (unat reason) @ ascii '')'' @ [0x0A]))
                       (on_ee (saveRebootCount count) s1)
            in if count \<ge> 5
               then hang (println (ascii ''[BOOT] WDT loop detected '' @ [0xE2, 0x80, 0x94]
                      @ ascii '' halting. Manual reset required.'') s2)
               else s2)
         else on_ee (saveRebootCount 0) s1)"

text \<open>Without the red LED the boot ends in an endless loop, with or without the green one.\<close>

definition init_red_led :: "'a firmware_scheme \<Rightarrow> 'a firmware_scheme" where
  "init_red_led s =
     (let (ok, s1) = led_init redLed put_red True s
      in if ok then s1
         else let (okGreen, s2) = led_init greenLed put_green False s1
              in if status s2 = Running then hang s2 else s2)"

definition init_display :: "byte \<Rightarrow> 'a firmware_scheme \<Rightarrow> 'a firmware_scheme" where
  "init_display reason s =
     (if ENABLE_SEVSEG_DISPLAY
      then errorcore_init True (unexpected_reset reason)
             (snd (display_init SEVSEG_DATA_PIN SEVSEG_CLK_PIN s))
      else errorcore_init False (unexpected_reset reason) s)"

definition init_green_led :: "'a firmware_scheme \<Rightarrow> 'a firmware_scheme" where
  "init_green_led s =
     (if led_initialized (greenLed s) then s
      else let (ok, s1) = led_init greenLed put_green False s
           in if ok then s1
              else if status s1 = Running then fatal HARDWARE M_CORE 1 s1 else s1)"

definition init_config_button :: "'a firmware_scheme \<Rightarrow> 'a firmware_scheme" where
  "init_config_button s =
     (let (ok, b, s1) = button_init (configButton s, s)
      in if ok then s1\<lparr>configButton := b\<rparr> else fail_type E_HARDWARE_FAILURE s1)"

definition init_reset_button :: "'a firmware_scheme \<Rightarrow> 'a firmware_scheme" where
  "init_reset_button s =
     (let (ok, b, s1) = button_init (resetButton s, s)
      in if ok then s1\<lparr>resetButton := b\<rparr> else fail_type E_HARDWARE_FAILURE s1)"

definition init_dev_mode :: "'a firmware_scheme \<Rightarrow> 'a firmware_scheme" where
  "init_dev_mode s =
     (let s1 = on_ee eeprom_init s;
          dev = (if DEV_MODE then True else loadDevFlag (ee s1))
      in on_ee (setDevMode dev) (setFactoryDevMode dev (s1\<lparr>isDevMode := dev\<rparr>)))"

text \<open>\<open>defaultPeerList\<close> is the array of the two six-byte addresses.\<close>

definition init_peers :: "'a firmware_scheme \<Rightarrow> 'a firmware_scheme" where
  "init_peers s =
     (if \<not> isDevMode s \<and> \<not> hasPeers (ee s)
      then case savePeerList (concat (map mac_bytes DEFAULT_PEERS)) (length DEFAULT_PEERS) (ee s) of
             None \<Rightarrow> fault s
           | Some e \<Rightarrow> s\<lparr>ee := e\<rparr>
      else s)"

definition init_defaults :: "'a firmware_scheme \<Rightarrow> 'a firmware_scheme" where
  "init_defaults s = (if isDevMode s then s else initializeDefaultsIfUnset s)"

definition init_adapter :: "'a firmware_scheme \<Rightarrow> 'a firmware_scheme" where
  "init_adapter s =
     (let (a, s1) = (if isDevMode s
                     then createAdapter DEFAULT_ADAPTER (getDefaultPinForAdapter DEFAULT_ADAPTER) s
                     else createFromEEPROM s);
          s2 = s1\<lparr>adapter := a\<rparr>
      in if a = None then fatal HARDWARE M_CORE 3 s2
         else let (ok, s3) = adapter_init s2
              in if ok then s3 else if status s3 = Running then fatal HARDWARE M_CORE 4 s3 else s3)"

definition init_mesh :: "env \<Rightarrow> 'a firmware_scheme \<Rightarrow> 'a firmware_scheme" where
  "init_mesh E s =
     (let (ok, s1) = mesh_init E s
      in if status s1 \<noteq> Running then s1 else if ok then s1 else fatal COMM M_MESH 1 s1)"

definition print_public_key :: "'a firmware_scheme \<Rightarrow> 'a firmware_scheme" where
  "print_public_key s =
     (if \<not> isEnrolled s then println (pubkey_line (devicePublicKey (mesh s))) s else s)"

definition init_role :: "'a firmware_scheme \<Rightarrow> 'a firmware_scheme" where
  "init_role s =
     (let role = (if isDevMode s then devMasterFlag s else loadMasterFlag (ee s))
      in on_mesh (\<lambda>m. m\<lparr>isMaster := role\<rparr>) s)"

definition link_adapter :: "'a firmware_scheme \<Rightarrow> 'a firmware_scheme" where
  "link_adapter s = s\<lparr>adapter := map_option setTransmitFn (adapter s)\<rparr>"

definition firmware_setup :: "env \<Rightarrow> byte \<Rightarrow> 'a firmware_scheme \<Rightarrow> 'a firmware_scheme" where
  "firmware_setup E reason =
     run_all [track_reset reason, init_red_led, init_display reason, init_green_led,
       init_config_button, init_reset_button, init_dev_mode, init_peers, init_defaults,
       init_adapter, init_mesh E, print_public_key, init_role, link_adapter]"

section \<open>The loop\<close>

definition startup_blink :: "'a firmware_scheme \<Rightarrow> 'a firmware_scheme" where
  "startup_blink s =
     (if startupBlinkDone s then s
      else andthen (greenLed_blink 2 200 200) (redLed_blink 2 200 200) (s\<lparr>startupBlinkDone := True\<rparr>))"

definition display_step :: "'a firmware_scheme \<Rightarrow> 'a firmware_scheme" where
  "display_step s =
     (let enrolled = (isEnrolled s \<or> isMaster (mesh s));
          nodeId = loadNodeId (ee s)
      in if \<not> enrolled then
           (if now s - lastDisplayToggleMs s \<ge> 500 then
              let s1 = s\<lparr>lastDisplayToggleMs := now s, dashVisible := \<not> dashVisible s\<rparr>
              in if dashVisible s1 then emit (Segments [0x40, 0x40, 0x40, 0x40]) s1
                 else display_clear s1
            else s)
         else if nodeId = 0 then emit (Segments (show_segs 0 False)) s
         else if isMaster (mesh s) then emit (Segments (showWithDP_segs (uint nodeId) False)) s
         else emit (Segments (show_segs (uint nodeId) False)) s)"

definition enrollment_step :: "env \<Rightarrow> 'a firmware_scheme \<Rightarrow> 'a firmware_scheme" where
  "enrollment_step E s =
     (if now s - lastEnrollmentBroadcast s > 10000
      then sendEnrollmentRequest E (s\<lparr>lastEnrollmentBroadcast := now s\<rparr>) else s)"

definition toggle_role :: "'a firmware_scheme \<Rightarrow> 'a firmware_scheme" where
  "toggle_role s =
     (if isDevMode s then
        (let newMaster = (\<not> isMaster (mesh s));
             s1 = (on_mesh (\<lambda>m. m\<lparr>isMaster := newMaster\<rparr>) s)\<lparr>devMasterFlag := newMaster\<rparr>
         in greenLed_blink (if newMaster then 3 else 2) 150 150 s1)
      else
        (let newMaster = (\<not> loadMasterFlag (ee s))
         in andthen (greenLed_blink (if newMaster then 3 else 2) 200 200)
              (\<lambda>t. let t1 = delay_ms 2000 t in restart (on_ee (forceFlush (now t1)) t1))
              (on_ee (saveMasterFlag newMaster) s)))"

definition config_button :: "(nat \<Rightarrow> u32 \<Rightarrow> bool) \<Rightarrow> 'a firmware_scheme \<Rightarrow> 'a firmware_scheme" where
  "config_button levels s =
     (let (pressed, s1) = isPressed levels (in_pin (configButton s)) s
      in if pressed then
           (if \<not> buttonWasPressed s1 then s1\<lparr>buttonWasPressed := True, holdStart := now s1\<rparr>
            else if now s1 - holdStart s1 \<ge> BUTTON_HOLD_TIME_MS
            then toggle_role (s1\<lparr>buttonWasPressed := False\<rparr>)
            else s1)
         else s1\<lparr>buttonWasPressed := False\<rparr>)"

definition wipe_storage :: "'a firmware_scheme \<Rightarrow> 'a firmware_scheme" where
  "wipe_storage s =
     run_all [on_ee clearAll, redLed_blink 5 100 100, greenLed_blink 5 100 100,
       \<lambda>t. let t1 = delay_ms 3000 t in restart (on_ee (forceFlush (now t1)) t1)] s"

definition reset_held :: "'a firmware_scheme \<Rightarrow> 'a firmware_scheme" where
  "reset_held s =
     (if \<not> resetConfirmPending s
      then redLed_blink 3 100 100
             (s\<lparr>resetConfirmPending := True, resetConfirmDeadline := now s + 3000\<rparr>)
      else if now s < resetConfirmDeadline s
      then wipe_storage (s\<lparr>resetConfirmPending := False\<rparr>)
      else s)"

definition reset_button :: "(nat \<Rightarrow> u32 \<Rightarrow> bool) \<Rightarrow> 'a firmware_scheme \<Rightarrow> 'a firmware_scheme" where
  "reset_button levels s =
     (let (pressed, s1) = isPressed levels (in_pin (resetButton s)) s
      in if pressed then
           (if \<not> resetButtonWasPressed s1
            then s1\<lparr>resetButtonWasPressed := True, resetHoldStart := now s1\<rparr>
            else if now s1 - resetHoldStart s1 \<ge> BUTTON_HOLD_TIME_MS
            then reset_held (s1\<lparr>resetButtonWasPressed := False\<rparr>)
            else s1)
         else let s2 = s1\<lparr>resetButtonWasPressed := False\<rparr>
              in if resetConfirmPending s2 \<and> now s2 > resetConfirmDeadline s2
                 then s2\<lparr>resetConfirmPending := False\<rparr> else s2)"

text \<open>
  After \<open>mesh.loop\<close>. An unenrolled node that is not the master returns before the adapter and the
  buttons.
\<close>

definition loop_rest :: "env \<Rightarrow> (nat \<Rightarrow> u32 \<Rightarrow> bool) \<Rightarrow> byte list \<Rightarrow> 'a firmware_scheme
    \<Rightarrow> 'a firmware_scheme" where
  "loop_rest E levels rx =
     andthen (run_all [node_checkMasterTimeout, display_step])
       (\<lambda>t. if \<not> isEnrolled t \<and> \<not> isMaster (mesh t) then enrollment_step E t
            else run_all [adapter_loop E rx, config_button levels, reset_button levels, delay_ms 1] t)"

definition firmware_loop :: "env \<Rightarrow> (nat \<Rightarrow> u32 \<Rightarrow> bool) \<Rightarrow> byte list \<Rightarrow> 'a firmware_scheme
    \<Rightarrow> 'a firmware_scheme option" where
  "firmware_loop E levels rx s =
     (let s1 = run_all [drainPendingBlink, startup_blink] s
      in if status s1 \<noteq> Running then Some s1
         else case mesh_loop (Some (dataRecvCallback E)) (Some relayEnrollmentToServer) E s1 of
                None \<Rightarrow> None
              | Some s2 \<Rightarrow> Some (if status s2 = Running then loop_rest E levels rx s2 else s2))"

end
