(* ===== verification/Firmware_Lemmas.thy ===== *)
theory Firmware_Lemmas
  imports Firmware Adapter_Lemmas
begin

text \<open>
  The composed firmware keeps the node invariant: \<open>setup\<close> establishes it on any persistent store,
  and every stage of \<open>loop\<close> keeps it.
\<close>

section \<open>Sequences\<close>

lemma run_all_invariant:
  assumes "P s" and "\<And>f t. f \<in> set fs \<Longrightarrow> P t \<Longrightarrow> P (f t)"
  shows "P (run_all fs s)"
  using assms by (induction fs arbitrary: s) (auto intro!: andthen_invariant [where P = P])

lemma run_all_append: "run_all (fs @ gs) s =
    (let t = run_all fs s in if status t = Running \<or> fs = [] then run_all gs t else t)"
  by (induction fs arbitrary: s) (auto simp: andthen_def Let_def)

section \<open>Fields of the sketch\<close>

lemma firmware_logs [simp]:
  "radio_log (s\<lparr>isDevMode := b\<rparr>) = radio_log s" "radio_log (s\<lparr>devMasterFlag := b\<rparr>) = radio_log s"
  "radio_log (s\<lparr>configButton := g\<rparr>) = radio_log s" "radio_log (s\<lparr>resetButton := g\<rparr>) = radio_log s"
  "radio_log (s\<lparr>startupBlinkDone := b\<rparr>) = radio_log s"
  "radio_log (s\<lparr>lastDisplayToggleMs := t, dashVisible := b\<rparr>) = radio_log s"
  "radio_log (s\<lparr>lastEnrollmentBroadcast := t\<rparr>) = radio_log s"
  "radio_log (s\<lparr>buttonWasPressed := b\<rparr>) = radio_log s"
  "radio_log (s\<lparr>buttonWasPressed := b, holdStart := t\<rparr>) = radio_log s"
  "radio_log (s\<lparr>resetButtonWasPressed := b\<rparr>) = radio_log s"
  "radio_log (s\<lparr>resetButtonWasPressed := b, resetHoldStart := t\<rparr>) = radio_log s"
  "radio_log (s\<lparr>resetConfirmPending := b\<rparr>) = radio_log s"
  "radio_log (s\<lparr>resetConfirmPending := b, resetConfirmDeadline := t\<rparr>) = radio_log s"
  by (rule radio_log_cong; simp)+

lemma node_inv_firmware [simp]:
  "node_inv (s\<lparr>isDevMode := b\<rparr>) = node_inv s" "node_inv (s\<lparr>devMasterFlag := b\<rparr>) = node_inv s"
  "node_inv (s\<lparr>configButton := g\<rparr>) = node_inv s" "node_inv (s\<lparr>resetButton := g\<rparr>) = node_inv s"
  "node_inv (s\<lparr>startupBlinkDone := b\<rparr>) = node_inv s"
  "node_inv (s\<lparr>lastDisplayToggleMs := t, dashVisible := b\<rparr>) = node_inv s"
  "node_inv (s\<lparr>lastEnrollmentBroadcast := t\<rparr>) = node_inv s"
  "node_inv (s\<lparr>buttonWasPressed := b\<rparr>) = node_inv s"
  "node_inv (s\<lparr>buttonWasPressed := b, holdStart := t\<rparr>) = node_inv s"
  "node_inv (s\<lparr>resetButtonWasPressed := b\<rparr>) = node_inv s"
  "node_inv (s\<lparr>resetButtonWasPressed := b, resetHoldStart := t\<rparr>) = node_inv s"
  "node_inv (s\<lparr>resetConfirmPending := b\<rparr>) = node_inv s"
  "node_inv (s\<lparr>resetConfirmPending := b, resetConfirmDeadline := t\<rparr>) = node_inv s"
  by (rule node_inv_cong; simp)+

lemma radio_log_redLed [simp]: "radio_log (s\<lparr>redLed := l\<rparr>) = radio_log s"
  by (rule radio_log_cong) simp

lemma node_inv_blink_pattern [simp]: "node_inv (blinkPattern t s) = node_inv s"
proof -
  have "radio_log (blinkPattern t s) = radio_log s"
    by (auto simp: blinkPattern_def blink_red_def dest: radio_log_blink_loop split: prod.splits)
  moreover have "mesh (blinkPattern t s) = mesh s" by (rule node_more_fields) simp
  ultimately show ?thesis by (rule node_inv_cong [rotated])
qed

lemma node_inv_pending [simp]: "node_inv (s\<lparr>pendingBlink := b\<rparr>) = node_inv s"
  by (rule node_inv_cong) (simp_all add: radio_log_def)

lemma node_inv_drainPendingBlink [simp]: "node_inv (drainPendingBlink s) = node_inv s"
  by (simp add: drainPendingBlink_def)

lemma node_inv_startup_blink: "node_inv s \<Longrightarrow> node_inv (startup_blink s)"
  by (auto simp: startup_blink_def intro!: andthen_invariant [where P = node_inv])

lemma isPressed_inv [simp]: "isPressed levels pin s = (b, s') \<Longrightarrow> node_inv s' = node_inv s"
proof -
  assume p: "isPressed levels pin s = (b, s')"
  note f = isPressed_frame [OF p]
  have "node.more s' = node.more s" by (rule node_more_cong [OF f(3)])
  then show "node_inv s' = node_inv s"
    using f(2) by (intro node_inv_cong) (auto intro: node_more_fields radio_log_cong)
qed

section \<open>The stages of the loop\<close>

lemma node_inv_display_step [simp]: "node_inv (display_step s) = node_inv s"
  by (simp add: display_step_def display_clear_def Let_def)

lemma node_inv_toggle_role: "node_inv s \<Longrightarrow> node_inv (toggle_role s)"
  by (auto simp: toggle_role_def Let_def intro!: andthen_invariant [where P = node_inv] node_inv_mesh)
    (auto simp: node_inv_def mesh_ok_relay_flags)

lemma node_inv_config_button: "node_inv s \<Longrightarrow> node_inv (config_button levels s)"
  using isPressed_inv [of levels "in_pin (configButton s)" s]
  by (auto simp: config_button_def Let_def node_inv_toggle_role split: prod.split)

lemma node_inv_reset_held: "node_inv s \<Longrightarrow> node_inv (reset_held s)"
  by (auto simp: reset_held_def wipe_storage_def Let_def simp del: run_all.simps
      intro!: run_all_invariant [where P = node_inv])

lemma node_inv_reset_button: "node_inv s \<Longrightarrow> node_inv (reset_button levels s)"
  using isPressed_inv [of levels "in_pin (resetButton s)" s]
  by (auto simp: reset_button_def Let_def node_inv_reset_held split: prod.split)

lemma node_inv_enrollment_step: "node_inv s \<Longrightarrow> node_inv (enrollment_step E s)"
  by (simp add: enrollment_step_def node_inv_request)

lemma node_inv_checkMasterTimeout: "node_inv s \<Longrightarrow> node_inv (node_checkMasterTimeout s)"
  by (simp add: node_checkMasterTimeout_def node_inv_mesh timeout_ok node_inv_ok)

lemma node_inv_loop_rest: "node_inv s \<Longrightarrow> node_inv (loop_rest E levels rx s)"
  unfolding loop_rest_def
  by (rule andthen_invariant [where P = node_inv])
    (auto intro!: run_all_invariant [where P = node_inv] node_inv_checkMasterTimeout
      node_inv_enrollment_step node_inv_adapter_loop node_inv_config_button node_inv_reset_button
      simp del: run_all.simps)

lemma callback_keeps_inv: "keeps_inv (Some (dataRecvCallback E))"
  by (auto simp: keeps_inv_def dataRecvCallback_def
      intro!: andthen_invariant [where P = node_inv] node_inv_onMeshData split: option.split)

lemma callback_keeps_ring: "keeps_ring (Some (dataRecvCallback E))"
  by (auto simp: keeps_ring_def dataRecvCallback_def ring_of_onMeshData
      intro!: andthen_frame [where h = "\<lambda>s. ring_of (mesh s)"] split: option.split)

interpretation device: mesh_client "Some (dataRecvCallback E)" "Some relayEnrollmentToServer" "\<lambda>s. True" E
  for E
  by unfold_locales (simp_all add: callback_keeps_ring callback_keeps_inv relay_keeps)

lemma firmware_loop_inv:
  assumes "node_inv s"
  shows "\<exists>s'. firmware_loop E levels rx s = Some s' \<and> node_inv s'"
proof -
  define s1 where "s1 = run_all [drainPendingBlink, startup_blink] s"
  have inv1: "node_inv s1"
    unfolding s1_def using assms
    by (auto intro!: run_all_invariant [where P = node_inv] node_inv_startup_blink simp del: run_all.simps)
  obtain s3 where l: "mesh_loop (Some (dataRecvCallback E)) (Some relayEnrollmentToServer) E s1 = Some s3"
    and inv3: "node_inv s3"
    using device.loop_ends [OF inv1] by blast
  then show ?thesis
    using inv1 l node_inv_loop_rest [OF inv3]
    unfolding firmware_loop_def Let_def s1_def [symmetric] by (simp del: run_all.simps)
qed

section \<open>Set-up\<close>

text \<open>mbedtls writes 32-byte keys.\<close>

definition env_ok :: "env \<Rightarrow> bool" where
  "env_ok E \<longleftrightarrow> (case keygen E of Inl c \<Rightarrow> True | Inr (priv, pub) \<Rightarrow> length priv = 32 \<and> length pub = 32)"

lemma env_ok_quiet [simp]: "env_ok (quiet_env m)"
  by (simp add: env_ok_def)

lemma load_record_ok:
  assumes "mesh_ok m" "i < MAX_PEERS" "length recs = PEER_LIST_SIZE"
  shows "mesh_ok (load_record recs i m)"
proof -
  have "length (take 38 (drop (i * 38) recs)) = 38" using assms(2,3) by simp
  then have "length (publicKey (peer_of_record (take 38 (drop (i * 38) recs)))) = 32"
    by (simp add: peer_of_record_def)
  with assms(1) show ?thesis by (simp add: load_record_def Let_def appendPeer_ok)
qed

lemma mesh_ok_set_count: "mesh_ok m \<Longrightarrow> mesh_ok (m\<lparr>peerCount := 0\<rparr>)"
  by (simp add: mesh_ok_def mesh_wf_def route_wf_def)

lemma loadPeerList_length: "loadPeerList MAX_PEERS e = Some recs \<Longrightarrow> length recs = PEER_LIST_SIZE"
  by (auto simp: loadPeerList_def split: if_splits)

lemma node_inv_loadPeers:
  assumes "node_inv s"
  shows "node_inv (loadPeersFromEEPROM s)"
proof -
  let ?m0 = "(mesh s)\<lparr>peerCount := 0\<rparr>"
  define m1 where "m1 = (case loadPeerList MAX_PEERS (ee s) of None \<Rightarrow> ?m0
    | Some recs \<Rightarrow> fold (load_record recs) [0..<MAX_PEERS] ?m0)"
  have m0: "mesh_ok ?m0" using assms by (simp add: node_inv_def mesh_ok_set_count)
  have m1: "mesh_ok m1"
    unfolding m1_def using m0
    by (auto simp del: upt_Suc intro!: fold_invariant [where I = mesh_ok] load_record_ok
        dest: loadPeerList_length split: option.split)
  have "mesh_ok (fold load_default DEFAULT_PEERS m1)"
    by (rule fold_invariant [where I = mesh_ok]) (simp_all add: load_default_def appendPeer_ok m1)
  with m1 show ?thesis
    using assms unfolding loadPeersFromEEPROM_def Let_def m1_def [symmetric]
    by (simp add: node_inv_set_mesh)
qed

lemma mesh_ok_keys:
  "mesh_ok m \<Longrightarrow> length k = 16 \<Longrightarrow> mesh_ok (m\<lparr>meshKey := k\<rparr>)"
  "mesh_ok m \<Longrightarrow> length p = 32 \<Longrightarrow> length q = 32 \<Longrightarrow>
     mesh_ok (m\<lparr>devicePrivateKey := p, devicePublicKey := q\<rparr>)"
  by (simp_all add: mesh_ok_def mesh_wf_def route_wf_def)

lemma node_inv_loadMeshKey:
  assumes "node_inv s"
  shows "node_inv (loadMeshKeyFromEEPROM s)"
proof -
  define s1 where "s1 = (case loadMeshKey MESH_KEY_SIZE (ee s) of None \<Rightarrow> s
    | Some k \<Rightarrow> on_mesh (\<lambda>m. m\<lparr>meshKey := k\<rparr>) s)"
  have "length k = 16" if "loadMeshKey MESH_KEY_SIZE (ee s) = Some k" for k
    using that by (auto simp: loadMeshKey_def split: if_splits)
  then have "node_inv s1"
    unfolding s1_def using assms
    by (auto intro!: node_inv_mesh mesh_ok_keys node_inv_ok split: option.split)
  moreover have "node_inv (on_mesh (\<lambda>m. m\<lparr>meshKey := DEFAULT_MESH_KEY\<rparr>) s1)" if "node_inv s1"
    using that by (intro node_inv_mesh mesh_ok_keys node_inv_ok) (simp_all add: DEFAULT_MESH_KEY_def)
  ultimately show ?thesis
    unfolding loadMeshKeyFromEEPROM_def Let_def s1_def [symmetric]
    by (simp add: saveMeshKeyToEEPROM_def)
qed

lemma node_inv_fatal [simp]: "node_inv (fatal t k sub s) = node_inv s"
  by (rule node_inv_cong) simp_all

lemma node_inv_loadKeypair:
  assumes "node_inv s" "env_ok E"
  shows "node_inv (loadOrGenerateKeypair E s)"
proof -
  have set: "node_inv (set_keys p q t)" if "node_inv t" "length p = 32" "length q = 32"
    for p q and t :: "'a meshnode_scheme"
    using that by (simp add: set_keys_def node_inv_mesh mesh_ok_keys node_inv_ok)
  define s1 where "s1 = (case loadKeypair (ee s) of None \<Rightarrow> s | Some (ok, p, q) \<Rightarrow> set_keys p q s)"
  have "node_inv s1"
    unfolding s1_def using assms(1)
    by (auto simp: loadKeypair_def Let_def split: option.split intro!: set)
  with assms(2) show ?thesis
    unfolding loadOrGenerateKeypair_def Let_def s1_def [symmetric]
    by (auto simp: env_ok_def split: sum.splits intro!: set)
qed

lemma node_inv_load_known_masters: "node_inv s \<Longrightarrow> node_inv (load_known_masters s)"
proof -
  have ok: "mesh_ok m \<Longrightarrow> mesh_ok (m\<lparr>hasMasterMac := b\<rparr>)" "mesh_ok m \<Longrightarrow> mesh_ok (m\<lparr>hasMasterMacSecondary := b\<rparr>)"
    "mesh_ok m \<Longrightarrow> mesh_ok (m\<lparr>hasMasterMac := b, knownMasterMac := a\<rparr>)"
    "mesh_ok m \<Longrightarrow> mesh_ok (m\<lparr>hasMasterMacSecondary := b, knownMasterMacSecondary := a\<rparr>)" for m a b
    by (simp_all add: mesh_ok_def mesh_wf_def route_wf_def)
  assume "node_inv s"
  then show "node_inv (load_known_masters s)"
    by (auto simp: load_known_masters_def Let_def intro!: node_inv_mesh ok node_inv_ok split: option.split)
qed

lemma node_inv_bump_epoch: "node_inv s \<Longrightarrow> node_inv (bump_epoch s)"
  by (simp add: bump_epoch_def Let_def node_inv_def mesh_ok_def mesh_wf_def route_wf_def)

lemma node_inv_setupWiFi: "node_inv s \<Longrightarrow> node_inv (setupWiFi E s)"
  unfolding setupWiFi_def
  by (rule andthen_invariant [where P = node_inv])
    (auto simp: readMacAddress_def node_inv_def mesh_ok_def mesh_wf_def route_wf_def)

lemma node_inv_setupEspNow: "node_inv s \<Longrightarrow> node_inv (snd (setupEspNow E s))"
  by (auto simp: setupEspNow_def Let_def register_entry_def esp_now_add_peer_def
      intro!: fold_invariant [where I = node_inv])

lemma node_inv_mesh_init:
  assumes "node_inv s" "env_ok E"
  shows "node_inv (snd (mesh_init E s))"
proof -
  have "node_inv (andthen (loadPersistentState E) (\<lambda>t. andthen (setupWiFi E) (apply_tx_power E) (bump_epoch t)) s)"
    using assms
    by (auto intro!: andthen_invariant [where P = node_inv] node_inv_setupWiFi node_inv_bump_epoch
        node_inv_load_known_masters node_inv_loadKeypair node_inv_loadMeshKey node_inv_loadPeers
        simp: loadPersistentState_def apply_tx_power_def Let_def)
  then show ?thesis by (simp add: mesh_init_def Let_def node_inv_setupEspNow)
qed

subsection \<open>Stages\<close>

lemma node_inv_leds [simp]: "node_inv (put_red l s) = node_inv s" "node_inv (put_green l s) = node_inv s"
  by (rule node_inv_cong; simp add: put_red_def put_green_def radio_log_def)+

lemma node_inv_led_init:
  assumes "\<And>l t. node_inv (put l t) = node_inv (t :: 'a meshnode_scheme)"
  shows "node_inv (snd (led_init get put isSys s)) = node_inv (s :: 'a meshnode_scheme)"
  by (simp add: led_init_def gpio_output_init_def assms)

lemma node_inv_println [simp]: "node_inv (println bs s) = node_inv s"
  by (simp add: println_def)

lemma node_inv_track_reset [simp]: "node_inv (track_reset r s) = node_inv s"
  by (simp add: track_reset_def Let_def)

lemma node_inv_init_red_led [simp]: "node_inv (init_red_led s) = node_inv s"
proof -
  obtain ok s1 where r: "led_init redLed put_red True s = (ok, s1)"
    by (cases "led_init redLed put_red True s")
  obtain ok' s2 where g: "led_init greenLed put_green False s1 = (ok', s2)"
    by (cases "led_init greenLed put_green False s1")
  have "node_inv s1 = node_inv s" "node_inv s2 = node_inv s1"
    using node_inv_led_init [of put_red redLed True s] node_inv_led_init [of put_green greenLed False s1] r g
    by simp_all
  then show ?thesis by (simp add: init_red_led_def r g)
qed

lemma node_inv_init_green_led [simp]: "node_inv (init_green_led s) = node_inv s"
  using node_inv_led_init [of put_green greenLed False s]
  by (auto simp: init_green_led_def Let_def split: prod.split)

lemma node_inv_signalError [simp]: "node_inv (signalError t k sub s) = node_inv s"
  by (rule node_inv_cong) simp_all

lemma node_inv_errorcore_init [simp]: "node_inv (errorcore_init d u s) = node_inv s"
proof -
  let ?s1 = "s\<lparr>errorLedSet := True, displaySet := d, ecInitialized := True\<rparr>"
  have "node_inv ?s1 = node_inv s" by (rule node_inv_cong) (simp_all add: radio_log_def)
  then show ?thesis by (simp add: errorcore_init_def Let_def)
qed

lemma node_inv_init_display [simp]: "node_inv (init_display r s) = node_inv s"
  by (simp add: init_display_def display_init_def display_clear_def)

lemma node_inv_fail_type [simp]: "node_inv (fail_type t s) = node_inv s"
  by (simp add: fail_type_def)

lemma node_inv_init_buttons [simp]:
  "node_inv (init_config_button s) = node_inv s" "node_inv (init_reset_button s) = node_inv s"
  by (simp_all add: init_config_button_def init_reset_button_def button_init_def)

lemma node_inv_init_dev_mode [simp]: "node_inv (init_dev_mode s) = node_inv s"
  by (simp add: init_dev_mode_def setFactoryDevMode_def Let_def)

lemma node_inv_init_peers [simp]: "node_inv (init_peers s) = node_inv s"
  by (simp add: init_peers_def split: option.split)

lemma node_inv_init_defaults [simp]: "node_inv (init_defaults s) = node_inv s"
  by (simp add: init_defaults_def initializeDefaultsIfUnset_def)

lemma node_inv_createAdapter [simp]: "node_inv (snd (createAdapter t p s)) = node_inv s"
  by (simp add: createAdapter_def)

lemma node_inv_adapter_init [simp]: "node_inv (snd (adapter_init s)) = node_inv s"
  by (auto simp: adapter_init_def pir_adapter_init_def pir_init_def Let_def
      split: option.split adapter_class.split)

lemma node_inv_init_adapter [simp]: "node_inv (init_adapter s) = node_inv s"
proof -
  obtain a s1 where c: "(if isDevMode s then createAdapter DEFAULT_ADAPTER (getDefaultPinForAdapter DEFAULT_ADAPTER) s
      else createFromEEPROM s) = (a, s1)" by fastforce
  have "node_inv s1 = node_inv s"
    using c node_inv_createAdapter by (metis createFromEEPROM_def snd_conv)
  moreover obtain ok s3 where i: "adapter_init (s1\<lparr>adapter := a\<rparr>) = (ok, s3)"
    by (cases "adapter_init (s1\<lparr>adapter := a\<rparr>)")
  then have "node_inv s3 = node_inv s1" using node_inv_adapter_init [of "s1\<lparr>adapter := a\<rparr>"] by simp
  ultimately show ?thesis unfolding init_adapter_def c Let_def prod.case i by simp
qed

lemma node_inv_init_mesh: "node_inv s \<Longrightarrow> env_ok E \<Longrightarrow> node_inv (init_mesh E s)"
  using node_inv_mesh_init [of s E] by (auto simp: init_mesh_def Let_def split: prod.split)

lemma node_inv_init_role: "node_inv s \<Longrightarrow> node_inv (init_role s)"
  by (simp add: init_role_def Let_def node_inv_mesh mesh_ok_relay_flags node_inv_ok)

lemma node_inv_last_stages [simp]:
  "node_inv (print_public_key s) = node_inv s" "node_inv (link_adapter s) = node_inv s"
  by (simp_all add: print_public_key_def link_adapter_def)

lemma node_inv_setup:
  assumes "node_inv s" "env_ok E"
  shows "node_inv (firmware_setup E reason s)"
  unfolding firmware_setup_def using assms
  by (intro run_all_invariant [where P = node_inv]) (auto intro: node_inv_init_mesh node_inv_init_role)

lemma node_inv_boot [simp]: "node_inv (boot_state e)"
proof -
  have "mesh_ok Mesh"
    using mesh_wf_Mesh by (simp add: mesh_ok_def route_wf_def Mesh_def no_master_def)
  then show ?thesis by (simp add: node_inv_def boot_state_def radio_log_def)
qed

section \<open>What can happen to the device\<close>

text \<open>
  Between two calls of \<open>loop\<close>, or during one as the receive ring is lock-free, a frame arrives in the
  Wi-Fi task, the motion interrupt fires, or time passes.
\<close>

inductive firmware_step :: "env \<Rightarrow> 'a firmware_scheme \<Rightarrow> 'a firmware_scheme \<Rightarrow> bool" for E where
  Frame: "firmware_step E s (on_mesh (onDataRecvCallback src bs) s)"
| Motion: "firmware_step E s (detectMotionTrampoline s)"
| Clock: "firmware_step E s (delay_ms d s)"
| Loop: "firmware_loop E levels rx s = Some s' \<Longrightarrow> firmware_step E s s'"

inductive firmware_run :: "env \<Rightarrow> byte \<Rightarrow> eeprom \<Rightarrow> firmware \<Rightarrow> bool" for E reason e where
  Boot: "firmware_run E reason e (firmware_setup E reason (boot_state e))"
| Step: "firmware_run E reason e s \<Longrightarrow> status s = Running \<Longrightarrow> firmware_step E s s'
    \<Longrightarrow> firmware_run E reason e s'"

inductive_cases firmware_stepE: "firmware_step E s s'"

lemma firmware_step_inv: "firmware_step E s s' \<Longrightarrow> node_inv s \<Longrightarrow> node_inv s'"
proof (induction rule: firmware_step.induct)
  case (Loop levels rx s s')
  then show ?case using firmware_loop_inv [of s E levels rx] by simp
qed (auto intro: node_inv_mesh callback_ok node_inv_detectMotionTrampoline node_inv_ok)

lemma firmware_run_inv:
  "firmware_run E reason e s \<Longrightarrow> env_ok E \<Longrightarrow> node_inv s"
  by (induction rule: firmware_run.induct) (auto intro: node_inv_setup firmware_step_inv)

end
