(* ===== verification/Firmware_Boot.thy ===== *)
theory Firmware_Boot
  imports Firmware_Lemmas Mesh_Props
begin

text \<open>
  Set-up: what its stages leave alone, where a provisioned part arrives in the loop, and the parts
  that never do: no adapter type, no peers, a watchdog reset.
\<close>

section \<open>What the hardware stages of set-up leave alone\<close>

lemma node_more_put [simp]: "node.more (put_red l s) = node.more s" "node.more (put_green l s) = node.more s"
  by (simp_all add: put_red_def put_green_def)

lemma led_init_more:
  assumes "\<And>l t. node.more (put l t) = node.more t"
  shows "node.more (snd (led_init get put isSys s)) = node.more s"
  by (simp add: led_init_def gpio_output_init_def assms)

lemma firmware_more_fields:
  assumes "node.more s' = node.more s"
  shows "ee s' = ee s" "mesh s' = mesh s" "isDevMode s' = isDevMode s" "factoryDevMode s' = factoryDevMode s"
    "adapter s' = adapter s" "devMasterFlag s' = devMasterFlag s"
    "configButton s' = configButton s" "resetButton s' = resetButton s"
    "buttonWasPressed s' = buttonWasPressed s" "holdStart s' = holdStart s"
    "resetButtonWasPressed s' = resetButtonWasPressed s" "resetHoldStart s' = resetHoldStart s"
    "resetConfirmPending s' = resetConfirmPending s" "resetConfirmDeadline s' = resetConfirmDeadline s"
  using assms by (cases s; cases s'; simp)+

lemma init_red_led_more [simp]: "node.more (init_red_led s) = node.more s"
proof -
  obtain ok s1 where r: "led_init redLed put_red True s = (ok, s1)"
    by (cases "led_init redLed put_red True s")
  obtain ok' s2 where g: "led_init greenLed put_green False s1 = (ok', s2)"
    by (cases "led_init greenLed put_green False s1")
  have "node.more s1 = node.more s" "node.more s2 = node.more s1"
    using led_init_more [of put_red redLed True s] led_init_more [of put_green greenLed False s1] r g
    by simp_all
  then show ?thesis by (simp add: init_red_led_def r g)
qed

lemma fatal_more [simp]: "node.more (fatal t k sub s) = node.more s"
  by (simp add: fatal_def andthen_def Let_def)

lemma init_green_led_more [simp]: "node.more (init_green_led s) = node.more s"
  using led_init_more [of put_green greenLed False s]
  by (auto simp: init_green_led_def Let_def split: prod.split)

lemma init_display_more [simp]: "node.more (init_display r s) = node.more s"
  by (simp add: init_display_def display_init_def display_clear_def errorcore_init_def Let_def)

lemma init_button_fields [simp]:
  "ee (init_config_button s) = ee s" "isDevMode (init_config_button s) = isDevMode s"
  "factoryDevMode (init_config_button s) = factoryDevMode s"
  "ee (init_reset_button s) = ee s" "isDevMode (init_reset_button s) = isDevMode s"
  "factoryDevMode (init_reset_button s) = factoryDevMode s"
proof -
  have e: "node.more (fail_type t (u :: 'b firmware_scheme)) = node.more u"
     "node.more (emit x u) = node.more u" for t x and u :: "'b firmware_scheme"
    by (simp_all add: fail_type_def)
  note f = firmware_more_fields [OF e(1)] firmware_more_fields [OF e(2)]
  show "ee (init_config_button s) = ee s" "isDevMode (init_config_button s) = isDevMode s"
    "factoryDevMode (init_config_button s) = factoryDevMode s"
    "ee (init_reset_button s) = ee s" "isDevMode (init_reset_button s) = isDevMode s"
    "factoryDevMode (init_reset_button s) = factoryDevMode s"
    by (simp_all add: init_config_button_def init_reset_button_def button_init_def f)
qed

lemmas hardware_stage_fields [simp] =
  firmware_more_fields(1,3,4) [OF init_red_led_more] firmware_more_fields(1,3,4) [OF init_green_led_more]
  firmware_more_fields(1,3,4) [OF init_display_more]

section \<open>Set-up and the stored adapter type\<close>

lemma eeprom_init_low:
  assumes "length (ee_cells e) = TOTAL_SIZE" "a < MESH_KEY"
  shows "ee_read a (eeprom_init e) = ee_read a e \<or> ee_read a (eeprom_init e) = 0xFF"
proof (cases "ee_init e")
  case False
  let ?e = "e\<lparr>ee_init := True\<rparr>"
  have len: "length (ee_cells ?e) = TOTAL_SIZE" using assms(1) by simp
  have same: "ee_read a ?e = ee_read a e" by (rule ee_read_cong) simp
  have "ee_read a (init_schema ?e) = ee_read a ?e \<or> ee_read a (init_schema ?e) = 0xFF"
    using assms(2) migrate_v1_read(3) [OF len, of a] ee_read_fill_inside [of 0 a TOTAL_SIZE ?e] len
    by (auto simp: init_schema_def migrate_v2_def clearAll_def ensureInitialized_def Let_def ee_frame)
  with False assms(2) same show ?thesis
    by (simp add: eeprom_init_def init_wdt_read)
qed (simp add: eeprom_init_def)

lemma eeprom_init_length [simp]: "length (ee_cells (eeprom_init e)) = length (ee_cells e)"
  by (simp add: eeprom_init_def init_wdt_fields init_schema_fields)

lemma eeprom_init_again [simp]: "ee_init e \<Longrightarrow> eeprom_init e = e"
  by (simp add: eeprom_init_def)

text \<open>A production part whose adapter cell was never written: erased or zero.\<close>

definition unset_part :: "eeprom \<Rightarrow> bool" where
  "unset_part e \<longleftrightarrow> length (ee_cells e) = TOTAL_SIZE \<and> ee_read DEV_FLAG e \<noteq> 1
     \<and> (ee_read ADAPTER_TYPE e = 0 \<or> ee_read ADAPTER_TYPE e = 0xFF)"

definition unset_device :: "'a firmware_scheme \<Rightarrow> bool" where
  "unset_device s \<longleftrightarrow> unset_part (ee s) \<and> ee_init (ee s) \<and> \<not> isDevMode s \<and> \<not> factoryDevMode s"

lemma unset_eeprom_init: "unset_part e \<Longrightarrow> unset_part (eeprom_init e)"
  using eeprom_init_low [of e DEV_FLAG] eeprom_init_low [of e ADAPTER_TYPE]
  by (auto simp: unset_part_def)

lemma setDevMode_fields [simp]:
  "ee_read a (setDevMode d e) = ee_read a e" "ee_cells (setDevMode d e) = ee_cells e"
  "ee_flash (setDevMode d e) = ee_flash e" "ee_commitOk (setDevMode d e) = ee_commitOk e"
  by (simp_all add: setDevMode_def ee_read_def)

lemma unset_part_saves:
  "unset_part e \<Longrightarrow> unset_part (saveRebootReason r e)"
  "unset_part e \<Longrightarrow> unset_part (saveRebootCount c e)"
  "unset_part e \<Longrightarrow> unset_part (setDevMode d e)"
  by (simp_all add: unset_part_def saveRebootReason_def saveRebootCount_def ee_frame)

lemma save_init_dev [simp]:
  "ee_init (saveRebootReason r e) = ee_init e" "ee_init (saveRebootCount c e) = ee_init e"
  "ee_init (setDevMode d e) = ee_init e"
  by (simp_all add: saveRebootReason_def saveRebootCount_def setDevMode_def)

lemma track_reset_ee:
  "ee (track_reset r s) = saveRebootCount
     (if is_wdt_reset r then loadRebootCount (saveRebootReason r (eeprom_init (ee s))) + 1 else 0)
     (saveRebootReason r (eeprom_init (ee s)))"
  by (simp add: track_reset_def Let_def println_def)

lemma track_reset_flags [simp]:
  "isDevMode (track_reset r s) = isDevMode s" "factoryDevMode (track_reset r s) = factoryDevMode s"
proof -
  have "node.more (hang (t :: 'b firmware_scheme)) = node.more t" "node.more (emit x t) = node.more t"
    for x and t :: "'b firmware_scheme" by simp_all
  note f = this [THEN firmware_more_fields(3)] this [THEN firmware_more_fields(4)]
  show "isDevMode (track_reset r s) = isDevMode s" "factoryDevMode (track_reset r s) = factoryDevMode s"
    by (simp_all add: track_reset_def Let_def println_def f on_ee_def)
qed

lemma unset_track_reset:
  "unset_part (ee s) \<Longrightarrow> \<not> isDevMode s \<Longrightarrow> \<not> factoryDevMode s \<Longrightarrow> unset_device (track_reset r s)"
  by (simp add: unset_device_def track_reset_ee unset_part_saves unset_eeprom_init eeprom_init_init)

lemma unset_stages:
  assumes "unset_device s"
  shows "unset_device (init_red_led s)" "unset_device (init_display r s)"
    "unset_device (init_green_led s)" "unset_device (init_config_button s)"
    "unset_device (init_reset_button s)"
  using assms by (simp_all add: unset_device_def)

lemma unset_dev_mode: "unset_device s \<Longrightarrow> unset_device (init_dev_mode s)"
  by (simp add: unset_device_def init_dev_mode_def setFactoryDevMode_def Let_def unset_part_saves
      loadDevFlag_def on_ee_def) (simp add: unset_part_def)

lemma savePeerList_low:
  "savePeerList r n e = Some e' \<Longrightarrow> unset_part e \<Longrightarrow> unset_part e' \<and> ee_init e' = ee_init e"
  using savePeerList_fields [of r n e e']
    savePeerList_read [of r n e e' DEV_FLAG] savePeerList_read [of r n e e' ADAPTER_TYPE]
  by (simp add: unset_part_def)

lemma unset_peers: "unset_device s \<Longrightarrow> unset_device (init_peers s)"
proof -
  have "node.more (fault (t :: 'b firmware_scheme)) = node.more t" for t :: "'b firmware_scheme" by simp
  note f = firmware_more_fields [OF this]
  show "unset_device s \<Longrightarrow> unset_device (init_peers s)"
    by (auto simp: unset_device_def init_peers_def f savePeerList_low split: option.split
        dest: savePeerList_low)
qed

lemma unset_defaults: "unset_device s \<Longrightarrow> unset_device (init_defaults s)"
  by (auto simp: unset_device_def init_defaults_def initializeDefaultsIfUnset_def loadAdapterType_def
      ensureInitialized_def unset_part_def Let_def)

lemma unset_adapter_restarts:
  assumes "unset_device s"
  shows "status (init_adapter s) = Restarted"
  using assms
  by (auto simp: unset_device_def unset_part_def init_adapter_def createFromEEPROM_def
      loadAdapterTypeFromEEPROM_def loadAdapterType_def ensureInitialized_def adapterTypeFromEEPROM_def
      createAdapter_def fatal_def signalError_def signalErrorType_status shouldRestart_def Let_def)

lemma run_all_Running:
  assumes "status (run_all (fs @ g # gs) s) = Running" and "P s"
    and "\<And>f t. f \<in> set fs \<Longrightarrow> P t \<Longrightarrow> P (f t)"
  shows "\<exists>t. P t \<and> status (g t) = Running"
  using assms
proof (induction fs arbitrary: s)
  case Nil
  then show ?case by (cases "status (g s) = Running") auto
next
  case (Cons f fs)
  then show ?case by (cases "status (f s) = Running") auto
qed

text \<open>
  C32. A production part whose adapter type was never set does not get to the loop: after every reset,
  whatever else is stored, set-up ends in a restart, a halt or a fault. An erased type cell reads as
  the unknown adapter, so the default is never written and no adapter can be created.
\<close>
theorem unset_adapter_never_boots:
  fixes s :: "'a firmware_scheme"
  assumes "unset_part (ee s)" and "\<not> isDevMode s" and "\<not> factoryDevMode s"
  shows "status (firmware_setup E reason s) \<noteq> Running"
proof
  assume run: "status (firmware_setup E reason s) = Running"
  define s1 where "s1 = track_reset reason s"
  define fs :: "('a firmware_scheme \<Rightarrow> 'a firmware_scheme) list" where
    "fs = [init_red_led, init_display reason, init_green_led, init_config_button,
       init_reset_button, init_dev_mode, init_peers, init_defaults]"
  define gs :: "('a firmware_scheme \<Rightarrow> 'a firmware_scheme) list" where
    "gs = [init_mesh E, print_public_key, init_role, link_adapter]"
  have "status s1 = Running"
    using run by (cases "status s1 = Running") (auto simp: firmware_setup_def s1_def)
  then have all: "status (run_all (fs @ init_adapter # gs) s1) = Running"
    using run by (simp add: firmware_setup_def s1_def fs_def gs_def)
  have start: "unset_device s1" using assms unset_track_reset by (simp add: s1_def)
  have stage: "unset_device (f t)" if "f \<in> set fs" "unset_device t" for f and t :: "'a firmware_scheme"
    using that unfolding fs_def using unset_stages [of t] unset_dev_mode [of t] unset_peers [of t] unset_defaults [of t] by auto
  have "\<exists>t :: 'a firmware_scheme. unset_device t \<and> status (init_adapter t) = Running"
    using all start stage by (rule run_all_Running)
  then show False using unset_adapter_restarts by force
qed

theorem unset_adapter_never_boots_witness:
  "status (firmware_setup (quiet_env nodeA) 3 (boot_state (ee_blank\<lparr>ee_flash := replicate 512 0\<rparr>))) \<noteq> Running"
  by (rule unset_adapter_never_boots)
    (simp_all add: unset_part_def boot_state_def ee_power_cycle_def ee_read_def)

section \<open>Set-up of a provisioned part\<close>

text \<open>The pins of the board as the globals of the sketch name them.\<close>

definition board_pins :: "'a firmware_scheme \<Rightarrow> bool" where
  "board_pins s \<longleftrightarrow> led_pin (redLed s) = RED_LED_PIN \<and> led_pin (greenLed s) = GREEN_LED_PIN
     \<and> in_pin (configButton s) = CONFIG_BUTTON_PIN \<and> in_pin (resetButton s) = RESET_BUTTON_PIN"

text \<open>A stage that comes back with the pins and the storage as they were.\<close>

definition plain_stage :: "'a firmware_scheme \<Rightarrow> 'a firmware_scheme \<Rightarrow> bool" where
  "plain_stage s s' \<longleftrightarrow> status s' = status s \<and> board_pins s' \<and> ee s' = ee s
     \<and> isDevMode s' = isDevMode s \<and> factoryDevMode s' = factoryDevMode s \<and> mesh s' = mesh s"

lemma board_pins_boot [simp]: "board_pins (boot_state e)"
  by (simp add: board_pins_def boot_state_def Led_def)

lemma plain_red: "board_pins s \<Longrightarrow> plain_stage s (init_red_led s)"
  by (simp add: plain_stage_def board_pins_def init_red_led_def led_init_def gpio_output_init_def
      isValidOutputPin_def put_red_def emit_def)

lemma plain_display: "board_pins s \<Longrightarrow> \<not> unexpected_reset r \<Longrightarrow> plain_stage s (init_display r s)"
  by (simp add: plain_stage_def board_pins_def init_display_def display_init_def isValidOutputPin_def
      display_clear_def errorcore_init_def emit_def delay_ms_def)

lemma plain_green: "board_pins s \<Longrightarrow> plain_stage s (init_green_led s)"
  by (simp add: plain_stage_def board_pins_def init_green_led_def led_init_def gpio_output_init_def
      isValidOutputPin_def put_green_def emit_def)

lemma plain_buttons:
  "board_pins s \<Longrightarrow> plain_stage s (init_config_button s)"
  "board_pins s \<Longrightarrow> plain_stage s (init_reset_button s)"
  by (simp_all add: plain_stage_def board_pins_def init_config_button_def init_reset_button_def
      button_init_def isValidInputPin_def emit_def)

lemma plain_stage_trans: "plain_stage s t \<Longrightarrow> plain_stage t u \<Longrightarrow> plain_stage s u"
  by (simp add: plain_stage_def)

lemma plain_hardware:
  fixes s :: "'a firmware_scheme"
  assumes "board_pins s" "\<not> unexpected_reset r" "status s = Running"
  shows "plain_stage s (run_all [init_red_led, init_display r, init_green_led, init_config_button,
    init_reset_button] s)"
proof -
  define s1 where "s1 = init_red_led s"
  define s2 where "s2 = init_display r s1"
  define s3 where "s3 = init_green_led s2"
  define s4 where "s4 = init_config_button s3"
  define s5 where "s5 = init_reset_button s4"
  have pins: "plain_stage t u \<Longrightarrow> board_pins u" for t u :: "'a firmware_scheme" by (simp add: plain_stage_def)
  have p1: "plain_stage s s1" unfolding s1_def by (rule plain_red [OF assms(1)])
  have p2: "plain_stage s1 s2" unfolding s2_def by (rule plain_display [OF pins [OF p1] assms(2)])
  have p3: "plain_stage s2 s3" unfolding s3_def by (rule plain_green [OF pins [OF p2]])
  have p4: "plain_stage s3 s4" unfolding s4_def by (rule plain_buttons(1) [OF pins [OF p3]])
  have p5: "plain_stage s4 s5" unfolding s5_def by (rule plain_buttons(2) [OF pins [OF p4]])
  have "status s1 = Running" "status s2 = Running" "status s3 = Running" "status s4 = Running"
    using assms(3) p1 p2 p3 p4 by (simp_all add: plain_stage_def)
  then have "run_all [init_red_led, init_display r, init_green_led, init_config_button, init_reset_button] s
      = (if status s5 = Running then s5 else s5)"
    by (simp add: andthen_def Let_def flip: s1_def s2_def s3_def s4_def s5_def)
  then show ?thesis
    using p1 p2 p3 p4 p5 plain_stage_trans by (metis (full_types))
qed

lemma run_all_stops: "status (f s) \<noteq> Running \<Longrightarrow> status (run_all (f # fs) s) = status (f s)"
  by (simp add: andthen_def Let_def)

lemma setup_after_hardware:
  fixes s :: "'a firmware_scheme"
  assumes "status (track_reset r s) = Running" "board_pins (track_reset r s)" "\<not> unexpected_reset r"
  shows "\<exists>t. plain_stage (track_reset r s) t \<and> firmware_setup E r s = run_all [init_dev_mode, init_peers,
    init_defaults, init_adapter, init_mesh E, print_public_key, init_role, link_adapter] t"
proof -
  let ?hw = "[init_red_led, init_display r, init_green_led, init_config_button, init_reset_button]
    :: ('a firmware_scheme \<Rightarrow> 'a firmware_scheme) list"
  define t where "t = run_all ?hw (track_reset r s)"
  have p: "plain_stage (track_reset r s) t" unfolding t_def using plain_hardware assms by blast
  then have "status t = Running" using assms(1) by (simp add: plain_stage_def)
  moreover have "firmware_setup E r s = run_all (?hw @ [init_dev_mode, init_peers, init_defaults, init_adapter,
      init_mesh E, print_public_key, init_role, link_adapter]) (track_reset r s)"
    using assms(1) by (simp add: firmware_setup_def andthen_def Let_def)
  ultimately have "firmware_setup E r s = run_all [init_dev_mode, init_peers, init_defaults, init_adapter,
      init_mesh E, print_public_key, init_role, link_adapter] t"
    by (subst (asm) run_all_append) (simp add: Let_def flip: t_def del: run_all.simps)
  with p show ?thesis by blast
qed

text \<open>What the mesh object's start-up leaves alone: everything beyond the mesh node.\<close>

lemma check_esp_more [simp]: "node.more (check_esp ok ty s) = node.more s"
  by (simp add: check_esp_def fail_type_def)

lemma meshnode_more [simp]:
  "meshnode.more (on_mesh f s) = meshnode.more s" "meshnode.more (on_ee g s) = meshnode.more s"
  by (simp_all add: on_mesh_def on_ee_def)

lemmas meshnode_more_node [simp] = node_more_fields(4) [OF node_more_emit]
  node_more_fields(4) [OF fail_more] node_more_fields(4) [OF fatal_more]
  node_more_fields(4) [OF check_esp_more]

lemma meshnode_more_register [simp]:
  "meshnode.more (registerPeerWithEspNow E a k pub s) = meshnode.more s"
  by (simp add: registerPeerWithEspNow_def esp_now_add_peer_def split: sum.split)

text \<open>The stored configuration: what a start-up may change is the reboot record, the keys and the epoch.\<close>

definition config_cells :: "eeprom \<Rightarrow> byte \<times> byte \<times> byte" where
  "config_cells e = (ee_read MASTER_FLAG e, ee_read DEV_FLAG e, ee_read ADAPTER_TYPE e)"

lemma config_cells_saves [simp]:
  "config_cells (saveRebootReason r e) = config_cells e"
  "config_cells (saveRebootCount c e) = config_cells e"
  "config_cells (setDevMode d e) = config_cells e"
  "config_cells (saveMeshKey k n e) = config_cells e"
  "config_cells (saveBootEpoch ep e) = config_cells e"
  by (simp_all add: config_cells_def saveRebootReason_def saveRebootCount_def saveMeshKey_def
      saveBootEpoch_def ee_frame)

lemma config_cells_keypair [simp]:
  "length (ee_cells e) = TOTAL_SIZE \<Longrightarrow> config_cells (saveKeypair p q e) = config_cells e"
  by (simp add: config_cells_def saveKeypair_read in_region_def)

lemma saves_length [simp]:
  "length (ee_cells (saveRebootReason r e)) = length (ee_cells e)"
  "length (ee_cells (saveRebootCount c e)) = length (ee_cells e)"
  "length (ee_cells (saveMeshKey k n e)) = length (ee_cells e)"
  "length (ee_cells (saveBootEpoch ep e)) = length (ee_cells e)"
  "ee_init (saveMeshKey k n e) = ee_init e" "ee_init (saveBootEpoch ep e) = ee_init e"
  by (simp_all add: saveRebootReason_def saveRebootCount_def saveMeshKey_def saveBootEpoch_def)

lemma saveKeypair_fields [simp]:
  "length (ee_cells (saveKeypair p q e)) = length (ee_cells e)" "ee_init (saveKeypair p q e) = ee_init e"
  by (simp_all add: saveKeypair_def Let_def write_keys_fields)

definition env_boots :: "env \<Rightarrow> bool" where
  "env_boots E \<longleftrightarrow> channel_ok E \<and> mac_ok E \<and> espnow_init_ok E \<and> (\<exists>k. keygen E = Inr k)
     \<and> (\<forall>a b. \<exists>x. ecdh E a b = Inr x) \<and> (\<forall>a. \<exists>x. sha256 E a = Inr x)"

lemma env_boots_quiet [simp]: "env_boots (quiet_env m)"
  by (simp add: env_boots_def)

definition boot_frame :: "'a meshnode_scheme \<Rightarrow> 'a meshnode_scheme \<Rightarrow> bool" where
  "boot_frame s s' \<longleftrightarrow> status s' = status s \<and> meshnode.more s' = meshnode.more s
     \<and> config_cells (ee s') = config_cells (ee s) \<and> length (ee_cells (ee s')) = length (ee_cells (ee s))
     \<and> ee_init (ee s') = ee_init (ee s)"

lemma boot_frame_refl [simp]: "boot_frame s s"
  by (simp add: boot_frame_def)

lemma boot_frame_trans: "boot_frame s t \<Longrightarrow> boot_frame t u \<Longrightarrow> boot_frame s u"
  by (simp add: boot_frame_def)

lemma boot_frame_mesh [simp]: "boot_frame s (on_mesh f s)" "boot_frame s (s\<lparr>mesh := m\<rparr>)"
  by (simp_all add: boot_frame_def)

lemma boot_frame_keys:
  assumes "length (ee_cells (ee s)) = TOTAL_SIZE" "env_boots E"
  shows "boot_frame s (loadOrGenerateKeypair E s)"
  using assms
  by (auto simp: loadOrGenerateKeypair_def boot_frame_def set_keys_def env_boots_def Let_def
      split: option.split)

lemma boot_frame_loads:
  "boot_frame s (loadPeersFromEEPROM s)" "boot_frame s (loadMeshKeyFromEEPROM s)"
  "boot_frame s (load_known_masters s)" "boot_frame s (bump_epoch s)"
  by (auto simp: boot_frame_def loadPeersFromEEPROM_def loadMeshKeyFromEEPROM_def
      saveMeshKeyToEEPROM_def load_known_masters_def bump_epoch_def Let_def split: option.split)

lemma boot_frame_wifi: "env_boots E \<Longrightarrow> boot_frame s (setupWiFi E s)"
  by (simp add: setupWiFi_def readMacAddress_def check_esp_def env_boots_def andthen_def)

lemma boot_frame_power: "boot_frame s (apply_tx_power E s)"
  by (simp add: boot_frame_def apply_tx_power_def Let_def)

lemma env_boots_derive: "env_boots E \<Longrightarrow> \<exists>k. derivePeerLMK E a b = Inr k"
proof -
  assume "env_boots E"
  then obtain x where x: "ecdh E a b = Inr x" unfolding env_boots_def by blast
  obtain d where "sha256 E (x @ lmk_label) = Inr d"
    using \<open>env_boots E\<close> unfolding env_boots_def by blast
  with x show ?thesis by (simp add: derivePeerLMK_def)
qed

lemma boot_frame_register:
  assumes "env_boots E"
  shows "boot_frame s (register_entry E p s)"
proof -
  obtain k where "derivePeerLMK E (devicePrivateKey (mesh s)) (publicKey p) = Inr k"
    using env_boots_derive [OF assms] by blast
  then show ?thesis
    by (simp add: boot_frame_def register_entry_def registerPeerWithEspNow_def esp_now_add_peer_def)
qed

lemma boot_frame_espnow:
  assumes "env_boots E"
  shows "fst (setupEspNow E s)" "boot_frame s (snd (setupEspNow E s))"
proof -
  have fold: "boot_frame s (fold (\<lambda>p t. if status t = Running then register_entry E p t else t) ps t)"
    if "boot_frame s t" for ps t
    using that
    by (intro fold_invariant [where I = "boot_frame s"])
      (auto intro: boot_frame_trans boot_frame_register [OF assms])
  show "fst (setupEspNow E s)" "boot_frame s (snd (setupEspNow E s))"
    using assms
    by (auto simp: setupEspNow_def Let_def env_boots_def intro!: fold)
      (simp_all add: boot_frame_def esp_now_add_peer_def)
qed

lemma boot_frame_mesh_init:
  assumes "env_boots E" "length (ee_cells (ee s)) = TOTAL_SIZE" "status s = Running"
  shows "fst (mesh_init E s)" "boot_frame s (snd (mesh_init E s))"
proof -
  define s1 where "s1 = loadMeshKeyFromEEPROM (loadPeersFromEEPROM s)"
  have f1: "boot_frame s s1" unfolding s1_def by (rule boot_frame_trans [OF boot_frame_loads(1,2)])
  define s2 where "s2 = loadOrGenerateKeypair E s1"
  have f2: "boot_frame s s2"
    unfolding s2_def using assms(2) f1
    by (intro boot_frame_trans [OF f1 boot_frame_keys] assms(1)) (simp add: boot_frame_def)
  define s3 where "s3 = bump_epoch (load_known_masters s2)"
  have f3: "boot_frame s s3"
    unfolding s3_def by (rule boot_frame_trans [OF f2 boot_frame_trans [OF boot_frame_loads(3,4)]])
  define s4 where "s4 = setupWiFi E s3"
  have f4: "boot_frame s s4" unfolding s4_def by (rule boot_frame_trans [OF f3 boot_frame_wifi [OF assms(1)]])
  define s5 where "s5 = apply_tx_power E s4"
  have f5: "boot_frame s s5" unfolding s5_def by (rule boot_frame_trans [OF f4 boot_frame_power])
  have load: "loadPersistentState E s = load_known_masters s2"
    using f2 assms(3) by (simp add: loadPersistentState_def boot_frame_def flip: s1_def s2_def)
  have r: "status (load_known_masters s2) = Running" "status s4 = Running" "status s5 = Running"
    using boot_frame_trans [OF f2 boot_frame_loads(3)] f4 f5 assms(3) by (simp_all add: boot_frame_def)
  have "mesh_init E s = setupEspNow E s5"
    using r by (simp add: mesh_init_def Let_def load flip: s3_def s4_def s5_def)
  then show "fst (mesh_init E s)" "boot_frame s (snd (mesh_init E s))"
    using boot_frame_espnow [OF assms(1), of s5] boot_frame_trans [OF f5] by simp_all
qed

text \<open>A part with the current schema, production mode, a known adapter type and some stored peer.\<close>

definition provisioned :: "eeprom \<Rightarrow> bool" where
  "provisioned e \<longleftrightarrow> length (ee_cells e) = TOTAL_SIZE \<and> ee_read SCHEMA_VERSION e = CURRENT_SCHEMA_VERSION
     \<and> ee_read DEV_FLAG e \<noteq> 1 \<and> (ee_read ADAPTER_TYPE e = 1 \<or> ee_read ADAPTER_TYPE e = 2)
     \<and> list_ex (\<lambda>b. b \<noteq> 0xFF) (ee_reads PEER_LIST PEER_LIST_SIZE e)"

lemma provisioned_cong:
  assumes "length (ee_cells e') = length (ee_cells e)"
    and "\<And>a. a \<noteq> REBOOT_REASON \<Longrightarrow> a \<noteq> REBOOT_COUNT \<Longrightarrow> ee_read a e' = ee_read a e"
  shows "provisioned e' = provisioned e"
proof -
  have "ee_reads PEER_LIST PEER_LIST_SIZE e' = ee_reads PEER_LIST PEER_LIST_SIZE e"
    by (rule ee_reads_cong) (auto intro: assms(2))
  then show ?thesis by (simp add: provisioned_def assms)
qed

lemma provisioned_init:
  "provisioned e \<Longrightarrow> \<not> ee_init e \<Longrightarrow> provisioned (eeprom_init e)"
  by (subst provisioned_cong [of _ e]) (simp_all add: provisioned_def eeprom_init_current)

lemma provisioned_saves [simp]:
  "provisioned (saveRebootReason r e) = provisioned e" "provisioned (saveRebootCount c e) = provisioned e"
  "provisioned (setDevMode d e) = provisioned e"
  by (rule provisioned_cong; simp add: saveRebootReason_def saveRebootCount_def ee_frame)+

text \<open>What holds between two stages of the boot of such a part.\<close>

definition boot_ready :: "eeprom \<Rightarrow> 'a firmware_scheme \<Rightarrow> bool" where
  "boot_ready e s \<longleftrightarrow> status s = Running \<and> board_pins s \<and> provisioned (ee s) \<and> ee_init (ee s)
     \<and> config_cells (ee s) = config_cells e"

lemma ready_track_reset:
  assumes "status s = Running" "board_pins s" "provisioned (ee s)" "\<not> ee_init (ee s)" "\<not> unexpected_reset r"
  shows "boot_ready (ee s) (track_reset r s)"
proof -
  have n: "\<not> is_wdt_reset r" using assms(5) by (auto simp: is_wdt_reset_def unexpected_reset_def)
  have "config_cells (eeprom_init (ee s)) = config_cells (ee s)"
    using assms(3,4) by (simp add: config_cells_def eeprom_init_current provisioned_def)
  then show ?thesis
    using assms(1,2) n
    by (simp add: boot_ready_def track_reset_ee provisioned_init assms(3,4) eeprom_init_init)
      (simp add: track_reset_def board_pins_def on_ee_def)
qed

lemma ready_plain: "boot_ready e s \<Longrightarrow> plain_stage s s' \<Longrightarrow> boot_ready e s'"
  by (simp add: boot_ready_def plain_stage_def)

lemma ready_dev_mode:
  assumes "boot_ready e s"
  shows "boot_ready e (init_dev_mode s)" "\<not> isDevMode (init_dev_mode s)" "\<not> factoryDevMode (init_dev_mode s)"
proof -
  have "ee_read DEV_FLAG (ee s) \<noteq> 1" using assms by (simp add: boot_ready_def provisioned_def)
  then show "boot_ready e (init_dev_mode s)" "\<not> isDevMode (init_dev_mode s)" "\<not> factoryDevMode (init_dev_mode s)"
    using assms
    by (simp_all add: boot_ready_def init_dev_mode_def setFactoryDevMode_def Let_def loadDevFlag_def on_ee_def
        board_pins_def)
qed

lemma ready_defaults:
  assumes "boot_ready e s" "\<not> isDevMode s" "\<not> factoryDevMode s"
  shows "init_peers s = s" "init_defaults s = s"
  using assms
  by (auto simp: boot_ready_def provisioned_def init_peers_def hasPeers_def ensureInitialized_def
      init_defaults_def initializeDefaultsIfUnset_def loadAdapterType_def Let_def)

lemma ready_adapter:
  assumes "boot_ready e s" "\<not> isDevMode s" "\<not> factoryDevMode s"
  shows "boot_ready e (init_adapter s)" "\<not> isDevMode (init_adapter s)"
    "\<exists>a. adapter (init_adapter s) = Some a \<and> adapterType a = ucast (ee_read ADAPTER_TYPE e)"
  using assms
  by (auto simp: boot_ready_def provisioned_def init_adapter_def createFromEEPROM_def Let_def
      loadAdapterTypeFromEEPROM_def loadAdapterType_def ensureInitialized_def adapterTypeFromEEPROM_def
      createAdapter_def adapter_init_def getDefaultPinForAdapter_def pir_adapter_init_def new_PIR_Adapter_def
      Pir_def pir_init_def isValidInputPin_def pir_attach_def emit_def board_pins_def config_cells_def)


lemma meshnode_more_fields:
  assumes "meshnode.more s' = meshnode.more s"
  shows "isDevMode s' = isDevMode s" "adapter s' = adapter s"
  using assms by (cases s; cases s'; simp)+

lemma boot_init_mesh:
  assumes "boot_ready e s" "env_boots E"
  shows "status (init_mesh E s) = Running" "adapter (init_mesh E s) = adapter s"
    "isDevMode (init_mesh E s) = isDevMode s" "ee_init (ee (init_mesh E s))"
    "config_cells (ee (init_mesh E s)) = config_cells e"
proof -
  have r: "length (ee_cells (ee s)) = TOTAL_SIZE" "status s = Running"
    using assms(1) by (simp_all add: boot_ready_def provisioned_def)
  note f = boot_frame_mesh_init [OF assms(2) r]
  have eq: "init_mesh E s = snd (mesh_init E s)"
    using f r(2) by (auto simp: init_mesh_def Let_def split_beta)
  show "status (init_mesh E s) = Running" "adapter (init_mesh E s) = adapter s"
    "isDevMode (init_mesh E s) = isDevMode s" "ee_init (ee (init_mesh E s))"
    "config_cells (ee (init_mesh E s)) = config_cells e"
    using assms(1) f(2) meshnode_more_fields [of "snd (mesh_init E s)" s]
    by (simp_all add: eq boot_frame_def boot_ready_def)
qed

lemma print_public_key_fields [simp]:
  "status (print_public_key s) = status s" "adapter (print_public_key s) = adapter s"
  "isDevMode (print_public_key s) = isDevMode s" "ee (print_public_key s) = ee s"
  by (simp_all add: print_public_key_def println_def emit_def)

text \<open>The stages of set-up before the mesh starts.\<close>

lemma boot_to_adapter:
  fixes s :: "'a firmware_scheme"
  assumes "status s = Running" "board_pins s" "provisioned (ee s)" "\<not> ee_init (ee s)"
    and "\<not> unexpected_reset r"
  shows "\<exists>t a. firmware_setup E r s = run_all [init_mesh E, print_public_key, init_role, link_adapter] t
    \<and> boot_ready (ee s) t \<and> \<not> isDevMode t \<and> adapter t = Some a
    \<and> adapterType a = ucast (ee_read ADAPTER_TYPE (ee s))"
proof -
  have r1: "boot_ready (ee s) (track_reset r s)" by (rule ready_track_reset [OF assms])
  then obtain s2 where p2: "plain_stage (track_reset r s) s2"
    and eq: "firmware_setup E r s = run_all [init_dev_mode, init_peers, init_defaults, init_adapter,
        init_mesh E, print_public_key, init_role, link_adapter] s2"
    using setup_after_hardware [of r s E] assms(5) by (auto simp: boot_ready_def)
  define s3 where "s3 = init_dev_mode s2"
  define s4 where "s4 = init_adapter s3"
  note r2 = ready_plain [OF r1 p2]
  note r3 = ready_dev_mode [OF r2, folded s3_def]
  note r4 = ready_adapter [OF r3, folded s4_def]
  have "status s3 = Running" "status s4 = Running" using r3(1) r4(1) by (simp_all add: boot_ready_def)
  then have "firmware_setup E r s = run_all [init_mesh E, print_public_key, init_role, link_adapter] s4"
    unfolding eq by (simp add: ready_defaults [OF r3] andthen_def Let_def flip: s3_def s4_def)
  with r4 show ?thesis by blast
qed

lemma provisioned_setup:
  assumes "provisioned (ee_power_cycle e)" and "env_boots E" and "\<not> unexpected_reset reason"
    and "s' = firmware_setup E reason (boot_state e)"
  shows "status s' = Running
    \<and> isMaster (mesh s') = (ee_read MASTER_FLAG (ee_power_cycle e) = 1)
    \<and> (\<exists>a. adapter s' = Some a \<and> transmitSet a
         \<and> adapterType a = ucast (ee_read ADAPTER_TYPE (ee_power_cycle e)))"
proof -
  let ?p = "ee_power_cycle e"
  have s0: "status (boot_state e) = Running" "ee (boot_state e) = ?p" "\<not> ee_init ?p"
    by (simp_all add: boot_state_def ee_power_cycle_def)
  then obtain t a where t: "s' = run_all [init_mesh E, print_public_key, init_role, link_adapter] t"
    and r: "boot_ready ?p t" "\<not> isDevMode t" "adapter t = Some a"
    and ty: "adapterType a = ucast (ee_read ADAPTER_TYPE ?p)"
    using boot_to_adapter [of "boot_state e" reason E] assms by auto
  define u where "u = print_public_key (init_mesh E t)"
  note f = boot_init_mesh [OF r(1) assms(2)]
  have u: "status u = Running" "adapter u = Some a" "\<not> isDevMode u" "ee_init (ee u)"
     "config_cells (ee u) = config_cells ?p"
    using f r(2,3) by (simp_all add: u_def)
  have "s' = link_adapter (init_role u)"
    using f(1) u(1) by (simp add: t andthen_def Let_def init_role_def flip: u_def)
  moreover have "adapter (on_mesh g u) = adapter u" for g by (simp add: on_mesh_def)
  ultimately show ?thesis
    using u ty by (simp add: link_adapter_def init_role_def setTransmitFn_def loadMasterFlag_def
        ensureInitialized_def config_cells_def)
qed

definition ee_sensor :: eeprom where
  "ee_sensor = ee_blank\<lparr>ee_flash := (replicate 512 0xFF)[SCHEMA_VERSION := 3, ADAPTER_TYPE := 2, PEER_LIST := 0x24]\<rparr>"

lemma provisioned_sensor: "provisioned (ee_power_cycle ee_sensor)"
proof -
  let ?e = "ee_power_cycle ee_sensor"
  have rd: "ee_read a ?e = ((replicate 512 0xFF)[SCHEMA_VERSION := 3, ADAPTER_TYPE := 2, PEER_LIST := 0x24]) ! a"
    if "a < TOTAL_SIZE" for a
    using that by (simp add: ee_sensor_def ee_power_cycle_def ee_read_def)
  have "ee_reads PEER_LIST PEER_LIST_SIZE ?e ! 0 = 0x24"
    by (simp add: ee_reads_def nth_read_list rd)
  then have "list_ex (\<lambda>b. b \<noteq> 0xFF) (ee_reads PEER_LIST PEER_LIST_SIZE ?e)"
    unfolding list_ex_iff by (intro bexI [of _ "0x24 :: byte"]) (auto simp: in_set_conv_nth intro: exI [of _ 0])
  then show ?thesis
    by (simp add: provisioned_def rd) (simp add: ee_sensor_def ee_power_cycle_def)
qed

lemma sensor_boots: "status (firmware_setup (quiet_env nodeA) 1 (boot_state ee_sensor)) = Running"
proof -
  have "\<not> unexpected_reset 1" by (simp add: unexpected_reset_def)
  from provisioned_setup [OF provisioned_sensor env_boots_quiet this refl, of nodeA]
  show ?thesis by blast
qed

text \<open>
  C31. Power-on of a provisioned part, on hardware and libraries that start, ends in the loop: with the
  adapter of the stored type, connected to the mesh, and in the stored role.
\<close>
theorem provisioned_part_boots:
  assumes "provisioned (ee_power_cycle e)" and "env_boots E" and "\<not> unexpected_reset reason"
    and "s' = firmware_setup E reason (boot_state e)"
  shows "status s' = Running
    \<and> isMaster (mesh s') = (ee_read MASTER_FLAG (ee_power_cycle e) = 1)
    \<and> (\<exists>a. adapter s' = Some a \<and> transmitSet a
         \<and> adapterType a = ucast (ee_read ADAPTER_TYPE (ee_power_cycle e)))"
  by (rule provisioned_setup [OF assms])

theorem provisioned_part_boots_witness:
  "status (firmware_setup (quiet_env nodeA) 1 (boot_state ee_sensor)) = Running"
proof -
  have "\<not> unexpected_reset 1" by (simp add: unexpected_reset_def)
  from provisioned_part_boots [OF provisioned_sensor env_boots_quiet this refl, of nodeA]
  show ?thesis by blast
qed

section \<open>A part without stored peers\<close>

text \<open>A new part: erased peer list, schema cell erased or current, production mode.\<close>

definition new_part :: "eeprom \<Rightarrow> bool" where
  "new_part e \<longleftrightarrow> length (ee_cells e) = TOTAL_SIZE \<and> ee_read DEV_FLAG e \<noteq> 1
     \<and> (ee_read SCHEMA_VERSION e = 0xFF \<or> ee_read SCHEMA_VERSION e = CURRENT_SCHEMA_VERSION)
     \<and> (\<forall>i<PEER_LIST_SIZE. ee_read (PEER_LIST + i) e = 0xFF)"

lemma eeprom_init_new:
  assumes "ee_read SCHEMA_VERSION e = 0xFF \<or> ee_read SCHEMA_VERSION e = CURRENT_SCHEMA_VERSION"
    and "\<not> ee_init e" and "a < REBOOT_REASON"
  shows "ee_read a (eeprom_init e) = ee_read a e"
proof -
  let ?e = "e\<lparr>ee_init := True\<rparr>"
  have "ee_read x ?e = ee_read x e" for x by (rule ee_read_cong) simp
  then have "ee_read a (init_schema ?e) = ee_read a e"
    using assms by (auto simp: init_schema_def Let_def ee_frame)
  then show ?thesis using assms(2,3) by (simp add: eeprom_init_def init_wdt_read)
qed

definition fresh_ready :: "'a firmware_scheme \<Rightarrow> bool" where
  "fresh_ready s \<longleftrightarrow> status s = Running \<and> board_pins s \<and> ee_init (ee s) \<and> ee_read DEV_FLAG (ee s) \<noteq> 1
     \<and> \<not> hasPeers (ee s)"

lemma no_peers_cong:
  "(\<And>i. i < PEER_LIST_SIZE \<Longrightarrow> ee_read (PEER_LIST + i) e = 0xFF) \<Longrightarrow> \<not> hasPeers e"
  by (auto simp: hasPeers_def ee_reads_def list_ex_iff in_set_conv_nth)

lemma fresh_track_reset:
  assumes "status s = Running" "board_pins s" "new_part (ee s)" "\<not> ee_init (ee s)" "\<not> unexpected_reset r"
  shows "fresh_ready (track_reset r s)"
proof -
  have n: "\<not> is_wdt_reset r" using assms(5) by (auto simp: is_wdt_reset_def unexpected_reset_def)
  have low: "ee_read a (ee (track_reset r s)) = ee_read a (ee s)" if "a < REBOOT_REASON" for a
    using that assms(3,4) n
    by (simp add: track_reset_ee saveRebootReason_def saveRebootCount_def ee_frame eeprom_init_new new_part_def)
  have "\<not> hasPeers (ee (track_reset r s))"
    using assms(3) by (intro no_peers_cong) (simp add: low new_part_def)
  moreover have "status (track_reset r s) = Running" "board_pins (track_reset r s)"
    using assms(1,2) n by (simp_all add: track_reset_def board_pins_def on_ee_def Let_def)
  ultimately show ?thesis
    using assms(3) low [of DEV_FLAG]
    by (simp add: fresh_ready_def new_part_def track_reset_ee eeprom_init_init)
qed

lemma fresh_dev_mode:
  assumes "fresh_ready s"
  shows "fresh_ready (init_dev_mode s)" "\<not> isDevMode (init_dev_mode s)" "\<not> ee_dev (ee (init_dev_mode s))"
proof -
  have "ee_read DEV_FLAG (ee s) \<noteq> 1" "ee_init (ee s)" using assms by (simp_all add: fresh_ready_def)
  moreover have "ee_reads PEER_LIST PEER_LIST_SIZE (setDevMode d e) = ee_reads PEER_LIST PEER_LIST_SIZE e" for d e
    by (rule ee_reads_cong) simp
  ultimately show "fresh_ready (init_dev_mode s)" "\<not> isDevMode (init_dev_mode s)" "\<not> ee_dev (ee (init_dev_mode s))"
    using assms
    by (simp_all add: fresh_ready_def init_dev_mode_def setFactoryDevMode_def Let_def loadDevFlag_def on_ee_def
        board_pins_def hasPeers_def ensureInitialized_def) (simp add: setDevMode_def)
qed

lemma fresh_peers_fault:
  "fresh_ready s \<Longrightarrow> \<not> isDevMode s \<Longrightarrow> \<not> ee_dev (ee s) \<Longrightarrow> status (init_peers s) = Faulted"
  by (simp add: fresh_ready_def init_peers_def savePeerList_def ensureInitialized_def DEFAULT_PEERS_def fault_def)

text \<open>
  C33. The first power-on of a part without stored peers reads past an array: set-up saves the two default
  addresses, twelve bytes, as two records of 38 bytes each.
\<close>
theorem new_part_over_reads:
  assumes "new_part (ee_power_cycle e)" and "\<not> unexpected_reset reason"
  shows "status (firmware_setup E reason (boot_state e)) = Faulted"
proof -
  let ?s = "boot_state e"
  have s0: "status ?s = Running" "ee ?s = ee_power_cycle e" "\<not> ee_init (ee_power_cycle e)"
    by (simp_all add: boot_state_def ee_power_cycle_def)
  then have r: "fresh_ready (track_reset reason ?s)" using assms by (intro fresh_track_reset) simp_all
  then obtain t where t: "plain_stage (track_reset reason ?s) t" and eq: "firmware_setup E reason ?s = run_all
      [init_dev_mode, init_peers, init_defaults, init_adapter, init_mesh E, print_public_key, init_role, link_adapter] t"
    using setup_after_hardware [of reason ?s E] assms(2) by (auto simp: fresh_ready_def)
  then have "fresh_ready t" using r by (simp add: fresh_ready_def plain_stage_def)
  note f = fresh_dev_mode [OF this]
  note fault = fresh_peers_fault [OF f]
  have "status (init_dev_mode t) = Running" using f(1) by (simp add: fresh_ready_def)
  then have "firmware_setup E reason ?s = run_all (init_peers # [init_defaults, init_adapter, init_mesh E,
      print_public_key, init_role, link_adapter]) (init_dev_mode t)"
    unfolding eq by (subst run_all.simps) (simp add: andthen_def Let_def)
  then show ?thesis using run_all_stops [of init_peers] fault by simp
qed

theorem new_part_over_reads_witness:
  "status (firmware_setup (quiet_env nodeA) 1 (boot_state ee_blank)) = Faulted"
proof (rule new_part_over_reads)
  have "ee_read a (ee_power_cycle ee_blank) = 0xFF" for a
    by (simp add: ee_read_def ee_power_cycle_def ee_blank_def)
  then show "new_part (ee_power_cycle ee_blank)"
    by (simp add: new_part_def) (simp add: ee_power_cycle_def ee_blank_def)
qed (simp add: unexpected_reset_def)

section \<open>Watchdog resets\<close>

text \<open>Flash of a part with the current schema that has counted \<open>c\<close> watchdog resets.\<close>

definition wdt_flash :: "byte \<Rightarrow> byte list \<Rightarrow> bool" where
  "wdt_flash c f \<longleftrightarrow> length f = TOTAL_SIZE \<and> f ! SCHEMA_VERSION = CURRENT_SCHEMA_VERSION
     \<and> f ! REBOOT_COUNT = c"

lemma wdt_init:
  assumes "wdt_flash c (ee_flash e)" "c < 4"
  shows "wdt_flash c (ee_flash (eeprom_init (ee_power_cycle e)))"
    "ee_read REBOOT_COUNT (eeprom_init (ee_power_cycle e)) = c"
proof -
  let ?p = "ee_power_cycle e\<lparr>ee_init := True\<rparr>"
  define q where "q = (if ee_read REBOOT_REASON ?p = 0 then ee_write REBOOT_REASON 0xFF ?p else ?p)"
  have rd: "ee_read SCHEMA_VERSION ?p = CURRENT_SCHEMA_VERSION" "ee_read REBOOT_COUNT ?p = c"
    using assms(1) by (simp_all add: wdt_flash_def ee_read_def ee_power_cycle_def)
  have q: "ee_read SCHEMA_VERSION q = CURRENT_SCHEMA_VERSION" "ee_read REBOOT_COUNT q = c"
    "length (ee_cells q) = TOTAL_SIZE" "ee_flash q = ee_flash e"
    using assms(1) by (simp_all add: q_def rd ee_read_write_other)
      (simp_all add: wdt_flash_def ee_power_cycle_def)
  have "\<not> c > 10" using assms(2) by (simp add: word_less_nat_alt)
  then have "init_wdt_bytes ?p = ee_commit q"
    using q(2) by (simp add: init_wdt_bytes_def Let_def flip: q_def)
  then have e: "eeprom_init (ee_power_cycle e) = ee_commit q"
  proof -
    have "init_schema ?p = ?p" by (simp add: init_schema_def rd Let_def)
    moreover have "\<not> ee_init (ee_power_cycle e)" by (simp add: ee_power_cycle_def)
    ultimately show ?thesis using \<open>init_wdt_bytes ?p = ee_commit q\<close> by (simp add: eeprom_init_def)
  qed
  show "ee_read REBOOT_COUNT (eeprom_init (ee_power_cycle e)) = c" using q(2) by (simp add: e)
  show "wdt_flash c (ee_flash (eeprom_init (ee_power_cycle e)))"
    using q assms(1) by (auto simp: e ee_commit_def wdt_flash_def ee_read_def)
qed

lemma save_flash [simp]:
  "ee_flash (saveRebootReason r e) = ee_flash e" "ee_flash (saveRebootCount c e) = ee_flash e"
  by (simp_all add: saveRebootReason_def saveRebootCount_def)

lemma saveRebootReason_count [simp]:
  "ee_read REBOOT_COUNT (saveRebootReason r e) = ee_read REBOOT_COUNT e"
  by (simp add: saveRebootReason_def ee_read_write_other)

lemma wdt_track_reset:
  assumes "wdt_flash c (ee_flash (ee s))" "c < 4" "ee s = ee_power_cycle (ee s)" "is_wdt_reset r"
    and "status s = Running" "board_pins s"
  shows "status (track_reset r s) = Running" "board_pins (track_reset r s)"
    "wdt_flash c (ee_flash (ee (track_reset r s)))"
proof -
  define e1 where "e1 = saveRebootReason r (eeprom_init (ee s))"
  have c: "ee_read REBOOT_COUNT e1 = c" and f: "wdt_flash c (ee_flash e1)"
    using wdt_init [OF assms(1,2)] assms(3) by (simp_all add: e1_def)
  define n where "n = loadRebootCount e1 + 1"
  have "n = c + 1" using c by (simp add: n_def loadRebootCount_def ensureInitialized_def e1_def eeprom_init_init)
  then have "\<not> 5 \<le> n" using assms(2) by (simp add: word_le_nat_alt word_less_nat_alt unat_word_ariths)
  then show "status (track_reset r s) = Running" "board_pins (track_reset r s)"
    using assms(4-6)
    by (simp_all add: track_reset_def Let_def on_ee_def board_pins_def emit_def flip: e1_def n_def)
  show "wdt_flash c (ee_flash (ee (track_reset r s)))"
    using f by (simp add: track_reset_ee flip: e1_def)
qed

lemma wdt_display:
  assumes "status s = Running" "board_pins s" "is_wdt_reset r"
  shows "status (init_display r s) = Restarted"
  using assms
  by (auto simp: is_wdt_reset_def unexpected_reset_def init_display_def display_init_def display_clear_def
      errorcore_init_def signalError_def signalErrorType_status shouldRestart_def Let_def emit_def delay_ms_def)


lemma wdt_setup:
  assumes "wdt_flash c (ee_flash e)" "c < 4" "is_wdt_reset r"
  shows "status (firmware_setup E r (boot_state e)) = Restarted"
    "wdt_flash c (ee_flash (ee (firmware_setup E r (boot_state e))))"
proof -
  let ?s = "boot_state e"
  define s1 where "s1 = track_reset r ?s"
  define s2 where "s2 = init_red_led s1"
  define s3 where "s3 = init_display r s2"
  have s0: "status ?s = Running" "ee ?s = ee_power_cycle e" by (simp_all add: boot_state_def)
  have pc: "ee_flash (ee_power_cycle e) = ee_flash e" "ee_power_cycle (ee_power_cycle e) = ee_power_cycle e"
    by (simp_all add: ee_power_cycle_def)
  note t = wdt_track_reset [of c ?s r, folded s1_def, unfolded s0 pc, OF assms(1,2) refl assms(3) refl board_pins_boot]
  have p2: "plain_stage s1 s2" unfolding s2_def by (rule plain_red [OF t(2)])
  then have "status s2 = Running" "board_pins s2" using t(1) by (simp_all add: plain_stage_def)
  then have s3: "status s3 = Restarted" unfolding s3_def by (rule wdt_display [OF _ _ assms(3)])
  have "firmware_setup E r ?s = s3"
    using t(1) \<open>status s2 = Running\<close> s3
    by (simp add: firmware_setup_def andthen_def Let_def flip: s1_def s2_def s3_def)
  moreover have "ee s3 = ee s1" using p2 by (simp add: s3_def plain_stage_def)
  ultimately show "status (firmware_setup E r ?s) = Restarted"
    "wdt_flash c (ee_flash (ee (firmware_setup E r ?s)))" using s3 t(3) by simp_all
qed

text \<open>
  C34. The watchdog counter never reaches the count of five at which set-up would halt the device: the
  error display of an unexpected reset restarts the device before the incremented count is
  committed. However many watchdog resets follow one another, each boot ends in a restart and finds
  the count that the last clean boot stored.
\<close>
theorem watchdog_halt_unreachable:
  assumes "wdt_flash c (ee_flash e)" and "c < 4" and "\<forall>r \<in> set (r # rs). is_wdt_reset r"
    and "e' = fold (\<lambda>r e. ee (firmware_setup E r (boot_state e))) rs e"
  shows "status (firmware_setup E r (boot_state e')) = Restarted
    \<and> ee_flash (ee (firmware_setup E r (boot_state e'))) ! REBOOT_COUNT = c"
proof -
  have "wdt_flash c (ee_flash (fold (\<lambda>r e. ee (firmware_setup E r (boot_state e))) rs e))"
    using assms(1,3)
  proof (induction rs arbitrary: e)
    case (Cons x xs)
    then show ?case using wdt_setup(2) [OF Cons.prems(1) assms(2), of x E] by simp
  qed simp
  then show ?thesis
    using wdt_setup [of c e' r E] assms by (simp add: wdt_flash_def)
qed

definition ee_counted :: eeprom where
  "ee_counted = ee_blank\<lparr>ee_flash := (replicate 512 0xFF)[SCHEMA_VERSION := 3, REBOOT_COUNT := 0]\<rparr>"

lemma wdt_counted: "wdt_flash 0 (ee_flash ee_counted)"
  by (simp add: ee_counted_def wdt_flash_def)

theorem watchdog_halt_unreachable_witness:
  "status (firmware_setup (quiet_env nodeA) 7 (boot_state
      (fold (\<lambda>r e. ee (firmware_setup (quiet_env nodeA) r (boot_state e))) [6, 7, 6, 7, 5, 6] ee_counted)))
    = Restarted"
proof -
  have r: "\<forall>r \<in> set (7 # [6, 7, 6, 7, 5, 6]). is_wdt_reset r" by (simp add: is_wdt_reset_def)
  have "(0 :: byte) < 4" by simp
  from watchdog_halt_unreachable [OF wdt_counted this r refl, of "quiet_env nodeA"] show ?thesis by (rule conjunct1)
qed

end
