(* ===== verification/Firmware_Safety.thy ===== *)
theory Firmware_Safety
  imports Firmware_Boot Mesh_Enroll_Props
begin

text \<open>
  No read outside an array: a device whose set-up came back never faults. The array reads that can
  go wrong in the model are the 64-byte copy of \<open>buildMessage\<close>, which the 12-byte
  acknowledgement of an LED adapter would overrun, and the records \<open>savePeerList\<close> copies; so the
  predicate below also says that the adapter is not an LED adapter, and every operation keeps it.
\<close>

section \<open>The predicate\<close>

definition adapter_typed :: "Adapter option \<Rightarrow> bool" where
  "adapter_typed a \<longleftrightarrow> (case a of None \<Rightarrow> True | Some d \<Rightarrow> adapterType d \<noteq> LED_ADAPTER)"

definition sound :: "'a appnode_scheme \<Rightarrow> bool" where
  "sound s \<longleftrightarrow> status s \<noteq> Faulted \<and> adapter_typed (adapter s)"

named_theorems sound_intros \<open>operations that keep a device sound\<close>

lemma sound_cong:
  "node.more s' = node.more s \<Longrightarrow> status s' = status s \<Longrightarrow> sound s' = sound s"
  by (cases s; cases s') (simp add: sound_def)

lemma sound_updates [simp]:
  "sound (s\<lparr>mesh := m\<rparr>) = sound s" "sound (s\<lparr>ee := e\<rparr>) = sound s"
  "sound (s\<lparr>espPeers := ps\<rparr>) = sound s" "sound (s\<lparr>serialLastHealth := t\<rparr>) = sound s"
  "sound (s\<lparr>pirInstance := b\<rparr>) = sound s" "sound (s\<lparr>factoryDevMode := b\<rparr>) = sound s"
  "sound (on_mesh f s) = sound s" "sound (on_ee g s) = sound s"
  by (simp_all add: sound_def on_mesh_def on_ee_def)

lemma sound_platform [simp]:
  "sound (emit x s) = sound s" "sound (delay_ms d s) = sound s"
  by (rule sound_cong; simp)+

lemma more_adapter: "node.more s' = node.more s \<Longrightarrow> adapter s' = adapter s"
  by (cases s; cases s') simp

lemma sound_halt [sound_intros]: "sound s \<Longrightarrow> sound (restart s)" "sound s \<Longrightarrow> sound (hang s)"
proof -
  have "adapter (restart s) = adapter s" "adapter (hang s) = adapter s"
    by (rule more_adapter; simp)+
  then show "sound s \<Longrightarrow> sound (restart s)" "sound s \<Longrightarrow> sound (hang s)" by (simp_all add: sound_def)
qed

lemma sound_fail [sound_intros]: "sound s \<Longrightarrow> sound (fail t k sub s)"
proof -
  have "adapter (fail t k sub s) = adapter s" by (rule more_adapter) simp
  then show "sound s \<Longrightarrow> sound (fail t k sub s)" by (simp add: sound_def fail_status)
qed

lemma sound_check_esp [sound_intros]: "sound s \<Longrightarrow> sound (check_esp ok ty s)"
  by (simp add: check_esp_def fail_type_def sound_fail)

lemma sound_fatal [sound_intros]: "sound s \<Longrightarrow> sound (fatal t k sub s)"
proof -
  have "adapter (fatal t k sub s) = adapter s" by (rule more_adapter) simp
  moreover have "status (fatal t k sub s) \<noteq> Faulted" if "status s \<noteq> Faulted"
    using that by (simp add: fatal_def andthen_def Let_def signalError_def signalErrorType_status)
  ultimately show "sound s \<Longrightarrow> sound (fatal t k sub s)" by (simp add: sound_def)
qed

lemma sound_blink [sound_intros]:
  "sound s \<Longrightarrow> sound (greenLed_blink n on off s)" "sound s \<Longrightarrow> sound (redLed_blink n on off s)"
proof -
  have a: "adapter (greenLed_blink n on off s) = adapter s" "adapter (redLed_blink n on off s) = adapter s"
    by (rule more_adapter; simp)+
  have "status (greenLed_blink n on off s) \<noteq> Faulted" if "status s \<noteq> Faulted"
    using that by (cases "led_initialized (greenLed s)")
      (simp_all add: greenLed_blink_status, simp add: greenLed_blink_def led_guard_def fail_status)
  moreover have "status (redLed_blink n on off s) = status s"
    by (simp add: redLed_blink_def led_guard_def)
  ultimately show "sound s \<Longrightarrow> sound (greenLed_blink n on off s)" "sound s \<Longrightarrow> sound (redLed_blink n on off s)"
    by (simp_all add: sound_def a)
qed

section \<open>Sending\<close>

lemma sound_esp_now_send [sound_intros]: "sound s \<Longrightarrow> sound (esp_now_send E a msg s)"
  by (simp add: esp_now_send_def)

lemma sound_sendMessage [sound_intros]: "sound s \<Longrightarrow> sound (sendMessage E a msg s)"
  by (simp add: sendMessage_def sound_intros)

lemma sound_send_to_peers [sound_intros]: "sound s \<Longrightarrow> sound (send_to_peers E msg s)"
  unfolding send_to_peers_def by (rule fold_invariant) (simp_all add: sound_intros)

lemma sound_broadcastToAllPeers [sound_intros]: "sound s \<Longrightarrow> sound (broadcastToAllPeers E msg s)"
  by (simp add: broadcastToAllPeers_def sound_intros)

lemma sound_route_message [sound_intros]: "sound s \<Longrightarrow> sound (route_message E k msg s)"
  by (auto simp: route_message_def Let_def intro: sound_intros split: option.split)

definition whole_data :: "byte list option \<Rightarrow> bool" where
  "whole_data d \<longleftrightarrow> (case d of None \<Rightarrow> True | Some x \<Rightarrow> 64 \<le> length x)"

lemma buildMessage_whole: "whole_data d \<Longrightarrow> buildMessage t d k m \<noteq> None"
  by (auto simp: buildMessage_def whole_data_def Let_def split: option.splits)

lemma sound_transmitCore_build [sound_intros]:
  "sound s \<Longrightarrow> whole_data d \<Longrightarrow> sound (transmitCore E t d k None s)"
  using buildMessage_whole [of d t k "mesh s"]
  by (auto simp: transmitCore_def intro: sound_intros split: option.split)

lemma sound_transmitCore_override [sound_intros]: "sound s \<Longrightarrow> sound (transmitCore E t d k (Some m) s)"
  by (simp add: transmitCore_def sound_intros)

lemma sound_broadcastAdapterData [sound_intros]:
  "sound s \<Longrightarrow> whole_data d \<Longrightarrow> sound (broadcastAdapterData E t d s)"
  using buildMessage_whole [of d t MESH_TYPE_ADAPTER_DATA "mesh s"]
  by (auto simp: broadcastAdapterData_def intro!: sound_intros split: option.split)

lemma sound_transmit [sound_intros]: "sound s \<Longrightarrow> whole_data d \<Longrightarrow> sound (transmit E t d s)"
  by (simp add: transmit_def sound_intros)

lemma sound_beacon [sound_intros]: "sound s \<Longrightarrow> sound (broadcastMasterBeacon E s)"
  using buildMessage_whole [of None UNKNOWN_ADAPTER MESH_TYPE_MASTER_BEACON
      "(mesh s)\<lparr>lastBeaconMillis := now s\<rparr>"]
  by (auto simp: broadcastMasterBeacon_def whole_data_def intro!: sound_intros split: option.split)

section \<open>Peers\<close>

lemma sound_savePeers [sound_intros]:
  assumes "sound s" "mesh_wf (mesh s)"
  shows "sound (savePeersToEEPROM s)"
proof -
  have "length (peer_records (mesh s)) = PEER_LIST_SIZE" "peerCount (mesh s) \<le> 10"
    using peer_records_eq [OF assms(2)] by simp_all
  with assms(1) show ?thesis
    by (simp add: savePeersToEEPROM_def savePeerList_def split: option.split)
qed

lemma sound_register [sound_intros]: "sound s \<Longrightarrow> sound (registerPeerWithEspNow E a k pub s)"
  by (auto simp: registerPeerWithEspNow_def esp_now_add_peer_def intro!: sound_intros split: sum.split)

lemma sound_del_peer [simp]: "sound (esp_now_del_peer E a s) = sound s"
  by (simp add: esp_now_del_peer_def)

lemma sound_andthen:
  "sound (f s) \<Longrightarrow> (\<And>t. sound t \<Longrightarrow> sound (g t)) \<Longrightarrow> sound (andthen f g s)"
  by (rule andthen_invariant [where P = sound])

lemma sound_enrollPeer [sound_intros]:
  assumes "sound s" "node_inv s" "length pub = 32"
  shows "sound (enrollPeer E a pub s)"
proof (cases "enroll_entry a pub (mesh s)")
  case (Some m)
  have "mesh_wf m" using enroll_entry_ok [OF Some _ assms(3)] assms(2) by (simp add: node_inv_def mesh_ok_def)
  with assms(1) Some show ?thesis
    by (auto simp: enrollPeer_def Let_def intro!: sound_andthen sound_intros)
qed (simp add: enrollPeer_def assms)

lemma sound_request [sound_intros]: "sound s \<Longrightarrow> sound (sendEnrollmentRequest E s)"
  by (simp add: sendEnrollmentRequest_def sound_intros)

section \<open>Handlers\<close>

lemma sound_relayDownlink [sound_intros]: "sound s \<Longrightarrow> sound (relayDownlink E msg s)"
  by (simp add: relayDownlink_def sound_intros)

lemma sound_tofu: "tofu_check msg s = Some s1 \<Longrightarrow> sound s \<Longrightarrow> sound s1"
  by (auto simp: tofu_check_def Let_def split: if_splits)

lemma sound_multi_master: "sound s \<Longrightarrow> sound (multi_master_check msg s)"
  by (simp add: multi_master_check_def sound_intros)

lemma sound_schedule_relay [simp]: "sound (schedule_relay E msg s) = sound s"
  by (simp add: schedule_relay_def Let_def)

lemma sound_processMasterBeacon [sound_intros]: "sound s \<Longrightarrow> sound (processMasterBeacon E msg s)"
  using sound_tofu [of msg s]
  by (auto simp: processMasterBeacon_def Let_def sound_multi_master split: option.split)

lemma sound_processJoinAck [sound_intros]: "sound s \<Longrightarrow> sound (processJoinAck E msg s)"
  by (auto simp: processJoinAck_def Let_def intro!: sound_intros)

lemma sound_processAdapterData:
  assumes "sound s" and "\<And>f t. cb = Some f \<Longrightarrow> sound t \<Longrightarrow> sound (f msg t)"
  shows "sound (processAdapterData cb E msg s)"
proof -
  have "sound (deliver_local cb E msg s)"
    using assms by (auto simp: deliver_local_def intro!: sound_andthen sound_intros split: option.split)
  with assms(1) show ?thesis by (auto simp: processAdapterData_def Let_def intro!: sound_intros)
qed

lemma sound_process_entry:
  assumes "sound s" and "\<And>f t. cb = Some f \<Longrightarrow> sound t \<Longrightarrow> sound (f (qmsg e) t)"
  shows "sound (process_entry cb E e s)"
  using assms by (auto simp: process_entry_def dispatch_def Let_def
      intro!: sound_intros sound_processAdapterData split: prod.split)

section \<open>Adapters\<close>

lemma whole_health [simp]: "whole_data (Some (health_data op ty own t))"
  by (simp add: whole_data_def health_data_def)

lemma sound_sendDataThroughMesh [sound_intros]:
  "sound s \<Longrightarrow> whole_data (Some d) \<Longrightarrow> sound (sendDataThroughMesh E a t d s)"
  by (simp add: sendDataThroughMesh_def sound_intros)

lemma sound_sendHealthReport [sound_intros]: "sound s \<Longrightarrow> sound (sendHealthReport E s)"
  by (simp add: sendHealthReport_def sound_intros)

lemma sound_serial_frame [simp]: "sound (serial_frame bs s) = sound s"
  by (simp add: serial_frame_def)

lemma sound_apply_preset [simp]: "sound (apply_preset E p s) = sound s"
  by (simp add: apply_preset_def Let_def)

lemma sound_config_set [sound_intros]: "sound s \<Longrightarrow> sound (config_set E tgt raw s)"
  by (simp add: config_set_def saveAdapterTypeToEEPROM_def sound_intros)

lemma sound_node_id_set [simp]: "sound (node_id_set E msg s) = sound s"
  by (simp add: node_id_set_def)

lemma sound_serial_onMeshDataImpl [sound_intros]: "sound s \<Longrightarrow> sound (serial_onMeshDataImpl E msg s)"
  by (auto simp: serial_onMeshDataImpl_def serial_control_def Let_def intro!: sound_andthen sound_intros)

lemma sound_onMeshData [sound_intros]:
  "sound s \<Longrightarrow> adapterType a \<noteq> LED_ADAPTER \<Longrightarrow> sound (onMeshData E a msg s)"
  by (auto simp: onMeshData_def onMeshData_typed_def onMeshDataImpl_def Let_def
      intro!: sound_andthen sound_intros split: adapter_class.split)

lemma sound_relayEnrollment [simp]: "sound (relayEnrollmentToServer a k s) = sound s"
  by (simp add: relayEnrollmentToServer_def Let_def)

lemma sound_frame_control [sound_intros]: "sound s \<Longrightarrow> sound (frame_control E msg s)"
  by (auto simp: frame_control_def whole_data_def Let_def intro!: sound_intros)

lemma sound_forward_frame [sound_intros]:
  "sound s \<Longrightarrow> length (msgData msg) = 64 \<Longrightarrow> sound (forward_frame E a msg s)"
  by (simp add: forward_frame_def whole_data_def sound_intros)

lemma sound_handleCompleteFrame [sound_intros]:
  assumes "sound s" "node_inv s"
  shows "sound (handleCompleteFrame E a data s)"
proof (cases "decodeMeshMessage (hw_mac E) data")
  case (Some msg)
  have "message_wf msg" by (rule decode_mesh_wf [OF Some])
  with assms Some show ?thesis
    by (auto simp: handleCompleteFrame_def message_wf_def intro!: sound_andthen sound_intros)
qed (simp add: handleCompleteFrame_def assms sound_intros)

lemma sound_frame_byte:
  "sound (snd cs) \<Longrightarrow> node_inv (snd cs) \<Longrightarrow> sound (snd (frame_byte E a b cs))"
  by (cases cs) (auto simp: frame_byte_def Let_def intro!: sound_intros split: FrameState.split)

lemma sound_serial_bytes:
  "sound (snd cs) \<Longrightarrow> node_inv (snd cs) \<Longrightarrow> sound (snd (serial_bytes E a rx cs))"
  by (induction rx arbitrary: cs) (simp_all add: Let_def sound_frame_byte node_inv_frame_byte)

lemma sound_serial_loop:
  "sound s \<Longrightarrow> node_inv s \<Longrightarrow> sound (snd (serial_loop E a rx (c, s)))"
  by (auto simp: serial_loop_def serial_health_def Let_def
      intro!: sound_serial_bytes sound_intros node_inv_sendHealthReport)

lemma sound_pir_attach [simp]: "sound (snd (pir_attach p s)) = sound s"
  by (simp add: pir_attach_def)

lemma sound_pir_detach [simp]: "sound (pir_detach p s) = sound s"
  by (simp add: pir_detach_def)

lemma sound_sendDataTrampoline [sound_intros]:
  "sound s \<Longrightarrow> whole_data (Some d) \<Longrightarrow> sound (sendDataTrampoline E a t d s)"
  by (simp add: sendDataTrampoline_def sound_intros)

lemma sound_pir_loop:
  assumes "sound s"
  shows "sound (snd (pir_loop E a (p, s)))"
proof -
  obtain p1 s1 where r: "pir_report E a (pir_take_motion (now s) p, s) = (p1, s1)"
    by (cases "pir_report E a (pir_take_motion (now s) p, s)")
  obtain ok p2 s2 where m: "pir_rearm (now s) (p1, s1) = (ok, p2, s2)"
    by (cases "pir_rearm (now s) (p1, s1)")
  have "sound s1"
    using assms r by (auto simp: pir_report_def whole_data_def intro: sound_intros split: if_splits)
  then have "sound s2"
    using m by (auto simp: pir_rearm_def pir_attach_def Let_def intro: sound_intros split: if_splits)
  with assms r m show ?thesis by (simp add: pir_loop_def Let_def sendNodeHealth_def sound_intros)
qed

text \<open>The object behind the pointer keeps its type.\<close>

lemma sound_set_class:
  "sound s \<Longrightarrow> adapterType a \<noteq> LED_ADAPTER \<Longrightarrow> sound (s\<lparr>adapter := Some (a\<lparr>a_class := c\<rparr>)\<rparr>)"
  by (simp add: sound_def adapter_typed_def)

lemma sound_type: "sound s \<Longrightarrow> adapter s = Some a \<Longrightarrow> adapterType a \<noteq> LED_ADAPTER"
  by (simp add: sound_def adapter_typed_def)

lemma sound_adapter_loop [sound_intros]:
  assumes "sound s" "node_inv s"
  shows "sound (adapter_loop E rx s)"
proof (cases "adapter s")
  case (Some a)
  note ty = sound_type [OF assms(1) Some]
  show ?thesis
  proof (cases "a_class a")
    case (PIR_Class p)
    with Some ty sound_pir_loop [OF assms(1), of E a p] show ?thesis
      by (auto simp: adapter_loop_def intro!: sound_set_class split: prod.split)
  next
    case (Serial_Class c)
    with Some ty sound_serial_loop [OF assms, of E a rx c] show ?thesis
      by (auto simp: adapter_loop_def intro!: sound_set_class split: prod.split)
  qed
qed (simp add: adapter_loop_def assms)

lemma sound_detectMotionTrampoline [sound_intros]:
  assumes "sound s"
  shows "sound (detectMotionTrampoline s)"
  using sound_type [OF assms] assms
  by (fastforce simp: detectMotionTrampoline_def detectMotion_def intro!: sound_set_class
      split: option.split adapter_class.split prod.split if_splits)

section \<open>The sketch\<close>

lemma sound_sketch [simp]:
  "sound (s\<lparr>isDevMode := b\<rparr>) = sound s" "sound (s\<lparr>devMasterFlag := b\<rparr>) = sound s"
  "sound (s\<lparr>configButton := g\<rparr>) = sound s" "sound (s\<lparr>resetButton := g\<rparr>) = sound s"
  "sound (s\<lparr>startupBlinkDone := b\<rparr>) = sound s"
  "sound (s\<lparr>lastDisplayToggleMs := t, dashVisible := b\<rparr>) = sound s"
  "sound (s\<lparr>lastEnrollmentBroadcast := t\<rparr>) = sound s"
  "sound (s\<lparr>buttonWasPressed := b\<rparr>) = sound s"
  "sound (s\<lparr>buttonWasPressed := b, holdStart := t\<rparr>) = sound s"
  "sound (s\<lparr>resetButtonWasPressed := b\<rparr>) = sound s"
  "sound (s\<lparr>resetButtonWasPressed := b, resetHoldStart := t\<rparr>) = sound s"
  "sound (s\<lparr>resetConfirmPending := b\<rparr>) = sound s"
  "sound (s\<lparr>resetConfirmPending := b, resetConfirmDeadline := t\<rparr>) = sound s"
  by (simp_all add: sound_def)

lemma sound_drainPendingBlink [simp]: "sound (drainPendingBlink s) = sound s"
  by (rule sound_cong; simp add: drainPendingBlink_def)

lemma sound_startup_blink [sound_intros]: "sound s \<Longrightarrow> sound (startup_blink s)"
  by (auto simp: startup_blink_def intro!: sound_andthen sound_intros)

lemma sound_isPressed: "isPressed levels pin s = (b, s') \<Longrightarrow> sound s' = sound s"
  using isPressed_frame [of levels pin s b s'] by (intro sound_cong) (auto intro: node_more_cong)

lemma sound_display_step [simp]: "sound (display_step s) = sound s"
proof -
  have "sound (s\<lparr>lastDisplayToggleMs := t, dashVisible := b\<rparr>) = sound s" for t b by simp
  then show ?thesis by (simp add: display_step_def display_clear_def Let_def)
qed

lemma sound_toggle_role [sound_intros]: "sound s \<Longrightarrow> sound (toggle_role s)"
  by (auto simp: toggle_role_def Let_def intro!: sound_andthen sound_intros)

lemma sound_config_button [sound_intros]: "sound s \<Longrightarrow> sound (config_button levels s)"
  using sound_isPressed [of levels "in_pin (configButton s)" s]
  by (auto simp: config_button_def Let_def intro!: sound_intros split: prod.split)

lemma sound_run_all:
  "sound s \<Longrightarrow> (\<And>f t. f \<in> set fs \<Longrightarrow> sound t \<Longrightarrow> sound (f t)) \<Longrightarrow> sound (run_all fs s)"
  by (rule run_all_invariant [where P = sound])

lemma sound_reset_held [sound_intros]: "sound s \<Longrightarrow> sound (reset_held s)"
  by (auto simp: reset_held_def wipe_storage_def Let_def simp del: run_all.simps
      intro!: sound_run_all sound_intros)

lemma sound_reset_button [sound_intros]: "sound s \<Longrightarrow> sound (reset_button levels s)"
  using sound_isPressed [of levels "in_pin (resetButton s)" s]
  by (auto simp: reset_button_def Let_def intro!: sound_intros split: prod.split)

lemma sound_loop_rest:
  assumes "sound s" "node_inv s"
  shows "sound (loop_rest E levels rx s)"
proof -
  let ?P = "\<lambda>t. sound t \<and> node_inv t"
  have "?P (run_all [node_checkMasterTimeout, display_step] s)"
    using assms
    by (intro run_all_invariant [where P = ?P])
      (auto simp: node_checkMasterTimeout_def intro!: node_inv_checkMasterTimeout [unfolded node_checkMasterTimeout_def])
  moreover have "sound (run_all [adapter_loop E rx, config_button levels, reset_button levels, delay_ms 1] t)"
    if "?P t" for t
  proof -
    have "sound (run_all [config_button levels, reset_button levels, delay_ms 1] (adapter_loop E rx t))"
      using that by (intro sound_run_all) (auto intro: sound_intros)
    then show ?thesis using that by (simp add: andthen_def Let_def sound_intros)
  qed
  ultimately show ?thesis
    unfolding loop_rest_def andthen_def Let_def
    by (auto simp: enrollment_step_def sound_intros simp del: run_all.simps)
qed

lemma callback_sound:
  assumes "sound t"
  shows "sound (dataRecvCallback E msg t)"
  unfolding dataRecvCallback_def
  using assms by (auto intro!: sound_andthen sound_intros sound_onMeshData dest: sound_type split: option.split)

lemma sound_loop_tail: "sound s \<Longrightarrow> sound (loop_tail (Some relayEnrollmentToServer) E s)"
  by (auto simp: loop_tail_def drainPendingEnrollment_def relay_pending_def Let_def
      intro!: sound_andthen sound_intros)

interpretation device_sound: mesh_client "Some (dataRecvCallback E)" "Some relayEnrollmentToServer" sound E
  for E
  by unfold_locales
    (auto simp: callback_keeps_ring callback_keeps_inv relay_keeps sound_loop_tail
      intro!: sound_process_entry callback_sound)

lemma firmware_loop_sound:
  assumes "sound s" "node_inv s"
  shows "\<exists>s'. firmware_loop E levels rx s = Some s' \<and> node_inv s' \<and> sound s'"
proof -
  define s1 where "s1 = run_all [drainPendingBlink, startup_blink] s"
  have s1: "sound s1" "node_inv s1"
    unfolding s1_def using assms
    by (auto intro!: run_all_invariant [where P = node_inv] sound_run_all node_inv_startup_blink sound_intros
        simp del: run_all.simps)
  obtain s3 where l: "mesh_loop (Some (dataRecvCallback E)) (Some relayEnrollmentToServer) E s1 = Some s3"
    and s3: "sound s3" "node_inv s3"
    using device_sound.loop_ends [OF s1(2,1)] by blast
  have "firmware_loop E levels rx s = Some (if status s1 = Running
      then (if status s3 = Running then loop_rest E levels rx s3 else s3) else s1)"
    by (simp add: firmware_loop_def l Let_def flip: s1_def del: run_all.simps)
  then show ?thesis using s1 s3 sound_loop_rest [OF s3] node_inv_loop_rest [OF s3(2)] by auto
qed

section \<open>Set-up\<close>

lemma run_all_running_invariant:
  assumes "P s" and "\<And>f t. f \<in> set fs \<Longrightarrow> P t \<Longrightarrow> status (f t) = Running \<Longrightarrow> P (f t)"
    and "status (run_all fs s) = Running"
  shows "P (run_all fs s)"
  using assms
proof (induction fs arbitrary: s)
  case (Cons f fs)
  then show ?case by (cases "status (f s) = Running") auto
qed simp

lemma typed_more: "meshnode.more s' = meshnode.more s \<Longrightarrow> adapter s' = adapter s"
  by (cases s; cases s') simp

lemma typed_hardware [simp]:
  "adapter (init_red_led s) = adapter s" "adapter (init_display r s) = adapter s"
  "adapter (init_green_led s) = adapter s" "adapter (init_config_button s) = adapter s"
  "adapter (init_reset_button s) = adapter s" "adapter (track_reset r s) = adapter s"
proof -
  have e: "adapter (emit x t) = adapter t" "adapter (fail_type ty t) = adapter t" "adapter (hang t) = adapter t"
    for x ty and t :: "'b firmware_scheme"
    by (rule more_adapter; simp add: fail_type_def)+
  show "adapter (init_red_led s) = adapter s" "adapter (init_display r s) = adapter s"
    "adapter (init_green_led s) = adapter s" by (rule more_adapter; simp)+
  show "adapter (init_config_button s) = adapter s" "adapter (init_reset_button s) = adapter s"
    by (simp_all add: init_config_button_def init_reset_button_def button_init_def e Let_def)
  show "adapter (track_reset r s) = adapter s"
    by (simp add: track_reset_def Let_def println_def e on_ee_def)
qed

lemma createAdapter_typed:
  "createAdapter ty pin s = (a, s') \<Longrightarrow> adapter_typed a"
  by (auto simp: createAdapter_def adapter_typed_def split: if_splits)

lemma adapter_init_typed:
  "adapter_typed (adapter s) \<Longrightarrow> adapter_init s = (ok, s') \<Longrightarrow> adapter_typed (adapter s')"
  by (auto simp: adapter_init_def adapter_typed_def fault_def split: option.splits adapter_class.splits prod.splits)

lemma init_adapter_typed: "adapter_typed (adapter (init_adapter s))"
proof -
  obtain a s1 where c: "(if isDevMode s then createAdapter DEFAULT_ADAPTER (getDefaultPinForAdapter DEFAULT_ADAPTER) s
      else createFromEEPROM s) = (a, s1)" by fastforce
  then have a: "adapter_typed a"
    by (auto simp: createFromEEPROM_def Let_def dest: createAdapter_typed split: if_splits)
  obtain ok s3 where i: "adapter_init (s1\<lparr>adapter := a\<rparr>) = (ok, s3)"
    by (cases "adapter_init (s1\<lparr>adapter := a\<rparr>)")
  have s3: "adapter_typed (adapter s3)" using adapter_init_typed [OF _ i] a by simp
  have f: "adapter (fatal t k sub u) = adapter u" for t k sub and u :: "'b firmware_scheme"
    by (rule more_adapter) simp
  show ?thesis unfolding init_adapter_def c Let_def prod.case i using a s3 by (auto simp: f)
qed

lemma typed_mesh_init: "adapter (snd (mesh_init E s)) = adapter s"
proof -
  have k: "meshnode.more (on_mesh f t) = meshnode.more t" "meshnode.more (on_ee g t) = meshnode.more t"
    for f g and t :: "'b appnode_scheme" by simp_all
  have load: "meshnode.more (loadPersistentState E s) = meshnode.more s"
    by (auto simp: loadPersistentState_def loadOrGenerateKeypair_def loadMeshKeyFromEEPROM_def
        loadPeersFromEEPROM_def load_known_masters_def set_keys_def saveMeshKeyToEEPROM_def Let_def
        intro!: andthen_frame [where h = meshnode.more] split: option.split sum.split)
  have fold: "meshnode.more (fold (\<lambda>p t. if status t = Running then register_entry E p t else t) ps t)
      = meshnode.more t" for ps and t :: "'b appnode_scheme"
    by (induction ps arbitrary: t) (simp_all add: register_entry_def)
  have "meshnode.more (snd (mesh_init E s)) = meshnode.more s"
    by (auto simp: mesh_init_def Let_def setupEspNow_def esp_now_add_peer_def fold load bump_epoch_def
        setupWiFi_def readMacAddress_def apply_tx_power_def
        intro!: andthen_frame [where h = meshnode.more, THEN trans])
  then show ?thesis by (rule typed_more)
qed

lemma typed_last_stages:
  "adapter (print_public_key s) = adapter s" "adapter (init_role s) = adapter s"
  "adapter (init_dev_mode s) = adapter s" "adapter (init_defaults s) = adapter s"
  "adapter (init_peers s) = adapter s"
proof -
  have f: "adapter (fault t) = adapter t" for t :: "'b firmware_scheme" by (rule more_adapter) simp
  show "adapter (print_public_key s) = adapter s" "adapter (init_role s) = adapter s"
    "adapter (init_dev_mode s) = adapter s" "adapter (init_defaults s) = adapter s"
    "adapter (init_peers s) = adapter s"
    by (simp_all add: print_public_key_def println_def emit_def init_role_def on_mesh_def Let_def
        init_dev_mode_def setFactoryDevMode_def on_ee_def init_defaults_def initializeDefaultsIfUnset_def
        init_peers_def f split: option.split)
qed

lemma typed_init_mesh: "adapter (init_mesh E s) = adapter s"
proof -
  have f: "adapter (fatal t k sub u) = adapter u" for t k sub and u :: "'b firmware_scheme"
    by (rule more_adapter) simp
  show ?thesis using typed_mesh_init [of E s] by (auto simp: init_mesh_def Let_def f split: prod.split)
qed

lemma setup_sound:
  assumes "adapter_typed (adapter s)" "status (firmware_setup E r s) = Running"
  shows "sound (firmware_setup E r s)"
proof -
  have link: "adapter_typed (adapter (link_adapter t)) = adapter_typed (adapter t)" for t :: "'b firmware_scheme"
    by (cases "adapter t") (simp_all add: link_adapter_def adapter_typed_def setTransmitFn_def)
  have "adapter_typed (adapter (firmware_setup E r s))"
    using assms unfolding firmware_setup_def
    by (intro run_all_running_invariant [where P = "\<lambda>t. adapter_typed (adapter t)"])
      (auto simp: typed_last_stages typed_init_mesh init_adapter_typed link simp del: run_all.simps)
  then show ?thesis using assms(2) by (simp add: sound_def)
qed

section \<open>The device\<close>

lemma firmware_step_sound:
  "firmware_step E s s' \<Longrightarrow> sound s \<Longrightarrow> node_inv s \<Longrightarrow> sound s'"
proof (induction rule: firmware_step.induct)
  case (Loop levels rx s s')
  then show ?case using firmware_loop_sound [of s E levels rx] by simp
qed (auto intro: sound_intros)

lemma firmware_run_sound:
  "firmware_run E reason e s \<Longrightarrow> env_ok E \<Longrightarrow> status (firmware_setup E reason (boot_state e)) = Running
     \<Longrightarrow> sound s"
proof (induction rule: firmware_run.induct)
  case Boot
  then show ?case by (intro setup_sound) (simp_all add: boot_state_def adapter_typed_def)
next
  case (Step s s')
  then show ?case using firmware_run_inv firmware_step_sound by blast
qed



end
