(* ===== verification/Firmware_Props.thy ===== *)
theory Firmware_Props
  imports Firmware_Safety Serial_Props
begin

text \<open>
  Properties of the composed firmware: safety from power-on, the buttons, remote
  configuration, and what the serial bridge passes on to the server.
\<close>

section \<open>Safety from power-on\<close>

text \<open>
  C1. From any content of the persistent store, after any reset and in any interleaving of frames,
  motion interrupts, serial bytes, button levels and loop rounds, the arrays and indices of the mesh
  node stay in range, a known route is one to ten hops long, and every frame handed to the radio
  is a complete 127-byte message of at most MAX_HOPS hops.
\<close>
theorem firmware_safe_from_boot:
  assumes "firmware_run E reason e s" and "env_ok E"
  shows "mesh_wf (mesh s) \<and> route_wf (mesh s)
    \<and> (\<forall>(a, bs) \<in> set (radio_log s). length bs = sizeof_message
          \<and> hopCount (message_of_bytes bs) \<le> MAX_HOPS)"
  using firmware_run_inv [OF assms]
  by (auto simp: node_inv_def mesh_ok_def frame_ok_def list_all_iff)

theorem firmware_safe_from_boot_witness:
  "mesh_wf (mesh (firmware_setup (quiet_env nodeA) 1 (boot_state ee_blank)))"
  using firmware_safe_from_boot [OF firmware_run.Boot env_ok_quiet, of nodeA 1 ee_blank] by blast



section \<open>The loop of a node that is not enrolled\<close>

lemma checkMasterTimeout_role [simp]: "isMaster (checkMasterTimeout t m) = isMaster m"
  by (simp add: checkMasterTimeout_def)

lemma display_step_fields [simp]:
  "mesh (display_step s) = mesh s" "ee (display_step s) = ee s"
  by (simp_all add: display_step_def display_clear_def emit_def Let_def)

text \<open>
  Until it is enrolled, a node that is not the master does nothing with its adapter, the serial port
  and the buttons: what it does after the mesh step does not depend on them. Neither the role button
  nor the storage reset works on it.
\<close>
theorem unenrolled_node_ignores_outside:
  assumes "\<not> isEnrolled s" and "\<not> isMaster (mesh s)"
  shows "loop_rest E levels rx s = loop_rest E levels' rx' s"
proof -
  define t where "t = run_all [node_checkMasterTimeout, display_step] s"
  have "ee t = ee s" "isMaster (mesh t) = isMaster (mesh s)"
    by (simp_all add: t_def andthen_def Let_def node_checkMasterTimeout_def)
  then have "\<not> isEnrolled t" "\<not> isMaster (mesh t)" using assms by (simp_all add: isEnrolled_def)
  then show ?thesis
    unfolding loop_rest_def andthen_def t_def [symmetric] Let_def by simp
qed

theorem unenrolled_node_ignores_outside_witness:
  "loop_rest (quiet_env nodeA) (\<lambda>_ _. True) [1, 0, 8] (boot_state ee_blank)
     = loop_rest (quiet_env nodeA) (\<lambda>_ _. False) [] (boot_state ee_blank)"
  by (rule unenrolled_node_ignores_outside)
    (simp_all add: boot_state_def isEnrolled_def loadEnrolledFlag_def ensureInitialized_def
      ee_power_cycle_def Mesh_def)

section \<open>The buttons\<close>

text \<open>
  C36. A press of the role button that lasts five seconds on a production node: the role flag is flipped,
  written to flash and the device restarts; so after the restart it runs in the other role.
\<close>
theorem role_button_is_durable:
  assumes "\<And>t. levels (in_pin (configButton s)) t" and "buttonWasPressed s"
    and "now s + 10 - holdStart s \<ge> BUTTON_HOLD_TIME_MS" and "\<not> isDevMode s"
    and "status s = Running" and "led_initialized (greenLed s)"
    and "length (ee_cells (ee s)) = TOTAL_SIZE" "ee_init (ee s)" "\<not> ee_dev (ee s)" "ee_commitOk (ee s)"
  shows "status (config_button levels s) = Restarted
    \<and> (ee_read MASTER_FLAG (ee_power_cycle (ee (config_button levels s))) = 1
        \<longleftrightarrow> \<not> loadMasterFlag (ee s))"
proof -
  obtain p s1 where p: "isPressed levels (in_pin (configButton s)) s = (p, s1)"
    by (cases "isPressed levels (in_pin (configButton s)) s")
  note f = isPressed_frame [OF p]
  have "p" using isPressed_steady [of levels "in_pin (configButton s)" True s] assms(1) p by simp
  moreover have m: "platform.more s1 = platform.more s" by (rule f(3))
  ultimately have b: "config_button levels s = toggle_role (s1\<lparr>buttonWasPressed := False\<rparr>)"
    and e1: "ee s1 = ee s" "isDevMode s1 = isDevMode s" "greenLed s1 = greenLed s"
    using assms(2,3) f(4) p by (cases s; cases s1; simp add: config_button_def)+
  define new where "new = (\<not> loadMasterFlag (ee s))"
  define t where "t = greenLed_blink (if new then 3 else 2) 200 200
      (on_ee (saveMasterFlag new) (s1\<lparr>buttonWasPressed := False\<rparr>))"
  have t: "status t = Running" "ee t = saveMasterFlag new (ee s)"
    using assms(5,6) f(1) e1 by (simp_all add: t_def greenLed_blink_status on_ee_def)
  have r: "config_button levels s
      = restart (on_ee (forceFlush (now (delay_ms 2000 t))) (delay_ms 2000 t))"
    using t(1) e1 assms(4) unfolding b toggle_role_def Let_def
    by (simp add: andthen_def Let_def t_def new_def)
  let ?e = "saveMasterFlag new (ee s)"
  have "ee_flash (forceFlush x ?e) = ee_cells ?e" for x
    using assms(8-10) by (simp add: forceFlush_def saveMasterFlag_def ensureInitialized_def ee_commit_def)
  moreover have len: "length (ee_cells ?e) = TOTAL_SIZE"
    using assms(7-9) by (simp add: saveMasterFlag_def ensureInitialized_def)
  ultimately have "ee_read MASTER_FLAG (ee_power_cycle (forceFlush x ?e)) = ee_read MASTER_FLAG ?e" for x
    by (simp add: ee_read_power) (simp add: ee_read_def len)
  moreover have "ee_read MASTER_FLAG ?e = (if new then 1 else 0)"
    using assms(7-9) by (simp add: saveMasterFlag_def ensureInitialized_def ee_read_write_same)
  moreover have "ee (config_button levels s) = forceFlush (now (delay_ms 2000 t)) ?e"
    using t(2) by (simp add: r on_ee_def delay_ms_def)
  moreover have "status (config_button levels s) = Restarted" by (simp add: r restart_def)
  ultimately show ?thesis by (simp add: new_def)
qed

theorem role_button_is_durable_witness:
  "\<exists>s :: firmware. status (config_button (\<lambda>_ _. True) s) = Restarted
     \<and> ee_read MASTER_FLAG (ee_power_cycle (ee (config_button (\<lambda>_ _. True) s))) = 1"
proof -
  let ?s = "(boot_state ee_blank)\<lparr>buttonWasPressed := True, holdStart := 1000, now := 6000,
    ee := ee_fresh, greenLed := \<lparr>led_pin = GREEN_LED_PIN, led_initialized = True, led_isOn = False\<rparr>\<rparr>"
  have "\<not> loadMasterFlag ee_fresh"
    using eeprom_init_new [of ee_blank MASTER_FLAG]
    by (simp add: loadMasterFlag_def ee_fresh_def ee_read_blank) (simp add: ee_blank_def)
  moreover have "length (ee_cells ee_fresh) = TOTAL_SIZE" using ee_fresh_facts(1) by (simp add: ee_wf_def)
  ultimately show ?thesis
    using role_button_is_durable [of "\<lambda>_ _. True" ?s] ee_fresh_facts
    by (intro exI [of _ ?s]) (simp add: boot_state_def)
qed

section \<open>The storage reset\<close>

text \<open>
  Rounds of the reset button with anything in between that leaves its four variables alone, while
  the 32-bit clock does not wrap. It starts with no confirmation pending, as after a boot.
\<close>
inductive reset_run :: "'a firmware_scheme \<Rightarrow> 'a firmware_scheme \<Rightarrow> bool" for s where
  Idle: "\<not> resetConfirmPending s \<Longrightarrow> reset_run s s"
| Button: "reset_run s t \<Longrightarrow> now t \<le> now t + 10 \<Longrightarrow> now t + 10 \<le> now (reset_button levels t)
    \<Longrightarrow> reset_run s (reset_button levels t)"
| Other: "reset_run s t \<Longrightarrow> now t \<le> now t'
    \<Longrightarrow> (resetConfirmPending t', resetConfirmDeadline t', resetButtonWasPressed t', resetHoldStart t')
       = (resetConfirmPending t, resetConfirmDeadline t, resetButtonWasPressed t, resetHoldStart t)
    \<Longrightarrow> reset_run s t'"

text \<open>A pending confirmation was armed at some time, and a hold in progress began after it.\<close>

definition armed_wf :: "'a firmware_scheme \<Rightarrow> bool" where
  "armed_wf s \<longleftrightarrow> (resetConfirmPending s \<longrightarrow>
     (\<exists>a. resetConfirmDeadline s = a + 3000 \<and> a \<le> now s
        \<and> (resetButtonWasPressed s \<longrightarrow> a \<le> resetHoldStart s \<and> resetHoldStart s \<le> now s)))"

lemma deadline_passed:
  fixes a h t :: u32
  assumes "a \<le> h" "h \<le> t" "t - h \<ge> 5000"
  shows "\<not> t < a + 3000"
proof
  assume "t < a + 3000"
  then have "unat t < unat a + 3000"
    by (simp add: word_less_nat_alt unat_word_ariths)
  moreover have "unat t - unat h \<ge> 5000"
    using assms(2,3) by (simp add: word_le_nat_alt unat_sub)
  moreover have "unat a \<le> unat h" using assms(1) by (simp add: word_le_nat_alt)
  ultimately show False by simp
qed

text \<open>One round, by cases of what it does; the wipe is not among them.\<close>

lemma reset_button_cases:
  assumes "armed_wf s" "now s \<le> now s + 10"
  shows "ee (reset_button levels s) = ee s"
    "now s + 10 \<le> now (reset_button levels s) \<Longrightarrow> armed_wf (reset_button levels s)"
proof -
  obtain p s1 where p: "isPressed levels (in_pin (resetButton s)) s = (p, s1)"
    by (cases "isPressed levels (in_pin (resetButton s)) s")
  note f = isPressed_frame [OF p]
  have m: "node.more s1 = node.more s" by (rule node_more_cong [OF f(3)])
  note g = firmware_more_fields [OF m]
  have wf: "armed_wf s1"
    using assms f(4) by (auto simp: armed_wf_def g dest: order_trans)
  let ?t = "s1\<lparr>resetButtonWasPressed := False\<rparr>"
  have held: "resetConfirmPending s1 \<Longrightarrow> resetButtonWasPressed s1 \<Longrightarrow>
      now s1 - resetHoldStart s1 \<ge> BUTTON_HOLD_TIME_MS \<Longrightarrow> reset_held ?t = ?t"
    using wf deadline_passed [of _ "resetHoldStart s1" "now s1"]
    by (auto simp: reset_held_def armed_wf_def)
  let ?u = "?t\<lparr>resetConfirmPending := True, resetConfirmDeadline := now s1 + 3000\<rparr>"
  have blink: "node.more (redLed_blink 3 100 100 ?u) = node.more ?u" by simp
  note h = firmware_more_fields [OF blink]
  show "ee (reset_button levels s) = ee s"
    using held g(1) by (auto simp: reset_button_def p Let_def reset_held_def)
  show "armed_wf (reset_button levels s)" if "now s + 10 \<le> now (reset_button levels s)"
    using that [folded f(4)] wf held h(10-14)
    by (auto simp: reset_button_def p Let_def reset_held_def armed_wf_def split: if_splits)
qed

lemma reset_run_armed: "reset_run s t \<Longrightarrow> armed_wf t"
proof (induction rule: reset_run.induct)
  case (Other t t')
  then show ?case by (auto simp: armed_wf_def dest: order_trans)
qed (simp_all add: armed_wf_def [of s] reset_button_cases)

text \<open>
  C35. The storage reset cannot be confirmed: a second hold takes five seconds, the confirmation is open
  for three. No round of the reset button changes the store, unless the clock wraps in between.
\<close>
theorem reset_never_confirmed:
  assumes "reset_run s t" and "now t \<le> now t + 10"
  shows "ee (reset_button levels t) = ee t"
  by (rule reset_button_cases(1) [OF reset_run_armed [OF assms(1)] assms(2)])

theorem reset_never_confirmed_witness:
  "ee (reset_button (\<lambda>_ _. True) (boot_state ee_blank)) = ee (boot_state ee_blank)"
  by (rule reset_never_confirmed [OF reset_run.Idle]) (simp_all add: boot_state_def)

section \<open>Remote configuration\<close>

lemma power_cycle_saveAdapterType [simp]:
  "ee_power_cycle (saveAdapterType t e) = ee_power_cycle e"
  by (simp add: saveAdapterType_def ee_power_cycle_def ee_write_def markDirty_def)

text \<open>
  C30. A CONFIG_SET command that reaches its target restarts the device without writing flash: after
  the restart the store is what it was before the command, so the new adapter type is lost.
\<close>
theorem config_set_lost:
  assumes "dataType msg = SERIAL_ADAPTER" and "msgData msg ! 0 = OP_CONFIG_SET (ops E)"
    and "isTarget (hw_mac E) (drop 1 (msgData msg))"
  shows "status (onMeshData E a msg s) = Restarted
    \<and> ee_power_cycle (ee (onMeshData E a msg s)) = ee_power_cycle (ee s)"
proof -
  let ?s = "restart (saveAdapterTypeToEEPROM (adapterTypeFromEEPROM (msgData msg ! 7)) s)"
  have "onMeshData E a msg s = ?s"
    using assms by (simp add: onMeshData_def config_set_def andthen_def Let_def)
  then show ?thesis by (simp add: saveAdapterTypeToEEPROM_def on_ee_def)
qed

theorem config_set_lost_witness:
  "status (onMeshData (quiet_env nodeA) serial_adapter
       (zero_message\<lparr>dataType := SERIAL_ADAPTER,
          msgData := OP_CONFIG_SET (ops (quiet_env nodeA)) # replicate 6 0xFF @ [2] @ replicate 56 0\<rparr>)
       serial_device) = Restarted"
  by (rule conjunct1 [OF config_set_lost])
    (simp_all add: isTarget_def numeral_eq_Suc)

section \<open>What the serial bridge passes on\<close>

definition serial_log :: "'a platform_scheme \<Rightarrow> byte list list" where
  "serial_log s = concat (map (\<lambda>e. case e of SerialWrite bs \<Rightarrow> [bs] | _ \<Rightarrow> []) (out s))"

lemma serial_log_emit [simp]:
  "serial_log (emit (SerialWrite bs) s) = serial_log s @ [bs]"
  "serial_log (emit (PinWrite p b) s) = serial_log s"
  by (simp_all add: serial_log_def emit_def)

lemma serial_log_cong: "out s' = out s \<Longrightarrow> serial_log s' = serial_log s"
  by (simp add: serial_log_def)

lemma serial_log_blink_loop:
  "blink_loop n on off (l, s) = (l', s') \<Longrightarrow> serial_log s' = serial_log s"
proof (induction n arbitrary: l s)
  case (Suc n)
  have d: "serial_log (delay_ms t r) = serial_log r" for t and r :: "'a platform_scheme"
    by (rule serial_log_cong) (simp add: delay_ms_def)
  obtain l1 s1 where once: "blink_once on (l, s) = (l1, s1)" by (cases "blink_once on (l, s)")
  have "serial_log s1 = serial_log s"
    using once by (auto simp: blink_once_def setState_def d split: prod.splits if_splits)
  with Suc.IH [of l1 "if n > 0 then delay_ms off s1 else s1"] Suc.prems show ?case
    by (auto simp: once d split: if_splits)
qed simp

lemma serial_log_green_blink:
  assumes "led_initialized (greenLed s)"
  shows "serial_log (greenLed_blink n on off s) = serial_log s"
proof -
  have "serial_log (r\<lparr>greenLed := l\<rparr>) = serial_log r" for l and r :: "'a node_scheme"
    by (rule serial_log_cong) simp
  then show ?thesis
    using assms by (auto simp: greenLed_blink_def dest: serial_log_blink_loop split: prod.splits)
qed

lemma wire_header:
  "dataType (message_of_bytes (message_bytes msg)) = dataType msg"
  "messageType (message_of_bytes (message_bytes msg)) = messageType msg"
  by (simp_all add: message_of_bytes_def message_bytes_def)


text \<open>The sensor and the bridge of a small mesh.\<close>

definition sensor_node :: appnode where
  "sensor_node = serial_device\<lparr>mesh := mesh routed_node, pirInstance := True\<rparr>"

definition bridge_node :: firmware where
  "bridge_node = (boot_state ee_blank)\<lparr>adapter := Some serial_adapter,
     mesh := Mesh\<lparr>isMaster := True\<rparr>, greenLed := \<lparr>led_pin = GREEN_LED_PIN, led_initialized = True, led_isOn = False\<rparr>\<rparr>"


lemma serial_log_serial_frame [simp]:
  "serial_log (serial_frame bs s) = serial_log s @ [le_bytes 2 (of_nat (length bs) :: u16), bs]"
  by (simp add: serial_frame_def)

lemma serial_frame_more [simp]: "node.more (serial_frame bs s) = node.more s" "greenLed (serial_frame bs s) = greenLed s"
  by (simp_all add: serial_frame_def emit_def)

text \<open>The opcodes a serial adapter acts on itself when they come over the mesh.\<close>

definition is_command :: "env \<Rightarrow> byte \<Rightarrow> bool" where
  "is_command E op \<longleftrightarrow> op = OP_CONFIG_SET (ops E) \<or> op = OP_NODE_ID_SET (ops E)
     \<or> op = OP_HEALTH_REQ (ops E) \<or> op = OP_TX_POWER_SET (ops E)"

lemma bridge_forwards:
  assumes "dataType msg = SERIAL_ADAPTER" "\<not> is_command E (msgData msg ! 0)" "message_wf msg"
    and "adapterType b = SERIAL_ADAPTER" "a_class b = Serial_Class c" "status s = Running"
  shows "onMeshData E b msg s = serial_frame (encodeMeshMessage msg MAX_PAYLOAD) s"
proof -
  have "encodeMeshMessage msg 256 \<noteq> []" by (rule encode_256(2) [OF assms(3)])
  then have "serial_onMeshDataImpl E msg s = serial_frame (encodeMeshMessage msg MAX_PAYLOAD) s"
    using assms(2,6) by (simp add: serial_onMeshDataImpl_def serial_control_def is_command_def andthen_def Let_def)
  then show ?thesis
    using assms by (simp add: onMeshData_def onMeshData_typed_def onMeshDataImpl_def is_command_def andthen_def Let_def)
qed



end
