(* ===== verification/Firmware_Enroll.thy ===== *)
theory Firmware_Enroll
  imports Firmware_Props
begin

text \<open>
  Enrollment of a node over the whole path: its request over the radio to the master, from the
  master's serial port to the server, the server's answer through the frame parser, and the
  acknowledgement over the radio back to the node.
\<close>

section \<open>Lemmas\<close>

text \<open>What a receiver with the generated descriptor reads from bytes.\<close>

definition pb_reads :: "byte list \<Rightarrow> mesh_MeshMessage option" where
  "pb_reads bs = map_option mesh_of_cells
     (pb_decode mesh_MeshMessage_fields (mesh_cells mesh_MeshMessage_init_zero) bs)"

lemma pb_reads_encoded:
  "pb_ok m \<Longrightarrow> pb_reads (message_bytes_pb (field_list mesh_MeshMessage_fields) (mesh_cells m)) = Some m"
  by (simp add: pb_reads_def mesh_of_mesh_cells
      pb_decode_reads [OF mesh_descriptor_ok mesh_cells_ok mesh_cells_ok [OF init_zero_ok]])

lemma relay_encoded:
  assumes "length pub = 32" "list_ex (\<lambda>b. b \<noteq> 0) pub"
  shows "encodeMeshMessage (relay_message a pub) 128 \<noteq> []"
    "pb_reads (encodeMeshMessage (relay_message a pub) 128) = Some (to_pb (relay_message a pub))"
proof -
  have wf: "message_wf (relay_message a pub)" using assms(1) by (simp add: relay_message_def message_wf_def)
  have len: "length (encodeMeshMessage (relay_message a pub) 128) = 128"
    using enrollment_relay_exact [OF assms] by blast
  then show "encodeMeshMessage (relay_message a pub) 128 \<noteq> []" by auto
  then show "pb_reads (encodeMeshMessage (relay_message a pub) 128) = Some (to_pb (relay_message a pub))"
    using pb_reads_encoded [OF to_pb_ok [OF wf]]
    by (simp add: encodeMeshMessage_bytes [OF wf] Let_def split: if_splits)
qed

text \<open>The request reaches the server: one frame, with the node's address and key.\<close>

lemma request_relayed:
  fixes k :: "'a firmware_scheme"
  assumes "length pub = 32" "list_ex (\<lambda>b. b \<noteq> 0) pub"
    and "k1 = on_mesh (asked_by a pub True) k"
    and "k2 = drainPendingEnrollment (Some relayEnrollmentToServer) k1"
  defines "payload \<equiv> encodeMeshMessage (relay_message a pub) 128"
  shows "k2 = serial_frame payload (on_mesh (asked_by a pub False) k)"
    "serial_log k2 = serial_log k @ [le_bytes 2 (of_nat (length payload) :: u16), payload]"
    "pb_reads payload = Some (to_pb (relay_message a pub))"
proof -
  show k2: "k2 = serial_frame payload (on_mesh (asked_by a pub False) k)"
    using relay_encoded(1) [OF assms(1,2), of a]
    by (simp add: assms(3,4) payload_def drainPendingEnrollment_def relayEnrollmentToServer_def Let_def)
      (simp add: on_mesh_def asked_by_def)
  have "serial_log (on_mesh f k) = serial_log k" for f by (rule serial_log_cong) simp
  then show "serial_log k2 = serial_log k @ [le_bytes 2 (of_nat (length payload) :: u16), payload]"
    by (simp add: k2)
  show "pb_reads payload = Some (to_pb (relay_message a pub))"
    unfolding payload_def by (rule relay_encoded(2) [OF assms(1,2)])
qed

lemma serial_frame_device:
  "adapter (serial_frame bs s) = adapter s" "serialLastHealth (serial_frame bs s) = serialLastHealth s"
  "now (serial_frame bs s) = now s"
  by (simp_all add: serial_frame_def emit_def)

text \<open>The answer of the server arrives in a round without a health report.\<close>

definition no_report_due :: "Serial_Adapter \<Rightarrow> 'a appnode_scheme \<Rightarrow> bool" where
  "no_report_due c s \<longleftrightarrow> ucast (getHopCount (mesh s)) = lastReportedHopCount c
     \<and> now s - serialLastHealth s < HEALTH_REPORT_INTERVAL_MS"

lemma adapter_loop_frame:
  assumes "adapter s = Some b" "a_class b = Serial_Class c" "parser_idle c" "no_report_due c s"
    and "p \<noteq> []" "length p \<le> MAX_PAYLOAD" "status s = Running"
  shows "\<exists>c'. adapter_loop E (frame_of p) s
    = (handleCompleteFrame E b p s)\<lparr>adapter := Some (b\<lparr>a_class := Serial_Class c'\<rparr>)\<rparr>"
proof -
  have "serial_health E (c, s) = (c, s)"
    using assms(4) by (auto simp: serial_health_def no_report_due_def Let_def)
  then show ?thesis
    using serial_bytes_frame [OF assms(3,5,6,7), of E b] assms(1,2,7)
    by (auto simp: adapter_loop_def serial_loop_def)
qed

section \<open>Enrollment through the server\<close>

text \<open>
  C16. Enrollment works over the whole path. A node's request that reaches a master with a serial adapter
  is written to the server as one frame, from which the generated descriptor reads the node's
  address and public key. When the server answers with a join acknowledgement for that address and
  key, in whatever encoding the decoder accepts, the master's peer table maps the address to the key
  and the last frame on the air is a broadcast; and the node that hears it is enrolled and trusts
  the master, with both facts in flash.
\<close>
theorem enrollment_through_server:
  fixes k :: "'a firmware_scheme"
  assumes node: "awaits_ack n" "list_ex (\<lambda>b. b \<noteq> 0) (devicePublicKey (mesh n))"
    and bridge: "room_for_peer k" "isMaster (mesh k)" "adapter k = Some b" "a_class b = Serial_Class c"
      "parser_idle c" "no_report_due c k"
    and env: "\<And>a bs. send_ok E a bs"
      "derivePeerLMK E (devicePrivateKey (mesh k)) (devicePublicKey (mesh n)) = Inr lmk"
    and request: "k1 = dispatch (Some (dataRecvCallback E)) E
        (message_of_bytes (message_bytes (enrollment_request (mesh n)))) k"
    and relayed: "k2 = drainPendingEnrollment (Some relayEnrollmentToServer) k1"
    and server: "answer \<noteq> []" "length answer \<le> MAX_PAYLOAD"
      "decodeMeshMessage (hw_mac E) answer = Some ack" "messageType ack = MESH_TYPE_JOIN_ACK"
      "targetMac ack = deviceMac (mesh n)" "enrollmentPublicKey ack = devicePublicKey (mesh n)"
    and answered: "k3 = adapter_loop E (frame_of answer) k2"
    and heard: "n1 = dispatch cb E' (message_of_bytes (snd (last (radio_log k3)))) n"
  shows "(\<exists>payload pb. serial_log k2 = serial_log k @ [le_bytes 2 (of_nat (length payload) :: u16), payload]
      \<and> pb_reads payload = Some pb \<and> pb_originMacAddress pb = deviceMac (mesh n)
      \<and> pb_public_key pb = (32, devicePublicKey (mesh n)))
    \<and> peer_map (mesh k3) = (peer_map (mesh k))(deviceMac (mesh n) \<mapsto> devicePublicKey (mesh n))
    \<and> fst (last (radio_log k3)) = broadcast_mac
    \<and> isEnrolled n1 \<and> knownMasterMac (mesh n1) = deviceMac (mesh k) \<and> ee_flash (ee n1) = ee_cells (ee n1)"
proof -
  let ?a = "deviceMac (mesh n)" and ?pub = "devicePublicKey (mesh n)"
  have pub: "length ?pub = 32" using node(1) by (simp add: awaits_ack_def mesh_wf_def)
  have k1: "k1 = on_mesh (asked_by ?a ?pub True) k"
    by (simp add: request request_received [OF pub bridge(2)])
  let ?p = "encodeMeshMessage (relay_message ?a ?pub) 128"
  note r = request_relayed [OF pub node(2) k1 relayed]
  have k2: "adapter k2 = Some b" "serialLastHealth k2 = serialLastHealth k"
    "mesh k2 = asked_by ?a ?pub False (mesh k)" "now k2 = now k" "status k2 = Running"
    using bridge(1,3) by (simp_all add: r(1) serial_frame_device room_for_peer_def) (simp_all add: on_mesh_def)
  have due: "no_report_due c k2" using bridge(2,6) k2 by (simp add: no_report_due_def getHopCount_def)
  obtain c' where "k3 = (handleCompleteFrame E b answer k2)\<lparr>adapter := Some (b\<lparr>a_class := Serial_Class c'\<rparr>)\<rparr>"
    using adapter_loop_frame [OF k2(1) bridge(4,5) due server(1,2) k2(5), of E] by (auto simp: answered)
  moreover have "handleCompleteFrame E b answer k2 = enrollPeer E ?a ?pub k2"
    using server(3-6) node(2) by (simp add: handleCompleteFrame_def)
  ultimately have k3: "mesh k3 = mesh (enrollPeer E ?a ?pub k2)" "radio_log k3 = radio_log (enrollPeer E ?a ?pub k2)"
    by simp_all
  have room: "room_for_peer k2" using bridge(1) pub k2 by (simp add: room_for_peer_def)
  have lmk: "derivePeerLMK E (devicePrivateKey (mesh k2)) ?pub = Inr lmk" using env(2) k2(3) by simp
  obtain m where m: "deviceMac m = deviceMac (mesh k2)"
      "radio_log k3 = radio_log k2 @ [(broadcast_mac, message_bytes (join_ack ?a ?pub m))]"
    and map: "peer_map (mesh k3) = (peer_map (mesh k2))(?a \<mapsto> ?pub)"
    using enrollment_approved [OF room pub env(1) lmk, of ?a] k3 by auto
  have "isEnrolled n1 \<and> hasMasterMac (mesh n1) \<and> knownMasterMac (mesh n1) = deviceMac m
      \<and> ee_flash (ee n1) = ee_cells (ee n1)"
    by (rule join_ack_accepted [OF node(1), of n1 cb E']) (simp add: heard m(2))
  moreover have "pb_originMacAddress (to_pb (relay_message ?a ?pub)) = ?a"
    "pb_public_key (to_pb (relay_message ?a ?pub)) = (32, ?pub)"
    using node(2) by (simp_all add: to_pb_def relay_message_def Let_def)
  ultimately show ?thesis
    using r(2,3) m map k2(3) by simp
qed

text \<open>A new node with a key, and the answer of a server to its request.\<close>

definition new_node :: meshnode where
  "new_node = on_mesh (\<lambda>m. m\<lparr>devicePublicKey := replicate 32 9\<rparr>) (fresh_node nodeA False)"

definition server_answer :: "byte list" where
  "server_answer = encodeMeshMessage (zero_message\<lparr>messageType := MESH_TYPE_JOIN_ACK, targetMac := nodeA,
     enrollmentPublicKey := replicate 32 9\<rparr>) 256"

theorem enrollment_through_server_witness:
  "let E = quiet_env nodeC;
       k1 = dispatch (Some (dataRecvCallback E)) E (message_of_bytes (message_bytes (enrollment_request (mesh new_node)))) bridge_node;
       k2 = drainPendingEnrollment (Some relayEnrollmentToServer) k1;
       k3 = adapter_loop E (frame_of server_answer) k2;
       n1 = dispatch None (quiet_env nodeA) (message_of_bytes (snd (last (radio_log k3)))) new_node
   in isEnrolled n1 \<and> peer_map (mesh k3) nodeA = Some (replicate 32 9)"
proof -
  let ?ack = "zero_message\<lparr>messageType := MESH_TYPE_JOIN_ACK, targetMac := nodeA, enrollmentPublicKey := replicate 32 9\<rparr>"
  have wf: "mesh_wf (Mesh\<lparr>deviceMac := a, isMaster := b\<rparr>)" for a b
    using mesh_ok_fresh by (simp add: mesh_ok_def)
  have n: "mesh new_node = Mesh\<lparr>deviceMac := nodeA, isMaster := False, devicePublicKey := replicate 32 9\<rparr>"
    "ee new_node = ee_fresh"
    by (simp_all add: new_node_def)
  have "awaits_ack new_node"
    using wf [of False nodeA] by (simp add: awaits_ack_def n ee_fresh_facts mesh_wf_def) (simp add: Mesh_def)
  moreover have "list_ex (\<lambda>b. b \<noteq> 0) (devicePublicKey (mesh new_node))"
    by (simp add: n list_ex_iff)
  moreover have "room_for_peer bridge_node"
    using wf [of True zero_mac]
    by (simp add: room_for_peer_def bridge_node_def boot_state_def peers_distinct_def)
      (simp add: Mesh_def peers_def)
  moreover have "isMaster (mesh bridge_node)" "adapter bridge_node = Some serial_adapter"
    "no_report_due new_Serial_Adapter bridge_node" "a_class serial_adapter = Serial_Class new_Serial_Adapter"
    by (simp_all add: bridge_node_def boot_state_def no_report_due_def getHopCount_def serial_adapter_def)
      (simp_all add: new_Serial_Adapter_def)
  moreover have "derivePeerLMK (quiet_env nodeC) x y = Inr (replicate 16 2)" for x y
    by (simp add: derivePeerLMK_def)
  moreover have w: "message_wf ?ack" by (simp add: message_wf_def)
  then have "server_answer \<noteq> []" "length server_answer \<le> MAX_PAYLOAD"
    using encode_256 [OF w] by (simp_all add: server_answer_def)
  moreover have "decodeMeshMessage (hw_mac (quiet_env nodeC)) server_answer = Some (after_serial nodeC ?ack)"
    by (simp add: server_answer_def encode_256(1) [OF w] decode_encoded [OF to_pb_ok [OF w]] of_to_pb [OF w])
  ultimately show ?thesis
    using enrollment_through_server [of new_node bridge_node serial_adapter new_Serial_Adapter "quiet_env nodeC"
        "replicate 16 2" _ _ server_answer "after_serial nodeC ?ack" _ _ None "quiet_env nodeA", OF _ _ _ _ _ _ _ _ _ _ refl refl _ _ _ _ _ _ refl refl]
    by (simp add: Let_def n after_serial_def)
qed

end
