(* ===== verification/Mesh_Reach.thy ===== *)
theory Mesh_Reach
  imports Mesh_Route_Props
begin

text \<open>
  How far a beacon gets. Everything a node does apart from the beacon handler, the deferred relay and
  the master's own beacon is \<open>quiet\<close>: it keeps the route, the receive ring's entries, the identity and
  the role, and puts no beacon on the air. With that, two predicates are kept: of a node that is not a master (its
  route, if it has one, is one hop long and leads to a master it hears) and of a master.
\<close>

section \<open>Quiet operations\<close>

definition core :: "mesh_state \<Rightarrow> MasterInfo \<times> bool \<times> RecvQueueEntry list \<times> mac \<times> bool" where
  "core m = (currentMaster m, relayPending m, recvQueue m, deviceMac m, isMaster m)"

definition is_beacon :: "mac \<times> byte list \<Rightarrow> bool" where
  "is_beacon f \<longleftrightarrow> messageType (message_of_bytes (snd f)) = MESH_TYPE_MASTER_BEACON"

definition quiet :: "'a meshnode_scheme \<Rightarrow> 'a meshnode_scheme \<Rightarrow> bool" where
  "quiet s t \<longleftrightarrow> core (mesh t) = core (mesh s)
     \<and> (\<forall>f \<in> set (radio_log t). is_beacon f \<longrightarrow> f \<in> set (radio_log s))"

named_theorems quiet_intros \<open>operations that neither touch the route nor send a beacon\<close>

lemma quiet_refl [simp]: "quiet s s"
  by (simp add: quiet_def)

lemma quiet_cong:
  "core (mesh t') = core (mesh t) \<Longrightarrow> radio_log t' = radio_log t \<Longrightarrow> quiet s t' = quiet s t"
  by (simp add: quiet_def)

lemma quiet_updates [simp]:
  "quiet s (on_ee g t) = quiet s t" "quiet s (t\<lparr>ee := e\<rparr>) = quiet s t"
  "quiet s (t\<lparr>espPeers := ps\<rparr>) = quiet s t" "quiet s (fail d k sub t) = quiet s t"
  "quiet s (fault t) = quiet s t" "quiet s (check_esp ok ty t) = quiet s t"
  by (rule quiet_cong; simp)+

lemma quiet_on_mesh [quiet_intros]:
  "quiet s t \<Longrightarrow> core (f (mesh t)) = core (mesh t) \<Longrightarrow> quiet s (on_mesh f t)"
  by (simp add: quiet_def)

lemma quiet_set_mesh [quiet_intros]:
  "quiet s t \<Longrightarrow> core m = core (mesh t) \<Longrightarrow> quiet s (t\<lparr>mesh := m\<rparr>)"
  by (simp add: quiet_def)

lemma quiet_andthen [quiet_intros]:
  "quiet s (f t) \<Longrightarrow> (\<And>u. quiet s u \<Longrightarrow> quiet s (g u)) \<Longrightarrow> quiet s (andthen f g t)"
  by (rule andthen_invariant [where P = "quiet s"])

lemma core_updates [simp]:
  "core (m\<lparr>meshKey := x0\<rparr>) = core m" "core (m\<lparr>lastSeenMasterMac := x1\<rparr>) = core m"
  "core (m\<lparr>peerMacs := x2\<rparr>) = core m" "core (m\<lparr>peerCount := x3\<rparr>) = core m"
  "core (m\<lparr>lastBeaconMillis := x4\<rparr>) = core m" "core (m\<lparr>lastMasterBeaconReceivedMs := x5\<rparr>) = core m"
  "core (m\<lparr>devicePrivateKey := x6\<rparr>) = core m" "core (m\<lparr>devicePublicKey := x7\<rparr>) = core m"
  "core (m\<lparr>bootEpoch := x8\<rparr>) = core m" "core (m\<lparr>txSeqNum := x9\<rparr>) = core m"
  "core (m\<lparr>replayCache := x10\<rparr>) = core m" "core (m\<lparr>replayCacheIdx := x11\<rparr>) = core m"
  "core (m\<lparr>lastRelayedEpoch := x12\<rparr>) = core m" "core (m\<lparr>lastRelayedSeqNum := x13\<rparr>) = core m"
  "core (m\<lparr>relayPendingMsg := x14\<rparr>) = core m" "core (m\<lparr>relayPendingAt := x15\<rparr>) = core m"
  "core (m\<lparr>knownMasterMac := x16\<rparr>) = core m" "core (m\<lparr>hasMasterMac := x17\<rparr>) = core m"
  "core (m\<lparr>knownMasterMacSecondary := x18\<rparr>) = core m" "core (m\<lparr>hasMasterMacSecondary := x19\<rparr>) = core m"
  "core (m\<lparr>pendingEnrollmentRelay := x20\<rparr>) = core m" "core (m\<lparr>pendingEnrollmentMac := x21\<rparr>) = core m"
  "core (m\<lparr>pendingEnrollmentPubKey := x22\<rparr>) = core m" "core (m\<lparr>recvQueueHead := x23\<rparr>) = core m"
  "core (m\<lparr>recvQueueTail := x24\<rparr>) = core m"
  by (simp_all add: core_def)

section \<open>Sending\<close>

lemma is_beacon_message [simp]:
  "is_beacon (a, message_bytes msg) \<longleftrightarrow> messageType msg = MESH_TYPE_MASTER_BEACON"
  by (simp add: is_beacon_def message_of_bytes_def message_bytes_def)

lemma quiet_esp_now_send [quiet_intros]:
  "quiet s t \<Longrightarrow> messageType msg \<noteq> MESH_TYPE_MASTER_BEACON \<Longrightarrow> quiet s (esp_now_send E a msg t)"
  by (auto simp: quiet_def esp_now_send_def)

lemma quiet_sendMessage [quiet_intros]:
  "quiet s t \<Longrightarrow> messageType msg \<noteq> MESH_TYPE_MASTER_BEACON \<Longrightarrow> quiet s (sendMessage E a msg t)"
  by (simp add: sendMessage_def quiet_intros)

lemma quiet_send_to_peers [quiet_intros]:
  "quiet s t \<Longrightarrow> messageType msg \<noteq> MESH_TYPE_MASTER_BEACON \<Longrightarrow> quiet s (send_to_peers E msg t)"
  unfolding send_to_peers_def by (rule fold_invariant) (simp_all add: quiet_intros)

lemma quiet_broadcast [quiet_intros]:
  "quiet s t \<Longrightarrow> messageType msg \<noteq> MESH_TYPE_MASTER_BEACON \<Longrightarrow> quiet s (broadcastToAllPeers E msg t)"
  by (simp add: broadcastToAllPeers_def quiet_intros)

lemma quiet_route [quiet_intros]:
  "quiet s t \<Longrightarrow> messageType msg \<noteq> MESH_TYPE_MASTER_BEACON \<Longrightarrow> quiet s (route_message E k msg t)"
  by (auto simp: route_message_def Let_def intro!: quiet_intros split: option.split)

lemma buildMessage_core:
  assumes "buildMessage ty d k m = Some (msg, m')"
  shows "messageType msg = k" "core m' = core m"
  using assms by (auto simp: buildMessage_def Let_def split: option.splits if_splits)

lemma quiet_transmitCore [quiet_intros]:
  assumes "quiet s t" "k \<noteq> MESH_TYPE_MASTER_BEACON"
    and "\<And>m. ov = Some m \<Longrightarrow> messageType m \<noteq> MESH_TYPE_MASTER_BEACON"
  shows "quiet s (transmitCore E ty d k ov t)"
  using assms
  by (auto simp: transmitCore_def buildMessage_core intro!: quiet_intros split: option.split)

lemma quiet_broadcastAdapterData [quiet_intros]:
  "quiet s t \<Longrightarrow> quiet s (broadcastAdapterData E ty d t)"
  by (auto simp: broadcastAdapterData_def buildMessage_core intro!: quiet_intros split: option.split)

lemma quiet_transmit [quiet_intros]: "quiet s t \<Longrightarrow> quiet s (transmit E ty d t)"
  by (auto simp: transmit_def intro!: quiet_intros)

lemma quiet_relayDownlink [quiet_intros]:
  "quiet s t \<Longrightarrow> messageType msg \<noteq> MESH_TYPE_MASTER_BEACON \<Longrightarrow> quiet s (relayDownlink E msg t)"
  by (simp add: relayDownlink_def hop_of_def quiet_intros)

section \<open>Handlers other than the beacon's\<close>

definition quiet_callback :: "'a meshnode_scheme recv_callback \<Rightarrow> bool" where
  "quiet_callback cb \<longleftrightarrow> (\<forall>f msg (s :: 'a meshnode_scheme) t. cb = Some f \<longrightarrow> quiet s t \<longrightarrow> quiet s (f msg t))"

definition quiet_relay :: "'a meshnode_scheme relay_fn \<Rightarrow> bool" where
  "quiet_relay relay \<longleftrightarrow>
     (\<forall>f a k (s :: 'a meshnode_scheme) t. relay = Some f \<longrightarrow> quiet s t \<longrightarrow> quiet s (f a k t))"

lemma quiet_callbackD: "quiet_callback (Some f) \<Longrightarrow> quiet s t \<Longrightarrow> quiet s (f msg t)"
  by (auto simp: quiet_callback_def)

lemma quiet_relayD: "quiet_relay (Some f) \<Longrightarrow> quiet s t \<Longrightarrow> quiet s (f a k t)"
  by (auto simp: quiet_relay_def)

lemma quiet_processAdapterData:
  assumes "quiet_callback cb" "quiet s t" "messageType msg \<noteq> MESH_TYPE_MASTER_BEACON"
  shows "quiet s (processAdapterData cb E msg t)"
proof -
  have "quiet s ((case cb of None \<Rightarrow> id | Some f \<Rightarrow> f msg) t)"
    using assms(1,2) quiet_callbackD by (cases cb) auto
  then have "quiet s (deliver_local cb E msg t)"
    using assms(3) by (auto simp: deliver_local_def intro!: quiet_intros)
  with assms(2,3) show ?thesis
    by (auto simp: processAdapterData_def Let_def hop_of_def intro!: quiet_intros)
qed

lemma quiet_processJoinAck [quiet_intros]:
  "quiet s t \<Longrightarrow> messageType msg \<noteq> MESH_TYPE_MASTER_BEACON \<Longrightarrow> quiet s (processJoinAck E msg t)"
  by (auto simp: processJoinAck_def Let_def intro!: quiet_intros)

lemma quiet_request_handler [quiet_intros]:
  "quiet s t \<Longrightarrow> quiet s (on_mesh (processEnrollmentRequest msg) t)"
  by (auto simp: processEnrollmentRequest_def intro!: quiet_intros)

lemma quiet_dispatch:
  assumes "quiet_callback cb" "quiet s t" "messageType msg \<noteq> MESH_TYPE_MASTER_BEACON"
  shows "quiet s (dispatch cb E msg t)"
  using assms by (auto simp: dispatch_def intro!: quiet_intros quiet_processAdapterData)

text \<open>What happens to an entry before its message is dispatched.\<close>

lemma core_filter: "core (snd (replay_filter msg m)) = core m"
  by (rule replay_filter_frame) simp

lemma core_lastSeen: "core (updatePeerLastSeen t a m) = core m"
  by (rule updatePeerLastSeen_frame) simp

lemma process_entry_cases:
  "quiet s (process_entry cb E e s)
   \<or> (\<exists>m. core m = core (mesh s) \<and> process_entry cb E e s = dispatch cb E (qmsg e) (s\<lparr>mesh := m\<rparr>))"
proof -
  obtain r m where f: "replay_filter (qmsg e) (mesh s) = (r, m)"
    by (cases "replay_filter (qmsg e) (mesh s)")
  have "core m = core (mesh s)" using core_filter [of "qmsg e" "mesh s"] f by simp
  then show ?thesis
    using core_lastSeen [of "now s" "srcMac e" m]
    by (auto simp: process_entry_def f Let_def intro!: quiet_intros)
qed

section \<open>Peers and enrollment\<close>

lemma quiet_savePeers [simp]: "quiet s (savePeersToEEPROM t) = quiet s t"
  by (rule quiet_cong) simp_all

lemma quiet_register [simp]: "quiet s (registerPeerWithEspNow E a k pub t) = quiet s t"
  by (rule quiet_cong) simp_all

lemma quiet_del_peer [simp]: "quiet s (esp_now_del_peer E a t) = quiet s t"
  by (simp add: esp_now_del_peer_def)

lemma core_appendPeer: "core (snd (appendPeer p m)) = core m"
  by (simp add: appendPeer_def)

lemma enroll_entry_core: "enroll_entry a pub m = Some m' \<Longrightarrow> core m' = core m"
  by (auto simp: enroll_entry_def core_appendPeer split: option.splits if_splits)

lemma quiet_enrollPeer [quiet_intros]: "quiet s t \<Longrightarrow> quiet s (enrollPeer E a pub t)"
  by (auto simp: enrollPeer_def join_ack_def Let_def intro!: quiet_intros dest: enroll_entry_core
      split: option.split)

lemma quiet_request [quiet_intros]: "quiet s t \<Longrightarrow> quiet s (sendEnrollmentRequest E t)"
  by (simp add: sendEnrollmentRequest_def enrollment_request_def quiet_intros)

lemma quiet_drainPendingEnrollment:
  assumes "quiet_relay relay" "quiet s t"
  shows "quiet s (drainPendingEnrollment relay t)"
proof (cases relay)
  case (Some f)
  have "quiet s (on_mesh (\<lambda>m. m\<lparr>pendingEnrollmentRelay := False\<rparr>) t)"
    using assms(2) by (simp add: quiet_on_mesh)
  from quiet_relayD [OF assms(1) [unfolded Some] this] assms(2) Some show ?thesis
    by (simp add: drainPendingEnrollment_def Let_def)
qed (use assms(2) in \<open>simp add: drainPendingEnrollment_def quiet_on_mesh\<close>)

section \<open>A node that is not a master\<close>

text \<open>\<open>N\<close> are the masters the node hears.\<close>

definition one_hop :: "mac set \<Rightarrow> MasterInfo \<Rightarrow> bool" where
  "one_hop N r \<longleftrightarrow> distance r = 0xFF \<or> (distance r = 1 \<and> nextHop r = masterMac r \<and> masterMac r \<in> N)"

definition direct_beacon :: "mac set \<Rightarrow> RecvQueueEntry \<Rightarrow> bool" where
  "direct_beacon N e \<longleftrightarrow> (messageType (qmsg e) = MESH_TYPE_MASTER_BEACON \<longrightarrow>
     hopCount (qmsg e) = 0 \<and> lastHopMac (qmsg e) = originMac (qmsg e) \<and> originMac (qmsg e) \<in> N)"

definition leaf_core :: "mac set \<Rightarrow> mesh_state \<Rightarrow> bool" where
  "leaf_core N m \<longleftrightarrow> \<not> isMaster m \<and> one_hop N (currentMaster m) \<and> list_all (direct_beacon N) (recvQueue m)"

definition leaf_ok :: "mac set \<Rightarrow> 'a meshnode_scheme \<Rightarrow> bool" where
  "leaf_ok N s \<longleftrightarrow> leaf_core N (mesh s) \<and> (\<forall>f \<in> set (radio_log s). is_beacon f \<longrightarrow> fst f \<in> N)"

lemma leaf_core_cong: "core m' = core m \<Longrightarrow> leaf_core N m' = leaf_core N m"
  by (simp add: core_def leaf_core_def)

lemma leaf_ok_quiet: "quiet s t \<Longrightarrow> leaf_ok N s \<Longrightarrow> leaf_ok N t"
  using leaf_core_cong [of "mesh t" "mesh s" N] by (auto simp: quiet_def leaf_ok_def)

lemma leaf_ok_route:
  assumes "leaf_ok N s" "one_hop N r" "currentMaster m = r"
    and "isMaster m = isMaster (mesh s)" "recvQueue m = recvQueue (mesh s)"
  shows "leaf_ok N (s\<lparr>mesh := m\<rparr>)"
  using assms by (simp add: leaf_ok_def leaf_core_def)

lemma direct_beacon_route:
  assumes "direct_beacon N e" "messageType (qmsg e) = MESH_TYPE_MASTER_BEACON"
    and "one_hop N (currentMaster m)"
  shows "one_hop N (currentMaster (update_route (qmsg e) m))"
  using update_route_via [of "qmsg e" m] assms by (auto simp: direct_beacon_def one_hop_def)

text \<open>The handler of a beacon: the route is the old one or the one through its last hop.\<close>

lemma processMasterBeacon_parts:
  "radio_log (processMasterBeacon E msg s) = radio_log s"
  "currentMaster (mesh (processMasterBeacon E msg s)) \<in>
     {currentMaster (mesh s), currentMaster (update_route msg (mesh s))}"
  "isMaster (mesh (processMasterBeacon E msg s)) = isMaster (mesh s)"
  "recvQueue (mesh (processMasterBeacon E msg s)) = recvQueue (mesh s)"
  "deviceMac (mesh (processMasterBeacon E msg s)) = deviceMac (mesh s)"
  "isMaster (mesh s) \<longrightarrow> relayPending (mesh (processMasterBeacon E msg s)) = relayPending (mesh s)"
proof -
  have frames: "beacon_frame isMaster" "beacon_frame recvQueue" "beacon_frame deviceMac"
    by (simp_all add: beacon_frame_def)
  show "isMaster (mesh (processMasterBeacon E msg s)) = isMaster (mesh s)"
    "recvQueue (mesh (processMasterBeacon E msg s)) = recvQueue (mesh s)"
    "deviceMac (mesh (processMasterBeacon E msg s)) = deviceMac (mesh s)"
    by (rule processMasterBeacon_frame, rule frames)+
  have "radio_log (processMasterBeacon E msg s) = radio_log s
    \<and> currentMaster (mesh (processMasterBeacon E msg s)) \<in>
         {currentMaster (mesh s), currentMaster (update_route msg (mesh s))}
    \<and> (isMaster (mesh s) \<longrightarrow> relayPending (mesh (processMasterBeacon E msg s)) = relayPending (mesh s))"
  proof (cases "tofu_check msg s")
    case (Some s1)
    note t = tofu_check_cases [OF Some]
    have m: "currentMaster (mesh s1) = currentMaster (mesh s)" "isMaster (mesh s1) = isMaster (mesh s)"
      "relayPending (mesh s1) = relayPending (mesh s)" "radio_log s1 = radio_log s"
      using t(5) t(3) by (auto intro: radio_log_cong)
    have "radio_log (schedule_relay E msg u) = radio_log u" for u :: "'a meshnode_scheme"
      by (rule radio_log_cong) simp
    with Some m have "radio_log (processMasterBeacon E msg s) = radio_log s"
      by (simp add: processMasterBeacon_def Let_def multi_master_check_def)
    moreover have "currentMaster (mesh (processMasterBeacon E msg s)) \<in>
       {currentMaster (mesh s), currentMaster (update_route msg (mesh s))}"
      using Some m by (auto simp: processMasterBeacon_def Let_def schedule_relay_def update_route_def)
    moreover have "relayPending (mesh (processMasterBeacon E msg s)) = relayPending (mesh s)" if "isMaster (mesh s)"
      using Some m that by (auto simp: processMasterBeacon_def Let_def schedule_relay_def update_route_def)
    ultimately show ?thesis by blast
  qed (simp add: processMasterBeacon_def)
  then show "radio_log (processMasterBeacon E msg s) = radio_log s"
    "currentMaster (mesh (processMasterBeacon E msg s)) \<in>
       {currentMaster (mesh s), currentMaster (update_route msg (mesh s))}"
    "isMaster (mesh s) \<longrightarrow> relayPending (mesh (processMasterBeacon E msg s)) = relayPending (mesh s)"
    by blast+
qed

lemma leaf_processMasterBeacon:
  assumes "leaf_ok N s" "direct_beacon N e" "messageType (qmsg e) = MESH_TYPE_MASTER_BEACON"
  shows "leaf_ok N (processMasterBeacon E (qmsg e) s)"
  using processMasterBeacon_parts(1-4) [where E = E and msg = "qmsg e" and s = s] direct_beacon_route [OF assms(2,3), of "mesh s"] assms(1)
  by (auto simp: leaf_ok_def leaf_core_def)

lemma leaf_process_entry:
  assumes "quiet_callback cb" "leaf_ok N s" "e \<in> set (recvQueue (mesh s))"
  shows "leaf_ok N (process_entry cb E e s)"
  using process_entry_cases [of s cb E e]
proof (elim disjE exE conjE)
  fix m assume m: "core m = core (mesh s)" "process_entry cb E e s = dispatch cb E (qmsg e) (s\<lparr>mesh := m\<rparr>)"
  let ?t = "s\<lparr>mesh := m\<rparr>"
  have t: "leaf_ok N ?t" by (rule leaf_ok_quiet [OF quiet_set_mesh [OF quiet_refl m(1)] assms(2)])
  have e: "direct_beacon N e" using assms(2,3) by (simp add: leaf_ok_def leaf_core_def list_all_iff)
  show ?thesis
  proof (cases "messageType (qmsg e) = MESH_TYPE_MASTER_BEACON")
    case True
    with leaf_processMasterBeacon [OF t e True] m(2) show ?thesis by (simp add: dispatch_def)
  next
    case False
    from leaf_ok_quiet [OF quiet_dispatch [OF assms(1) quiet_refl False] t] m(2) show ?thesis by simp
  qed
qed (rule leaf_ok_quiet [OF _ assms(2)])

lemma route_message_frames:
  "set (radio_log (route_message E k msg s)) \<subseteq> set (radio_log s) \<union>
     {f. fst f = nextHop (currentMaster (mesh s)) \<and> distance (currentMaster (mesh s)) \<noteq> 0xFF}"
  by (auto simp: route_message_def Let_def sendMessage_def esp_now_send_def split: option.split
      dest: findNextHop_Some)

lemma leaf_relay_pending:
  assumes "leaf_ok N s"
  shows "leaf_ok N (relay_pending E s)"
proof (cases "relayPending (mesh s) \<and> relayPendingAt (mesh s) \<le> now s")
  case True
  let ?t = "on_mesh (\<lambda>m. m\<lparr>relayPending := False\<rparr>) s" and ?msg = "relayPendingMsg (mesh s)"
  have r: "relay_pending E s = route_message E MESH_TYPE_MASTER_BEACON ?msg ?t"
    using True by (simp add: relay_pending_def transmitCore_def Let_def)
  have "one_hop N (currentMaster (mesh s))" using assms by (simp add: leaf_ok_def leaf_core_def)
  then have "\<forall>f \<in> set (radio_log (relay_pending E s)). is_beacon f \<longrightarrow> fst f \<in> N"
    using assms route_message_frames [of E MESH_TYPE_MASTER_BEACON ?msg ?t]
    by (auto simp: r leaf_ok_def one_hop_def)
  moreover have "leaf_core N (mesh (relay_pending E s))"
    using assms by (simp add: r leaf_ok_def leaf_core_def)
  ultimately show ?thesis by (simp add: leaf_ok_def)
next
  case False
  then have "relay_pending E s = s" by (auto simp: relay_pending_def)
  with assms show ?thesis by simp
qed

lemma leaf_loop_tail:
  assumes "quiet_relay relay" "leaf_ok N s"
  shows "leaf_ok N (loop_tail relay E s)"
proof -
  have "leaf_ok N (on_ee (flushIfDirty (now s)) s)"
    by (rule leaf_ok_quiet [OF _ assms(2)]) simp
  moreover have "leaf_ok N (drainPendingEnrollment relay t)" if "leaf_ok N t" for t
    by (rule leaf_ok_quiet [OF quiet_drainPendingEnrollment [OF assms(1) quiet_refl] that])
  moreover have "\<not> isMaster (mesh t)" if "leaf_ok N t" for t :: "'a meshnode_scheme"
    using that by (simp add: leaf_ok_def leaf_core_def)
  ultimately show ?thesis
    unfolding loop_tail_def by (auto intro!: andthen_invariant [where P = "leaf_ok N"] leaf_relay_pending)
qed

lemma leaf_takeEntry:
  "leaf_ok N s \<Longrightarrow> takeEntry (mesh s) = Some (i, m) \<Longrightarrow> leaf_ok N (s\<lparr>mesh := m\<rparr>)"
  by (rule leaf_ok_quiet [OF quiet_set_mesh [OF quiet_refl]]) (auto simp: takeEntry_def split: if_splits)

lemma leaf_timeout: "leaf_ok N s \<Longrightarrow> leaf_ok N (node_checkMasterTimeout s)"
  by (auto simp: node_checkMasterTimeout_def checkMasterTimeout_def leaf_ok_def leaf_core_def one_hop_def
      no_master_def)

text \<open>A frame that is heard: a beacon comes straight from a master.\<close>

definition heard_ok :: "mac set \<Rightarrow> byte list \<Rightarrow> bool" where
  "heard_ok N bs \<longleftrightarrow> direct_beacon N \<lparr>srcMac = zero_mac, qmsg = message_of_bytes bs\<rparr>"

lemma leaf_receive:
  assumes "leaf_ok N s" "\<And>bs. data = Some bs \<Longrightarrow> heard_ok N bs"
  shows "leaf_ok N (on_mesh (onDataRecvCallback src data) s)"
  using assms
  by (auto simp: onDataRecvCallback_def Let_def leaf_ok_def leaf_core_def heard_ok_def direct_beacon_def
      intro!: list_all_update split: option.split)

section \<open>A master\<close>

text \<open>A master never relays, and its own beacon is a broadcast with hop count 0.\<close>

definition own_beacon :: "mac \<Rightarrow> mac \<times> byte list \<Rightarrow> bool" where
  "own_beacon a f \<longleftrightarrow> (let msg = message_of_bytes (snd f) in
     fst f = broadcast_mac \<and> hopCount msg = 0 \<and> lastHopMac msg = a \<and> originMac msg = a)"

definition master_ok :: "mac \<Rightarrow> 'a meshnode_scheme \<Rightarrow> bool" where
  "master_ok a s \<longleftrightarrow> isMaster (mesh s) \<and> deviceMac (mesh s) = a \<and> \<not> relayPending (mesh s)
     \<and> (\<forall>f \<in> set (radio_log s). is_beacon f \<longrightarrow> own_beacon a f)"

lemma master_ok_quiet: "quiet s t \<Longrightarrow> master_ok a s \<Longrightarrow> master_ok a t"
  by (auto simp: quiet_def master_ok_def core_def)

lemma master_processMasterBeacon:
  "master_ok a s \<Longrightarrow> master_ok a (processMasterBeacon E msg s)"
  using processMasterBeacon_parts [where E = E and msg = msg and s = s] by (simp add: master_ok_def)

lemma master_process_entry:
  assumes "quiet_callback cb" "master_ok a s"
  shows "master_ok a (process_entry cb E e s)"
  using process_entry_cases [of s cb E e]
proof (elim disjE exE conjE)
  fix m assume m: "core m = core (mesh s)" "process_entry cb E e s = dispatch cb E (qmsg e) (s\<lparr>mesh := m\<rparr>)"
  let ?t = "s\<lparr>mesh := m\<rparr>"
  have t: "master_ok a ?t" by (rule master_ok_quiet [OF quiet_set_mesh [OF quiet_refl m(1)] assms(2)])
  show ?thesis
  proof (cases "messageType (qmsg e) = MESH_TYPE_MASTER_BEACON")
    case True
    with master_processMasterBeacon [OF t] m(2) show ?thesis by (simp add: dispatch_def)
  next
    case False
    from master_ok_quiet [OF quiet_dispatch [OF assms(1) quiet_refl False] t] m(2) show ?thesis by simp
  qed
qed (rule master_ok_quiet [OF _ assms(2)])

lemma master_beacon:
  assumes "master_ok a s"
  shows "master_ok a (broadcastMasterBeacon E s)"
proof (cases "now s - lastBeaconMillis (mesh s) < MASTER_BEACON_INTERVAL_MS")
  case False
  then show ?thesis
    using assms
    by (auto simp: broadcastMasterBeacon_def buildMessage_def Let_def master_ok_def esp_now_send_def
        own_beacon_def message_wf_def)
qed (use assms in \<open>simp add: broadcast_early\<close>)

lemma master_loop_tail:
  assumes "quiet_relay relay" "master_ok a s"
  shows "master_ok a (loop_tail relay E s)"
proof -
  have "master_ok a (on_ee (flushIfDirty (now s)) s)"
    by (rule master_ok_quiet [OF _ assms(2)]) simp
  moreover have "master_ok a (drainPendingEnrollment relay t)" if "master_ok a t" for t
    by (rule master_ok_quiet [OF quiet_drainPendingEnrollment [OF assms(1) quiet_refl] that])
  moreover have "relay_pending E t = t" if "master_ok a t" for t :: "'a meshnode_scheme"
    using that by (simp add: relay_pending_def master_ok_def)
  ultimately show ?thesis
    unfolding loop_tail_def
    by (auto intro!: andthen_invariant [where P = "master_ok a"] master_beacon)
qed

lemma master_takeEntry:
  "master_ok a s \<Longrightarrow> takeEntry (mesh s) = Some (i, m) \<Longrightarrow> master_ok a (s\<lparr>mesh := m\<rparr>)"
  by (rule master_ok_quiet [OF quiet_set_mesh [OF quiet_refl]]) (auto simp: takeEntry_def split: if_splits)

lemma master_timeout: "master_ok a s \<Longrightarrow> master_ok a (node_checkMasterTimeout s)"
  by (simp add: node_checkMasterTimeout_def checkMasterTimeout_def master_ok_def)

lemma master_receive: "master_ok a s \<Longrightarrow> master_ok a (on_mesh (onDataRecvCallback src data) s)"
  by (auto simp: onDataRecvCallback_def Let_def master_ok_def split: option.split)

end
