(* ===== verification/Network_Lemmas.thy ===== *)
theory Network_Lemmas
  imports Firmware_Lemmas Mesh_Reach
begin

text \<open>
  The firmware around the mesh is quiet: neither the adapters, the buttons and the display nor the
  stages of \<open>setup\<close> touch the route or send a beacon. So a round of \<open>loop\<close> keeps the predicates of a
  node that is not a master and of a master, as long as the button does not change the role.
\<close>

section \<open>Adapters\<close>

lemma quiet_trans: "quiet s t \<Longrightarrow> quiet t u \<Longrightarrow> quiet s u"
  by (auto simp: quiet_def)

lemma quiet_emit [simp]: "\<not> is_frame e \<Longrightarrow> quiet s (emit e t) = quiet s t"
  by (rule quiet_cong) (simp_all add: radio_log_emit_other del: radio_log_emit)

lemma quiet_halt [simp]: "quiet s (restart t) = quiet s t" "quiet s (hang t) = quiet s t"
  by (rule quiet_cong; simp)+

lemma quiet_blink [simp]:
  "quiet s (greenLed_blink n on off t) = quiet s t" "quiet s (redLed_blink n on off t) = quiet s t"
  by (rule quiet_cong; simp)+

lemma quiet_appnode [simp]:
  "quiet s (t\<lparr>serialLastHealth := x\<rparr>) = quiet s t" "quiet s (t\<lparr>adapter := a\<rparr>) = quiet s t"
  "quiet s (t\<lparr>pirInstance := b\<rparr>) = quiet s t" "quiet s (t\<lparr>factoryDevMode := b\<rparr>) = quiet s t"
  by (rule quiet_cong; simp)+

lemma quiet_delay [simp]: "quiet s (delay_ms d t) = quiet s t"
  by (rule quiet_cong) (simp_all add: delay_ms_def radio_log_def)

lemma quiet_sendDataThroughMesh [quiet_intros]:
  "quiet s t \<Longrightarrow> quiet s (sendDataThroughMesh E a ty d t)"
  by (simp add: sendDataThroughMesh_def quiet_intros)

lemma quiet_sendHealthReport [quiet_intros]: "quiet s t \<Longrightarrow> quiet s (sendHealthReport E t)"
  by (simp add: sendHealthReport_def quiet_intros)

lemma quiet_serial_frame [simp]: "quiet s (serial_frame bs t) = quiet s t"
  by (simp add: serial_frame_def)

lemma quiet_small [simp]:
  "quiet s (apply_preset E p t) = quiet s t" "quiet s (config_set E tgt raw t) = quiet s t"
  "quiet s (node_id_set E msg t) = quiet s t"
  by (simp_all add: apply_preset_def config_set_def saveAdapterTypeToEEPROM_def node_id_set_def Let_def)

lemma quiet_serial_onMeshDataImpl [quiet_intros]:
  "quiet s t \<Longrightarrow> quiet s (serial_onMeshDataImpl E msg t)"
  by (auto simp: serial_onMeshDataImpl_def serial_control_def Let_def intro!: quiet_intros)

lemma quiet_onMeshData [quiet_intros]: "quiet s t \<Longrightarrow> quiet s (onMeshData E a msg t)"
  by (auto simp: onMeshData_def onMeshData_typed_def onMeshDataImpl_def led_command_def Let_def
      intro!: quiet_intros split: adapter_class.split)

lemma quiet_dataRecvCallback: "quiet_callback (Some (dataRecvCallback E))"
  by (auto simp: quiet_callback_def dataRecvCallback_def intro!: quiet_intros split: option.split)

lemma quiet_relayEnrollment: "quiet_relay (Some relayEnrollmentToServer)"
  by (auto simp: quiet_relay_def relayEnrollmentToServer_def Let_def)

lemma quiet_forward_frame [quiet_intros]: "quiet s t \<Longrightarrow> quiet s (forward_frame E a msg t)"
  by (auto simp: forward_frame_def intro!: quiet_intros)

lemma quiet_frame_control [quiet_intros]: "quiet s t \<Longrightarrow> quiet s (frame_control E msg t)"
  by (auto simp: frame_control_def Let_def intro!: quiet_intros)

lemma quiet_handleCompleteFrame [quiet_intros]:
  "quiet s t \<Longrightarrow> quiet s (handleCompleteFrame E a data t)"
  by (auto simp: handleCompleteFrame_def intro!: quiet_intros split: option.split)

lemma quiet_frame_byte: "quiet s (snd cs) \<Longrightarrow> quiet s (snd (frame_byte E a b cs))"
  by (cases cs) (auto simp: frame_byte_def Let_def intro!: quiet_intros split: FrameState.split)

lemma quiet_serial_bytes: "quiet s (snd cs) \<Longrightarrow> quiet s (snd (serial_bytes E a rx cs))"
  by (induction rx arbitrary: cs) (simp_all add: Let_def quiet_frame_byte)

lemma quiet_serial_loop: "quiet s (snd cs) \<Longrightarrow> quiet s (snd (serial_loop E a rx cs))"
  by (cases cs)
    (auto simp: serial_loop_def serial_health_def Let_def intro!: quiet_serial_bytes quiet_intros)

lemma quiet_pir_pins [simp]:
  "quiet s (snd (pir_attach p t)) = quiet s t" "quiet s (pir_detach p t) = quiet s t"
  by (simp_all add: pir_attach_def pir_detach_def)

lemma quiet_sendDataTrampoline [quiet_intros]:
  "quiet s t \<Longrightarrow> quiet s (sendDataTrampoline E a ty d t)"
  by (simp add: sendDataTrampoline_def quiet_intros)

lemma quiet_pir_loop: "quiet s (snd ps) \<Longrightarrow> quiet s (snd (pir_loop E a ps))"
proof (cases ps)
  case (Pair p t)
  assume q: "quiet s (snd ps)"
  obtain p1 s1 where r: "pir_report E a (pir_take_motion (now t) p, t) = (p1, s1)"
    by (cases "pir_report E a (pir_take_motion (now t) p, t)")
  obtain ok p2 s2 where m: "pir_rearm (now t) (p1, s1) = (ok, p2, s2)"
    by (cases "pir_rearm (now t) (p1, s1)")
  have "quiet s s1" using q r Pair by (auto simp: pir_report_def intro!: quiet_intros split: if_splits)
  moreover have "quiet s s2 = quiet s s1"
    using m by (auto simp: pir_rearm_def pir_attach_def Let_def split: if_splits)
  ultimately show ?thesis
    using q Pair r m by (simp add: pir_loop_def Let_def sendNodeHealth_def quiet_intros)
qed

lemma quiet_adapter_loop [quiet_intros]: "quiet s t \<Longrightarrow> quiet s (adapter_loop E rx t)"
  using quiet_serial_loop [of s "(_, t)"] quiet_pir_loop [of s "(_, t)"]
  by (auto simp: adapter_loop_def split: option.split adapter_class.split prod.split) (metis snd_conv)+

lemma quiet_detectMotionTrampoline: "quiet s t \<Longrightarrow> quiet s (detectMotionTrampoline t)"
  by (auto simp: detectMotionTrampoline_def detectMotion_def split: option.split adapter_class.split)

section \<open>The stages of the loop\<close>

lemma quiet_firmware [simp]:
  "quiet s (t\<lparr>isDevMode := b\<rparr>) = quiet s t" "quiet s (t\<lparr>devMasterFlag := b\<rparr>) = quiet s t"
  "quiet s (t\<lparr>configButton := g\<rparr>) = quiet s t" "quiet s (t\<lparr>resetButton := g\<rparr>) = quiet s t"
  "quiet s (t\<lparr>startupBlinkDone := b\<rparr>) = quiet s t"
  "quiet s (t\<lparr>lastDisplayToggleMs := x, dashVisible := b\<rparr>) = quiet s t"
  "quiet s (t\<lparr>lastEnrollmentBroadcast := x\<rparr>) = quiet s t"
  "quiet s (t\<lparr>buttonWasPressed := b\<rparr>) = quiet s t"
  "quiet s (t\<lparr>buttonWasPressed := b, holdStart := x\<rparr>) = quiet s t"
  "quiet s (t\<lparr>resetButtonWasPressed := b\<rparr>) = quiet s t"
  "quiet s (t\<lparr>resetButtonWasPressed := b, resetHoldStart := x\<rparr>) = quiet s t"
  "quiet s (t\<lparr>resetConfirmPending := b\<rparr>) = quiet s t"
  "quiet s (t\<lparr>resetConfirmPending := b, resetConfirmDeadline := x\<rparr>) = quiet s t"
  by (rule quiet_cong; simp)+

lemma quiet_blinkPattern [simp]: "quiet s (blinkPattern ty t) = quiet s t"
proof -
  have "radio_log (blinkPattern ty t) = radio_log t"
    by (auto simp: blinkPattern_def blink_red_def dest: radio_log_blink_loop split: prod.splits)
  moreover have "mesh (blinkPattern ty t) = mesh t" by (rule node_more_fields) simp
  ultimately show ?thesis by (intro quiet_cong) simp_all
qed

lemma quiet_drainPendingBlink [simp]: "quiet s (drainPendingBlink t) = quiet s t"
proof -
  have "quiet s (t\<lparr>pendingBlink := False\<rparr>) = quiet s t"
    by (rule quiet_cong) (simp_all add: radio_log_def)
  then show ?thesis by (simp add: drainPendingBlink_def)
qed

lemma quiet_startup_blink [quiet_intros]: "quiet s t \<Longrightarrow> quiet s (startup_blink t)"
  by (auto simp: startup_blink_def intro!: quiet_intros)

lemma quiet_isPressed: "isPressed levels pin t = (b, t') \<Longrightarrow> quiet s t' = quiet s t"
proof -
  assume p: "isPressed levels pin t = (b, t')"
  note f = isPressed_frame [OF p]
  have "mesh t' = mesh t" by (rule node_more_fields [OF node_more_cong [OF f(3)]])
  then show "quiet s t' = quiet s t"
    using f(2) by (intro quiet_cong) (auto intro: radio_log_cong)
qed

lemma quiet_display_step [simp]: "quiet s (display_step t) = quiet s t"
  by (simp add: display_step_def display_clear_def Let_def)

lemma quiet_enrollment_step [quiet_intros]: "quiet s t \<Longrightarrow> quiet s (enrollment_step E t)"
  by (simp add: enrollment_step_def quiet_intros)

lemma quiet_reset_button [quiet_intros]: "quiet s t \<Longrightarrow> quiet s (reset_button levels t)"
proof -
  have held: "quiet s u \<Longrightarrow> quiet s (reset_held u)" for u
    by (auto simp: reset_held_def wipe_storage_def Let_def simp del: run_all.simps
        intro!: run_all_invariant [where P = "quiet s"])
  assume "quiet s t"
  then show ?thesis
    by (auto simp: reset_button_def Let_def quiet_isPressed held split: prod.split)
qed

text \<open>The config button: quiet, or it turns a node into the other role.\<close>

definition kept :: "'a meshnode_scheme \<Rightarrow> 'a meshnode_scheme \<Rightarrow> bool" where
  "kept s t \<longleftrightarrow> quiet s t \<or> isMaster (mesh t) \<noteq> isMaster (mesh s)"

lemma quiet_role: "quiet s t \<Longrightarrow> isMaster (mesh t) = isMaster (mesh s)"
  by (simp add: quiet_def core_def)

lemma kept_quiet: "kept s t \<Longrightarrow> quiet t u \<Longrightarrow> kept s u"
  using quiet_trans [of s t u] quiet_role [of t u] by (auto simp: kept_def)

lemma kept_config_button:
  assumes "quiet s t"
  shows "kept s (config_button levels t)"
proof -
  have role: "isMaster (mesh t) = isMaster (mesh s)" using quiet_role [OF assms] .
  have toggle: "kept s (toggle_role u)" if "quiet s u" for u
  proof (cases "isDevMode u")
    case True
    then show ?thesis using quiet_role [OF that] by (simp add: kept_def toggle_role_def Let_def)
  next
    case False
    then have "quiet s (toggle_role u)"
      using that by (auto simp: toggle_role_def Let_def intro!: quiet_intros)
    then show ?thesis by (simp add: kept_def)
  qed
  have self: "kept s u" if "quiet s u" for u using that by (simp add: kept_def)
  show ?thesis
    using assms
    by (auto simp: config_button_def Let_def quiet_isPressed toggle self split: prod.split)
qed

lemma kept_loop_rest: "kept (node_checkMasterTimeout s) (loop_rest E levels rx s)"
proof -
  let ?u = "node_checkMasterTimeout s"
  define t where "t = run_all [node_checkMasterTimeout, display_step] s"
  have t: "quiet ?u t" by (auto simp: t_def andthen_def Let_def)
  have k: "kept ?u (run_all [config_button levels, reset_button levels, delay_ms 1] r)" if "quiet ?u r" for r
  proof -
    have "quiet v (run_all [reset_button levels, delay_ms 1] v)" for v
      by (auto intro!: run_all_invariant [where P = "quiet v"] quiet_intros simp del: run_all.simps)
    with kept_config_button [OF that] show ?thesis
      by (subst run_all.simps(2), simp del: run_all.simps add: andthen_def Let_def)
        (blast intro: kept_quiet)
  qed
  have "kept ?u (run_all [adapter_loop E rx, config_button levels, reset_button levels, delay_ms 1] t)"
    using k [OF quiet_adapter_loop [OF t]] quiet_adapter_loop [OF t, of E rx]
    by (subst run_all.simps(2), simp del: run_all.simps add: andthen_def Let_def) (simp add: kept_def)
  moreover have "kept ?u (enrollment_step E t)"
    using quiet_enrollment_step [OF t] by (simp add: kept_def)
  moreover have "kept ?u t" using t by (simp add: kept_def)
  ultimately show ?thesis
    unfolding loop_rest_def andthen_def t_def [symmetric] Let_def by simp
qed

section \<open>A round of the loop\<close>

interpretation device_leaf: mesh_client "Some (dataRecvCallback E)" "Some relayEnrollmentToServer" "leaf_ok N" E
  for E N
  by unfold_locales
    (simp_all add: callback_keeps_ring callback_keeps_inv relay_keeps leaf_process_entry leaf_takeEntry
      leaf_loop_tail quiet_dataRecvCallback quiet_relayEnrollment)

interpretation device_master: mesh_client "Some (dataRecvCallback E)" "Some relayEnrollmentToServer" "master_ok a" E
  for E a
  by unfold_locales
    (simp_all add: callback_keeps_ring callback_keeps_inv relay_keeps master_process_entry master_takeEntry
      master_loop_tail quiet_dataRecvCallback quiet_relayEnrollment)

lemma firmware_loop_parts:
  assumes "firmware_loop E levels rx s = Some s'" "node_inv s"
    and quiet: "\<And>t u. quiet t u \<Longrightarrow> P t \<Longrightarrow> P u"
    and timeout: "\<And>t. P t \<Longrightarrow> P (node_checkMasterTimeout t)"
    and round: "\<And>t. node_inv t \<Longrightarrow> P t \<Longrightarrow>
      \<exists>t'. mesh_loop (Some (dataRecvCallback E)) (Some relayEnrollmentToServer) E t = Some t' \<and> node_inv t' \<and> P t'"
    and role: "\<And>t. P t \<Longrightarrow> isMaster (mesh t) = r" "isMaster (mesh s') = r"
    and "P s"
  shows "P s'"
proof -
  define s1 where "s1 = run_all [drainPendingBlink, startup_blink] s"
  have "quiet s s1"
    unfolding s1_def
    by (auto intro!: run_all_invariant [where P = "quiet s"] quiet_intros simp del: run_all.simps)
  then have P1: "P s1" using quiet assms(8) by blast
  have inv1: "node_inv s1"
    unfolding s1_def using assms(2)
    by (auto intro!: run_all_invariant [where P = node_inv] node_inv_startup_blink simp del: run_all.simps)
  show ?thesis
  proof (cases "status s1 = Running")
    case False
    with assms(1) P1 show ?thesis
      unfolding firmware_loop_def Let_def s1_def [symmetric] by simp
  next
    case True
    obtain t' where t': "mesh_loop (Some (dataRecvCallback E)) (Some relayEnrollmentToServer) E s1 = Some t'" "P t'"
      using round [OF inv1 P1] by blast
    then have s': "s' = (if status t' = Running then loop_rest E levels rx t' else t')"
      using assms(1) True unfolding firmware_loop_def Let_def s1_def [symmetric] by simp
    have "P (node_checkMasterTimeout t')" by (rule timeout [OF t'(2)])
    moreover have "quiet (node_checkMasterTimeout t') s'" if "status t' = Running"
      using kept_loop_rest [of t' E levels rx] that s' role(1) [OF timeout [OF t'(2)]] role(2)
      by (simp add: kept_def)
    ultimately show ?thesis using s' t'(2) quiet by (cases "status t' = Running") auto
  qed
qed

lemma leaf_role: "leaf_ok N s \<Longrightarrow> isMaster (mesh s) = False"
  by (simp add: leaf_ok_def leaf_core_def)

lemma master_role: "master_ok a s \<Longrightarrow> isMaster (mesh s) = True"
  by (simp add: master_ok_def)

lemma leaf_firmware_loop:
  assumes "firmware_loop E levels rx s = Some s'" "node_inv s" "leaf_ok N s" "\<not> isMaster (mesh s')"
  shows "leaf_ok N s'"
  by (rule firmware_loop_parts [where P = "leaf_ok N" and r = False, OF assms(1,2)])
    (use assms(3,4) device_leaf.loop_ends leaf_ok_quiet leaf_timeout in \<open>auto simp: leaf_role\<close>)

lemma master_firmware_loop:
  assumes "firmware_loop E levels rx s = Some s'" "node_inv s" "master_ok a s" "isMaster (mesh s')"
  shows "master_ok a s'"
  by (rule firmware_loop_parts [where P = "master_ok a" and r = True, OF assms(1,2)])
    (use assms(3,4) device_master.loop_ends master_ok_quiet master_timeout in \<open>auto simp: master_role\<close>)

end
