(* ===== verification/Network.thy ===== *)
theory Network
  imports Network_Lemmas Firmware_Boot
begin

text \<open>
  A network of devices that run the firmware and hear each other's radio, and how far routes reach
  in it.
\<close>

section \<open>After set-up\<close>

text \<open>No route, no relay, no beacon received or sent.\<close>

definition booted :: "'a meshnode_scheme \<Rightarrow> bool" where
  "booted s \<longleftrightarrow> distance (currentMaster (mesh s)) = 0xFF \<and> \<not> relayPending (mesh s)
     \<and> list_all (\<lambda>e. messageType (qmsg e) \<noteq> MESH_TYPE_MASTER_BEACON) (recvQueue (mesh s))
     \<and> (\<forall>f \<in> set (radio_log s). \<not> is_beacon f)"

lemma booted_quiet: "quiet s t \<Longrightarrow> booted s \<Longrightarrow> booted t"
  by (auto simp: quiet_def booted_def core_def)

lemma booted_boot [simp]: "booted (boot_state e)"
  by (simp add: booted_def boot_state_def radio_log_def Mesh_def no_master_def zero_entry_def list_all_length)

lemma quiet_more: "node.more t' = node.more t \<Longrightarrow> radio_log t' = radio_log t \<Longrightarrow> quiet s t' = quiet s t"
  using node_more_fields(1) [of t' t] by (intro quiet_cong) simp_all

lemma quiet_leds [simp]: "quiet s (put_red l t) = quiet s t" "quiet s (put_green l t) = quiet s t"
  by (rule quiet_more; simp add: put_red_def put_green_def radio_log_def)+

lemma quiet_led_init:
  assumes "\<And>l t. quiet s (put l t) = quiet s (t :: 'a meshnode_scheme)"
  shows "quiet s (snd (led_init get put isSys t)) = quiet s (t :: 'a meshnode_scheme)"
  by (simp add: led_init_def gpio_output_init_def assms)

lemma quiet_println [simp]: "quiet s (println bs t) = quiet s t"
  by (simp add: println_def)

lemma quiet_track_reset [simp]: "quiet s (track_reset r t) = quiet s t"
  by (simp add: track_reset_def Let_def)

lemma quiet_init_red_led [simp]: "quiet s (init_red_led t) = quiet s t"
proof -
  obtain ok s1 where r: "led_init redLed put_red True t = (ok, s1)"
    by (cases "led_init redLed put_red True t")
  obtain ok' s2 where g: "led_init greenLed put_green False s1 = (ok', s2)"
    by (cases "led_init greenLed put_green False s1")
  have "quiet s s1 = quiet s t" "quiet s s2 = quiet s s1"
    using quiet_led_init [of s put_red redLed True t] quiet_led_init [of s put_green greenLed False s1] r g
    by simp_all
  then show ?thesis by (simp add: init_red_led_def r g)
qed

lemma quiet_fatal [simp]: "quiet s (fatal ty k sub t) = quiet s t"
  by (rule quiet_cong) simp_all

lemma quiet_init_green_led [simp]: "quiet s (init_green_led t) = quiet s t"
  using quiet_led_init [of s put_green greenLed False t]
  by (auto simp: init_green_led_def Let_def split: prod.split)

lemma quiet_init_display [simp]: "quiet s (init_display r t) = quiet s t"
proof -
  have "quiet s (t\<lparr>errorLedSet := True, displaySet := d, ecInitialized := True\<rparr>) = quiet s t" for d t
    by (rule quiet_cong) (simp_all add: radio_log_def)
  moreover have "quiet s (signalError ty k sub t) = quiet s t" for ty k sub t
    by (rule quiet_cong) simp_all
  ultimately show ?thesis
    by (simp add: init_display_def errorcore_init_def display_init_def display_clear_def Let_def)
qed

lemma quiet_init_buttons [simp]:
  "quiet s (init_config_button t) = quiet s t" "quiet s (init_reset_button t) = quiet s t"
  by (simp_all add: init_config_button_def init_reset_button_def button_init_def fail_type_def)

lemma quiet_init_stores [simp]:
  "quiet s (init_dev_mode t) = quiet s t" "quiet s (init_peers t) = quiet s t"
  "quiet s (init_defaults t) = quiet s t"
  by (simp_all add: init_dev_mode_def setFactoryDevMode_def init_peers_def init_defaults_def
      initializeDefaultsIfUnset_def Let_def split: option.split)

lemma quiet_init_adapter [simp]: "quiet s (init_adapter t) = quiet s t"
proof -
  obtain a s1 where c: "(if isDevMode t then createAdapter DEFAULT_ADAPTER (getDefaultPinForAdapter DEFAULT_ADAPTER) t
      else createFromEEPROM t) = (a, s1)" by fastforce
  have "quiet s (snd (createAdapter ty p t)) = quiet s t" for ty p by (simp add: createAdapter_def)
  then have "quiet s s1 = quiet s t" using c by (metis createFromEEPROM_def snd_conv)
  moreover obtain ok s3 where i: "adapter_init (s1\<lparr>adapter := a\<rparr>) = (ok, s3)"
    by (cases "adapter_init (s1\<lparr>adapter := a\<rparr>)")
  have "quiet s (snd (adapter_init (s1\<lparr>adapter := a\<rparr>))) = quiet s s1"
    by (auto simp: adapter_init_def pir_adapter_init_def pir_init_def Let_def
        split: option.split adapter_class.split)
  then have "quiet s s3 = quiet s s1" using i by simp
  ultimately show ?thesis unfolding init_adapter_def c Let_def prod.case i by simp
qed

lemma quiet_last_stages [simp]:
  "quiet s (print_public_key t) = quiet s t" "quiet s (link_adapter t) = quiet s t"
  by (simp_all add: print_public_key_def link_adapter_def)

section \<open>The mesh's own initialisation\<close>

lemma quiet_loadPeers: "quiet s t \<Longrightarrow> quiet s (loadPeersFromEEPROM t)"
proof -
  assume q: "quiet s t"
  have rec: "core (load_record recs i m) = core m" for recs i m
    by (simp add: load_record_def Let_def core_appendPeer)
  have dft: "core (load_default d m) = core m" for d m
    by (simp add: load_default_def core_appendPeer)
  define m1 where "m1 = (case loadPeerList MAX_PEERS (ee t) of None \<Rightarrow> (mesh t)\<lparr>peerCount := 0\<rparr>
    | Some recs \<Rightarrow> fold (load_record recs) [0..<MAX_PEERS] ((mesh t)\<lparr>peerCount := 0\<rparr>))"
  have "core m1 = core (mesh t)"
    by (simp add: m1_def fold_frame [where g = core] rec split: option.split)
  moreover have "core (fold load_default DEFAULT_PEERS m1) = core m1"
    by (rule fold_frame) (rule dft)
  ultimately show ?thesis
    using q unfolding loadPeersFromEEPROM_def Let_def m1_def [symmetric] by (simp add: quiet_set_mesh)
qed

lemma quiet_loads [quiet_intros]:
  "quiet s t \<Longrightarrow> quiet s (loadMeshKeyFromEEPROM t)" "quiet s t \<Longrightarrow> quiet s (loadOrGenerateKeypair E t)"
  "quiet s t \<Longrightarrow> quiet s (load_known_masters t)" "quiet s t \<Longrightarrow> quiet s (bump_epoch t)"
  by (auto simp: loadMeshKeyFromEEPROM_def saveMeshKeyToEEPROM_def loadOrGenerateKeypair_def set_keys_def
      load_known_masters_def bump_epoch_def Let_def intro!: quiet_intros split: option.split sum.split)

lemma quiet_apply_tx_power [simp]: "quiet s (apply_tx_power E t) = quiet s t"
  by (simp add: apply_tx_power_def Let_def)

lemma quiet_setupEspNow: "quiet s t \<Longrightarrow> quiet s (snd (setupEspNow E t))"
  by (auto simp: setupEspNow_def register_entry_def esp_now_add_peer_def Let_def
      intro!: fold_invariant [where I = "quiet s"])

lemma booted_setupWiFi: "booted s \<Longrightarrow> booted (setupWiFi E s)"
  unfolding setupWiFi_def
  by (rule andthen_invariant [where P = booted]) (auto simp: readMacAddress_def booted_def)

lemma booted_mesh_init: "booted s \<Longrightarrow> booted (snd (mesh_init E s))"
proof -
  assume b: "booted s"
  have "booted (loadPersistentState E t)" if "booted t" for t
  proof -
    have "quiet t (loadPersistentState E t)"
      by (auto simp: loadPersistentState_def intro!: quiet_intros quiet_loadPeers)
    from booted_quiet [OF this that] show ?thesis .
  qed
  moreover have "booted (bump_epoch t)" if "booted t" for t
    by (rule booted_quiet [OF quiet_loads(4) [OF quiet_refl] that])
  moreover have "booted (apply_tx_power E t)" if "booted t" for t
    by (rule booted_quiet [OF _ that]) simp
  ultimately have "booted (andthen (loadPersistentState E) (\<lambda>t. andthen (setupWiFi E) (apply_tx_power E) (bump_epoch t)) s)"
    using b by (auto intro!: andthen_invariant [where P = booted] booted_setupWiFi)
  then show ?thesis
    by (simp add: mesh_init_def Let_def booted_quiet [OF quiet_setupEspNow [OF quiet_refl]])
qed

lemma booted_init_mesh: "booted s \<Longrightarrow> booted (init_mesh E s)"
proof -
  assume "booted s"
  then have "booted (snd (mesh_init E s))" by (rule booted_mesh_init)
  moreover have "booted (fatal ty k sub t)" if "booted t" for ty k sub and t :: "'a firmware_scheme"
    by (rule booted_quiet [OF _ that]) simp
  ultimately show ?thesis by (auto simp: init_mesh_def Let_def split: prod.split)
qed

lemma booted_setup: "booted (firmware_setup E reason (boot_state e))"
proof -
  have q: "booted t \<Longrightarrow> quiet t u \<Longrightarrow> booted u" for t u :: firmware
    using booted_quiet by blast
  have "booted (init_role t)" if "booted t" for t :: firmware
    using that by (simp add: init_role_def Let_def booted_def)
  then show ?thesis
    unfolding firmware_setup_def
    by (intro run_all_invariant [where P = booted]) (auto intro: booted_init_mesh q)
qed

lemma andthen_Running:
  "status (andthen f g s) = Running \<Longrightarrow> status (f s) = Running \<and> andthen f g s = g (f s)"
  by (auto simp: andthen_def Let_def split: if_splits)

lemma run_all_split:
  "status (run_all (fs @ g # hs) s) = Running \<Longrightarrow>
     \<exists>t. status (g t) = Running \<and> run_all (fs @ g # hs) s = run_all hs (g t)"
proof (induction fs arbitrary: s)
  case Nil
  then have "status (g s) = Running \<and> andthen g (run_all hs) s = run_all hs (g s)"
    by (intro andthen_Running) simp
  then show ?case by (intro exI [of _ s]) simp
next
  case (Cons f fs)
  then have "status (f s) = Running \<and> andthen f (run_all (fs @ g # hs)) s = run_all (fs @ g # hs) (f s)"
    by (intro andthen_Running) simp
  moreover from this have "status (run_all (fs @ g # hs) (f s)) = Running"
    using Cons.prems by (simp only: append_Cons run_all.simps)
  ultimately show ?case using Cons.IH [of "f s"] by (simp only: append_Cons run_all.simps)
qed

lemma setup_mac:
  assumes "status (firmware_setup E reason s) = Running" "mac_ok E"
  shows "deviceMac (mesh (firmware_setup E reason s)) = hw_mac E"
proof -
  define pre :: "('a firmware_scheme \<Rightarrow> 'a firmware_scheme) list"
    where "pre = [track_reset reason, init_red_led, init_display reason, init_green_led,
       init_config_button, init_reset_button, init_dev_mode, init_peers, init_defaults, init_adapter]"
  define post :: "('a firmware_scheme \<Rightarrow> 'a firmware_scheme) list"
    where "post = [print_public_key, init_role, link_adapter]"
  have fs: "firmware_setup E reason = run_all (pre @ init_mesh E # post)"
    by (simp add: firmware_setup_def pre_def post_def)
  obtain t where t: "status (init_mesh E t) = Running"
    "run_all (pre @ init_mesh E # post) s = run_all post (init_mesh E t)"
    using run_all_split [of pre "init_mesh E" post s] assms(1) unfolding fs by blast
  obtain ok u where m: "mesh_init E t = (ok, u)" by (cases "mesh_init E t")
  have "status u = Running" using t(1) by (simp add: init_mesh_def m split: if_splits)
  then have "deviceMac (mesh u) = hw_mac E"
  proof -
    define v where "v = andthen (loadPersistentState E)
        (\<lambda>t. andthen (setupWiFi E) (apply_tx_power E) (bump_epoch t)) t"
    have v: "status v = Running" "u = snd (setupEspNow E v)"
      using m \<open>status u = Running\<close> by (auto simp: mesh_init_def v_def [symmetric] Let_def split: if_splits)
    obtain w where w: "v = apply_tx_power E (setupWiFi E w)" "status (setupWiFi E w) = Running"
      using v(1) unfolding v_def by (metis andthen_Running)
    have "deviceMac (mesh (setupWiFi E w)) = hw_mac E"
      using w(2) assms(2) by (auto simp: setupWiFi_def readMacAddress_def dest!: andthen_Running)
    moreover have "quiet (setupWiFi E w) u"
      unfolding v(2) w(1) by (rule quiet_setupEspNow) simp
    ultimately show ?thesis by (simp add: quiet_def core_def)
  qed
  then have "deviceMac (mesh (init_mesh E t)) = hw_mac E" by (simp add: init_mesh_def m)
  then show ?thesis
    unfolding fs t(2)
    by (intro run_all_invariant [where P = "\<lambda>v. deviceMac (mesh v) = hw_mac E"])
      (auto simp: post_def print_public_key_def init_role_def link_adapter_def println_def)
qed

section \<open>A network\<close>

text \<open>
  Devices by their addresses, and what has been on the air: sender, destination, bytes. A device may
  be switched on or reset at any time. A frame reaches a device that hears its sender when it is
  addressed to that device or broadcast; it may arrive late, more than once or never. \<open>hears a b\<close>:
  \<open>a\<close> is in radio range of \<open>b\<close>. Every device keeps its role.
\<close>

type_synonym air = "(mac \<times> mac \<times> byte list) set"

definition sent_by :: "mac \<Rightarrow> firmware \<Rightarrow> air" where
  "sent_by a s = Pair a ` set (radio_log s)"

inductive network :: "(mac \<Rightarrow> env) \<Rightarrow> (mac \<Rightarrow> bool) \<Rightarrow> (mac \<Rightarrow> mac \<Rightarrow> bool)
    \<Rightarrow> (mac \<rightharpoonup> firmware) \<Rightarrow> air \<Rightarrow> bool" for E master hears where
  Off: "network E master hears Map.empty {}"
| Boot: "network E master hears ns air \<Longrightarrow> s = firmware_setup (E a) reason (boot_state e)
    \<Longrightarrow> status s = Running \<Longrightarrow> isMaster (mesh s) = master a
    \<Longrightarrow> network E master hears (ns(a \<mapsto> s)) (air \<union> sent_by a s)"
| Clock: "network E master hears ns air \<Longrightarrow> ns a = Some s
    \<Longrightarrow> network E master hears (ns(a \<mapsto> delay_ms d s)) air"
| Motion: "network E master hears ns air \<Longrightarrow> ns a = Some s
    \<Longrightarrow> network E master hears (ns(a \<mapsto> detectMotionTrampoline s)) air"
| Loop: "network E master hears ns air \<Longrightarrow> ns a = Some s \<Longrightarrow> status s = Running
    \<Longrightarrow> firmware_loop (E a) levels rx s = Some s' \<Longrightarrow> isMaster (mesh s') = master a
    \<Longrightarrow> network E master hears (ns(a \<mapsto> s')) (air \<union> sent_by a s')"
| Hear: "network E master hears ns air \<Longrightarrow> ns a = Some s \<Longrightarrow> (b, tgt, bs) \<in> air \<Longrightarrow> hears a b
    \<Longrightarrow> tgt = a \<or> tgt = broadcast_mac
    \<Longrightarrow> network E master hears (ns(a \<mapsto> on_mesh (onDataRecvCallback (Some b) (Some bs)) s)) air"

section \<open>The invariant of the network\<close>

definition device_ok :: "(mac \<Rightarrow> bool) \<Rightarrow> (mac \<Rightarrow> mac \<Rightarrow> bool) \<Rightarrow> mac \<Rightarrow> firmware \<Rightarrow> bool" where
  "device_ok master hears a s \<longleftrightarrow> node_inv s
     \<and> (if master a then master_ok a s else leaf_ok {b. master b \<and> hears a b} s)"

definition air_ok :: "(mac \<Rightarrow> bool) \<Rightarrow> mac \<times> mac \<times> byte list \<Rightarrow> bool" where
  "air_ok master = (\<lambda>(b, f). is_beacon f \<longrightarrow> (if master b then own_beacon b f else master (fst f)))"

definition network_ok :: "(mac \<Rightarrow> bool) \<Rightarrow> (mac \<Rightarrow> mac \<Rightarrow> bool) \<Rightarrow> (mac \<rightharpoonup> firmware) \<Rightarrow> air \<Rightarrow> bool" where
  "network_ok master hears ns air \<longleftrightarrow>
     (\<forall>a s. ns a = Some s \<longrightarrow> device_ok master hears a s) \<and> (\<forall>f \<in> air. air_ok master f)"

lemma device_ok_quiet:
  "quiet s t \<Longrightarrow> node_inv t \<Longrightarrow> device_ok master hears a s \<Longrightarrow> device_ok master hears a t"
  by (auto simp: device_ok_def intro: master_ok_quiet leaf_ok_quiet)

lemma sent_by_ok:
  assumes "device_ok master hears a s" "f \<in> sent_by a s"
  shows "air_ok master f"
  using assms by (auto simp: sent_by_def air_ok_def device_ok_def master_ok_def leaf_ok_def split: if_splits)

lemma network_ok_step:
  "network_ok master hears ns air \<Longrightarrow> device_ok master hears a s
     \<Longrightarrow> network_ok master hears (ns(a \<mapsto> s)) (air \<union> sent_by a s)"
  "network_ok master hears ns air \<Longrightarrow> device_ok master hears a s
     \<Longrightarrow> network_ok master hears (ns(a \<mapsto> s)) air"
  using sent_by_ok by (auto simp: network_ok_def)

text \<open>The hardware of the devices: drivers that start, and the address each device has.\<close>

definition devices_ok :: "(mac \<Rightarrow> env) \<Rightarrow> bool" where
  "devices_ok E \<longleftrightarrow> (\<forall>a. env_ok (E a) \<and> mac_ok (E a) \<and> hw_mac (E a) = a)"

lemma device_boots:
  assumes "devices_ok E" "s = firmware_setup (E a) reason (boot_state e)" "status s = Running"
    and "isMaster (mesh s) = master a"
  shows "device_ok master hears a s"
proof -
  have E: "env_ok (E a)" "mac_ok (E a)" "hw_mac (E a) = a" using assms(1) by (simp_all add: devices_ok_def)
  have b: "booted s" unfolding assms(2) by (rule booted_setup)
  have mac: "deviceMac (mesh s) = a" using setup_mac [of "E a" reason "boot_state e"] assms(2,3) E(2,3) by simp
  have inv: "node_inv s" unfolding assms(2) by (rule node_inv_setup [OF node_inv_boot E(1)])
  show ?thesis
  proof (cases "master a")
    case True
    with b mac inv assms(4) show ?thesis by (simp add: device_ok_def master_ok_def booted_def)
  next
    case False
    have "list_all (direct_beacon N) (recvQueue (mesh s))" for N
      using b by (auto simp: booted_def direct_beacon_def list_all_iff)
    with False b inv assms(4) show ?thesis
      by (simp add: device_ok_def leaf_ok_def leaf_core_def one_hop_def booted_def)
  qed
qed

lemma heard_direct:
  assumes "air_ok master (b, tgt, bs)" "hears a b" "tgt = a \<or> tgt = broadcast_mac"
    and "\<not> master a" "\<not> master broadcast_mac"
  shows "heard_ok {b. master b \<and> hears a b} bs"
  using assms
  by (auto simp: air_ok_def heard_ok_def direct_beacon_def is_beacon_def own_beacon_def Let_def split: if_splits)

lemma network_inv:
  assumes "network E master hears ns air" "devices_ok E" "\<not> master broadcast_mac"
  shows "network_ok master hears ns air"
  using assms(1)
proof induction
  case Off
  then show ?case by (simp add: network_ok_def)
next
  case (Boot ns air s a reason e)
  then show ?case using device_boots [OF assms(2)] by (blast intro: network_ok_step)
next
  case (Clock ns air a s d)
  then have ok: "device_ok master hears a s" by (simp add: network_ok_def)
  then have "device_ok master hears a (delay_ms d s)"
    by (intro device_ok_quiet [OF _ _ ok]) (simp_all add: device_ok_def)
  with Clock show ?case by (blast intro: network_ok_step)
next
  case (Motion ns air a s)
  then have ok: "device_ok master hears a s" by (simp add: network_ok_def)
  then have "device_ok master hears a (detectMotionTrampoline s)"
    by (intro device_ok_quiet [OF quiet_detectMotionTrampoline [OF quiet_refl] _ ok]
        node_inv_detectMotionTrampoline) (simp add: device_ok_def)
  with Motion show ?case by (blast intro: network_ok_step)
next
  case (Loop ns air a s levels rx s')
  then have ok: "device_ok master hears a s" by (simp add: network_ok_def)
  then have inv: "node_inv s" by (simp add: device_ok_def)
  with Loop.hyps(4) have "node_inv s'" using firmware_loop_inv [OF inv, of "E a" levels rx] by auto
  then have "device_ok master hears a s'"
    using ok Loop.hyps(5) leaf_firmware_loop [OF Loop.hyps(4) inv] master_firmware_loop [OF Loop.hyps(4) inv]
    by (auto simp: device_ok_def)
  with Loop show ?case by (blast intro: network_ok_step)
next
  case (Hear ns air a s b tgt bs)
  then have ok: "device_ok master hears a s" "air_ok master (b, tgt, bs)"
    by (auto simp: network_ok_def)
  let ?s = "on_mesh (onDataRecvCallback (Some b) (Some bs)) s"
  have "node_inv ?s"
    using ok(1) by (intro node_inv_mesh callback_ok node_inv_ok) (simp_all add: device_ok_def)
  moreover have "leaf_ok {b. master b \<and> hears a b} ?s" if "\<not> master a"
  proof (rule leaf_receive)
    show "heard_ok {b. master b \<and> hears a b} x" if "Some bs = Some x" for x
      using heard_direct [where hears = hears, OF ok(2) Hear.hyps(4,5) \<open>\<not> master a\<close> assms(3)] that by simp
  qed (use ok(1) that in \<open>simp add: device_ok_def\<close>)
  ultimately have "device_ok master hears a ?s"
    using ok(1) master_receive by (auto simp: device_ok_def)
  with Hear show ?case by (blast intro: network_ok_step)
qed

section \<open>How far a route reaches\<close>

text \<open>
  C10. Routes are never longer than one hop: whatever the devices of a network do, in any order, and
  however frames are lost, delayed or repeated, a device that is not a master has a route only to a
  master it hears itself, with that master as the next hop. So one that hears no master has no
  route, and its reports are dropped with the error "no route": relayed beacons go back toward the
  master and never outward.
\<close>
theorem no_route_beyond_one_hop:
  assumes "network E master hears ns air" and "devices_ok E" and "\<not> master broadcast_mac"
    and "ns a = Some s" and "\<not> master a"
  shows "(distance (currentMaster (mesh s)) = 0xFF
      \<or> (distance (currentMaster (mesh s)) = 1
          \<and> nextHop (currentMaster (mesh s)) = masterMac (currentMaster (mesh s))
          \<and> master (masterMac (currentMaster (mesh s))) \<and> hears a (masterMac (currentMaster (mesh s)))))
    \<and> ((\<nexists>b. master b \<and> hears a b) \<longrightarrow> 64 \<le> length d \<longrightarrow>
        transmit (E a) ty (Some d) s = fail COMM M_MESH 8 (on_mesh (\<lambda>m. m\<lparr>txSeqNum := txSeqNum m + 1\<rparr>) s))"
proof -
  have "leaf_ok {b. master b \<and> hears a b} s"
    using network_inv [OF assms(1-3)] assms(4,5) by (auto simp: network_ok_def device_ok_def)
  then have hop: "one_hop {b. master b \<and> hears a b} (currentMaster (mesh s))" and role: "\<not> isMaster (mesh s)"
    by (simp_all add: leaf_ok_def leaf_core_def)
  then have "\<not> has_route (now s) (mesh s)" if "\<nexists>b. master b \<and> hears a b"
    using that by (auto simp: one_hop_def has_route_def)
  with role have "transmit (E a) ty (Some d) s
      = fail COMM M_MESH 8 (on_mesh (\<lambda>m. m\<lparr>txSeqNum := txSeqNum m + 1\<rparr>) s)"
    if "\<nexists>b. master b \<and> hears a b" "64 \<le> length d"
    using that by (intro transmit_unrouted) auto
  with hop show ?thesis by (auto simp: one_hop_def)
qed

theorem no_route_beyond_one_hop_witness:
  "\<exists>ns air s. network quiet_env (\<lambda>b. b = nodeB) (\<lambda>a b. b \<noteq> nodeB) ns air \<and> ns nodeA = Some s
     \<and> distance (currentMaster (mesh s)) = 0xFF"
proof -
  define s where "s = firmware_setup (quiet_env nodeA) 1 (boot_state ee_sensor)"
  have "\<not> unexpected_reset 1" by (simp add: unexpected_reset_def)
  note up = provisioned_setup [OF provisioned_sensor env_boots_quiet this s_def]
  have "ee_read MASTER_FLAG (ee_power_cycle ee_sensor) \<noteq> 1"
    by (simp add: ee_read_power) (simp add: ee_sensor_def)
  then have "isMaster (mesh s) = (nodeA = nodeB)" using up by simp
  then have net: "network quiet_env (\<lambda>b. b = nodeB) (\<lambda>a b. b \<noteq> nodeB) (Map.empty(nodeA \<mapsto> s)) ({} \<union> sent_by nodeA s)"
    using up s_def
    by (intro network.Boot [where a = nodeA and E = quiet_env and reason = 1 and e = ee_sensor] network.Off) simp_all
  have "devices_ok quiet_env" by (simp add: devices_ok_def)
  from no_route_beyond_one_hop [OF net this, of nodeA s "[]" 0] net show ?thesis
    by (intro exI [of _ "Map.empty(nodeA \<mapsto> s)"] exI [of _ "{} \<union> sent_by nodeA s"] exI [of _ s])
      (auto simp: broadcast_mac_def)
qed

end
